theory Spec2Isabelle
  imports Complex_Main
begin

section \<open>Inter-company invoice mirroring: the data model\<close>

text \<open>
  The module extends \<open>account.move\<close> and \<open>account.move.line\<close> of the host ledger.
  A recordset is a list of row ids, a table is a map from ids to rows together with
  the next id of its sequence (so the id of a row is its key, not a field), and every
  method takes the database and returns the database it reached together with its
  value or the exception it raised.
  Monetary amounts are exact rationals; they are only ever handed to the host's
  \<open>float_compare\<close>, which is a parameter of the environment.
\<close>

datatype move_state = Draft | Posted | Cancel

record move_line =
  line_id :: nat
  line_name :: string
  display_type :: string
  product_id :: "nat option"
  product_uom_id :: "nat option"
  quantity :: rat
  price_unit :: rat
  discount :: rat
  sequence :: int
  analytic_account_id :: "nat option"
  analytic_tag_ids :: "nat list"
  auto_invoice_line_id :: "nat option"

text \<open>The chatter holds the notes posted on a document; the only note this module
  posts is the total-mismatch warning, kept with the four values its text is
  formatted from: the mirror's total, the source's number, the source's company
  name and the source's total.\<close>

datatype chatter_note = TotalMismatchWarning rat string string rat

record move =
  name :: string
  ref :: string
  move_type :: string
  company_id :: nat
  partner_id :: "nat option"
  commercial_partner_id :: "nat option"
  state :: move_state
  auto_generated :: bool
  auto_invoice_id :: "nat option"
  amount_untaxed :: rat
  amount_total :: rat
  currency_id :: nat
  invoice_origin :: string
  invoice_date :: "nat option"
  narration :: string
  journal_id :: "nat option"
  partner_shipping_id :: "nat option"
  invoice_line_ids :: "move_line list"
  message_ids :: "chatter_note list"

record company =
  company_ident :: nat
  company_name :: string
  company_partner_id :: nat
  company_share_product :: bool
  invoice_auto_validation :: bool
  intercompany_invoice_user_id :: "nat option"

record journal =
  journal_ident :: nat
  journal_type :: string
  journal_company_id :: nat

subsection \<open>Move-type and journal-type tables\<close>

definition supported_types :: "string list" where
  "supported_types = [''out_invoice'', ''in_invoice'', ''out_refund'', ''in_refund'']"

definition MAP_INVOICE_TYPE :: "string \<rightharpoonup> string" where
  "MAP_INVOICE_TYPE = map_of
     [(''out_invoice'', ''in_invoice''),
      (''in_invoice'', ''out_invoice''),
      (''out_refund'', ''in_refund''),
      (''in_refund'', ''out_refund'')]"

definition MAP_JOURNAL_TYPE :: "string \<rightharpoonup> string" where
  "MAP_JOURNAL_TYPE = map_of
     [(''out_invoice'', ''purchase''),
      (''in_invoice'', ''sale''),
      (''out_refund'', ''purchase''),
      (''in_refund'', ''sale'')]"

text \<open>\<open>dict.get\<close> returns \<open>None\<close> on a missing key.\<close>

definition get_destination_invoice_type :: "move \<Rightarrow> string option" where
  "get_destination_invoice_type m = MAP_INVOICE_TYPE (move_type m)"

definition get_destination_journal_type :: "move \<Rightarrow> string option" where
  "get_destination_journal_type m = MAP_JOURNAL_TYPE (move_type m)"

subsection \<open>Exceptions, context and environment\<close>

text \<open>
  Each \<open>UserError\<close> of the module is a constructor carrying the values its message is
  formatted from. \<open>ExpectedSingleton\<close> is the \<open>ValueError\<close> the ORM raises when a field
  is read on a recordset of several rows, \<open>MissingError\<close> the one for a row that no
  longer exists, \<open>HostError\<close> any refusal of the host ledger, and \<open>RecursionError\<close>
  Python's limit on the depth of calls.
\<close>

datatype host_op =
  OpPost | OpDraft | OpCancel | OpWrite | OpCreate | OpCreateLine | OpUnlink | OpMessage

datatype error =
    ProductNotMulticompany string string
  | LineWithoutProduct string
  | JournalNotDefined "string option" string nat
  | PostedInterCompanyInvoice string string
  | AmountDiffersFromSource string
  | ExpectedSingleton "nat list"
  | MissingError nat
  | HostError host_op nat
  | RecursionError

datatype precision = Precision_digits nat | Precision_rounding rat

text \<open>The part of \<open>self.env\<close> the module sets: the acting user, the superuser flag,
  the current company and the context keys it passes.\<close>

record call_context =
  uid :: "nat option"
  su :: bool
  allowed_company :: "nat option"
  skip_check_amount_difference :: bool
  check_move_validity :: bool
  force_delete :: bool

text \<open>
  The services the module consumes and does not define: the company and journal
  directories, the decimal precision named Account, \<open>odoo.tools.float_compare\<close>,
  the fields read through a relation (currency rounding, partner and product names,
  commercial partner, owning company of a partner, of an analytic account and of an
  analytic tag), the first user of \<open>dest_company._get_user_domain()\<close>, the read access
  rule on products, the name a new form proposes, the totals the ledger computes from
  the lines of a document, and the ledger's own validation of each operation.
\<close>

record env =
  companies :: "company list"
  journals :: "journal list"
  account_precision :: nat
  float_compare :: "rat \<Rightarrow> rat \<Rightarrow> precision \<Rightarrow> int"
  currency_rounding :: "nat \<Rightarrow> rat"
  partner_display_name :: "nat \<Rightarrow> string"
  commercial_partner_of :: "nat \<Rightarrow> nat"
  partner_company :: "nat \<Rightarrow> nat option"
  product_name :: "nat \<Rightarrow> string"
  analytic_account_company :: "nat \<Rightarrow> nat option"
  analytic_tag_company :: "nat \<Rightarrow> nat option"
  user_of_domain :: "company \<Rightarrow> nat option"
  product_readable :: "nat option \<Rightarrow> nat \<Rightarrow> nat \<Rightarrow> bool"
  form_default_name :: string
  compute_amounts :: "nat \<Rightarrow> move_line list \<Rightarrow> rat \<times> rat"
  host_allows :: "host_op \<Rightarrow> move \<Rightarrow> bool"

subsection \<open>The database and the result of a method\<close>

text \<open>
  \<open>events\<close> is the journal of what the ledger was asked to do, in order: it is how
  the order of the steps of a method is observed.
\<close>

datatype event = Event host_op nat

record db =
  moves :: "nat \<Rightarrow> move option"
  next_id :: nat
  next_line_id :: nat
  events :: "event list"

type_synonym 'a result = "(error + 'a) \<times> db"

definition ok :: "'a \<Rightarrow> db \<Rightarrow> 'a result" where
  "ok v d = (Inr v, d)"

definition raise :: "error \<Rightarrow> db \<Rightarrow> 'a result" where
  "raise e d = (Inl e, d)"

definition bind :: "(db \<Rightarrow> 'a result) \<Rightarrow> ('a \<Rightarrow> db \<Rightarrow> 'b result) \<Rightarrow> db \<Rightarrow> 'b result" where
  "bind f g d = (case f d of (Inl e, d') \<Rightarrow> (Inl e, d') | (Inr v, d') \<Rightarrow> g v d')"

text \<open>A \<open>for\<close> loop over a recordset: the first exception ends it.\<close>

fun for_each :: "('a \<Rightarrow> db \<Rightarrow> unit result) \<Rightarrow> 'a list \<Rightarrow> db \<Rightarrow> unit result" where
  "for_each f [] d = (Inr (), d)"
| "for_each f (x # xs) d =
     (case f x d of (Inl e, d') \<Rightarrow> (Inl e, d') | (Inr _, d') \<Rightarrow> for_each f xs d')"

text \<open>The host runs every request in one transaction: an exception that reaches the
  boundary rolls the database back to where the request started.\<close>

definition transaction :: "(db \<Rightarrow> 'a result) \<Rightarrow> db \<Rightarrow> 'a result" where
  "transaction f d = (case f d of (Inl e, _) \<Rightarrow> (Inl e, d) | (Inr v, d') \<Rightarrow> (Inr v, d'))"

definition browse :: "db \<Rightarrow> nat \<Rightarrow> move option" where
  "browse d i = (if i < next_id d then moves d i else None)"

definition rows :: "db \<Rightarrow> (nat \<times> move) list" where
  "rows d = List.map_filter (\<lambda>i. map_option (Pair i) (browse d i)) [0..<next_id d]"

text \<open>\<open>search\<close> returns the rows that satisfy the domain, each with its id, in the
  order of the ids
  (the order the ledger declares on its documents is not modelled, and neither are
  record rules: a search sees every row).\<close>

definition search :: "(move \<Rightarrow> bool) \<Rightarrow> db \<Rightarrow> (nat \<times> move) list" where
  "search domain d = filter (\<lambda>r. domain (snd r)) (rows d)"

text \<open>Reading a field of a row: \<open>MissingError\<close> when the row is gone.\<close>

definition read :: "nat \<Rightarrow> db \<Rightarrow> move result" where
  "read i d = (case browse d i of None \<Rightarrow> raise (MissingError i) d | Some m \<Rightarrow> ok m d)"

definition company_by_id :: "env \<Rightarrow> nat \<Rightarrow> company option" where
  "company_by_id E c = find (\<lambda>x. company_ident x = c) (companies E)"

text \<open>Reading through an empty relation gives the null value of the field.\<close>

definition company_name_of :: "env \<Rightarrow> nat \<Rightarrow> string" where
  "company_name_of E c = (case company_by_id E c of None \<Rightarrow> [] | Some x \<Rightarrow> company_name x)"

definition company_partner_of :: "env \<Rightarrow> nat \<Rightarrow> nat option" where
  "company_partner_of E c = map_option company_partner_id (company_by_id E c)"

subsection \<open>The operations of the host ledger\<close>

text \<open>
  What \<open>super()\<close> does is outside the module. The ledger is modelled by its contract:
  an operation on a row first passes the ledger's own validation (\<open>host_allows\<close>), then
  has its effect on that row and is recorded in the journal of events.
\<close>

definition put :: "nat \<Rightarrow> move \<Rightarrow> db \<Rightarrow> db" where
  "put i m d = d\<lparr>moves := (moves d)(i \<mapsto> m)\<rparr>"

definition record_event :: "host_op \<Rightarrow> nat \<Rightarrow> db \<Rightarrow> db" where
  "record_event op i d = d\<lparr>events := events d @ [Event op i]\<rparr>"

definition host_update :: "env \<Rightarrow> host_op \<Rightarrow> (move \<Rightarrow> move) \<Rightarrow> nat \<Rightarrow> db \<Rightarrow> unit result" where
  "host_update E op f i d =
     (case browse d i of
        None \<Rightarrow> raise (MissingError i) d
      | Some m \<Rightarrow>
          if host_allows E op m then ok () (record_event op i (put i (f m) d))
          else raise (HostError op i) d)"

definition host_action_post :: "env \<Rightarrow> nat list \<Rightarrow> db \<Rightarrow> unit result" where
  "host_action_post E ids = for_each (host_update E OpPost (\<lambda>m. m\<lparr>state := Posted\<rparr>)) ids"

definition host_button_draft :: "env \<Rightarrow> nat list \<Rightarrow> db \<Rightarrow> unit result" where
  "host_button_draft E ids = for_each (host_update E OpDraft (\<lambda>m. m\<lparr>state := Draft\<rparr>)) ids"

definition host_button_cancel :: "env \<Rightarrow> nat list \<Rightarrow> db \<Rightarrow> unit result" where
  "host_button_cancel E ids = for_each (host_update E OpCancel (\<lambda>m. m\<lparr>state := Cancel\<rparr>)) ids"

definition host_message_post :: "env \<Rightarrow> nat \<Rightarrow> chatter_note \<Rightarrow> db \<Rightarrow> unit result" where
  "host_message_post E i body =
     host_update E OpMessage (\<lambda>m. m\<lparr>message_ids := message_ids m @ [body]\<rparr>) i"

text \<open>The values of a \<open>write\<close>: one entry per field written. The totals are stored
  computed fields: the ledger recomputes them when the lines are written.\<close>

datatype field_value =
    F_invoice_origin string
  | F_narration string
  | F_ref string
  | F_name string
  | F_currency_id nat
  | F_partner_id "nat option"
  | F_invoice_line_ids "move_line list"

fun assign :: "env \<Rightarrow> field_value \<Rightarrow> move \<Rightarrow> move" where
  "assign E (F_invoice_origin v) m = m\<lparr>invoice_origin := v\<rparr>"
| "assign E (F_narration v) m = m\<lparr>narration := v\<rparr>"
| "assign E (F_ref v) m = m\<lparr>ref := v\<rparr>"
| "assign E (F_name v) m = m\<lparr>name := v\<rparr>"
| "assign E (F_currency_id v) m = m\<lparr>currency_id := v\<rparr>"
| "assign E (F_partner_id v) m =
     m\<lparr>partner_id := v, commercial_partner_id := map_option (commercial_partner_of E) v\<rparr>"
| "assign E (F_invoice_line_ids v) m =
     m\<lparr>invoice_line_ids := v,
       amount_untaxed := fst (compute_amounts E (company_id m) v),
       amount_total := snd (compute_amounts E (company_id m) v)\<rparr>"

definition host_write :: "env \<Rightarrow> nat list \<Rightarrow> field_value list \<Rightarrow> db \<Rightarrow> unit result" where
  "host_write E ids vals = for_each (host_update E OpWrite (\<lambda>m. fold (assign E) vals m)) ids"

text \<open>\<open>create\<close> takes the next id of the sequence; a new document is a draft.\<close>

definition insert_row :: "move \<Rightarrow> db \<Rightarrow> db" where
  "insert_row m d = put (next_id d) m (d\<lparr>next_id := Suc (next_id d)\<rparr>)"

definition host_create :: "env \<Rightarrow> move \<Rightarrow> db \<Rightarrow> nat result" where
  "host_create E vals d =
     (let i = next_id d; m = vals\<lparr>state := Draft\<rparr> in
      if host_allows E OpCreate m
      then ok i (record_event OpCreate i (insert_row m d))
      else raise (HostError OpCreate i) d)"

text \<open>\<open>unlink\<close> deletes the row; \<open>auto_invoice_id\<close> is declared without \<open>ondelete\<close>, so
  the references to a deleted row are set to null. With \<open>force_delete\<close> in the context
  the ledger does not apply its restrictions on deletion.\<close>

definition clear_reference :: "nat \<Rightarrow> move \<Rightarrow> move" where
  "clear_reference i m = (if auto_invoice_id m = Some i then m\<lparr>auto_invoice_id := None\<rparr> else m)"

definition delete_row :: "nat \<Rightarrow> db \<Rightarrow> db" where
  "delete_row i d =
     d\<lparr>moves := (\<lambda>j. if j = i then None else map_option (clear_reference i) (moves d j))\<rparr>"

definition host_unlink :: "env \<Rightarrow> call_context \<Rightarrow> nat \<Rightarrow> db \<Rightarrow> unit result" where
  "host_unlink E ctx i d =
     (case browse d i of
        None \<Rightarrow> raise (MissingError i) d
      | Some m \<Rightarrow>
          if force_delete ctx \<or> host_allows E OpUnlink m
          then ok () (record_event OpUnlink i (delete_row i d))
          else raise (HostError OpUnlink i) d)"

text \<open>Creating a line on a document gives it the next line id; the ledger recomputes
  the totals of the document.\<close>

definition recompute :: "env \<Rightarrow> move \<Rightarrow> move" where
  "recompute E m =
     m\<lparr>amount_untaxed := fst (compute_amounts E (company_id m) (invoice_line_ids m)),
       amount_total := snd (compute_amounts E (company_id m) (invoice_line_ids m))\<rparr>"

definition host_create_line :: "env \<Rightarrow> nat \<times> move_line \<Rightarrow> db \<Rightarrow> unit result" where
  "host_create_line E v d =
     bind (host_update E OpCreateLine
             (\<lambda>m. recompute E
                (m\<lparr>invoice_line_ids := invoice_line_ids m @ [(snd v)\<lparr>line_id := next_line_id d\<rparr>]\<rparr>))
             (fst v))
          (\<lambda>_ d'. ok () (d'\<lparr>next_line_id := Suc (next_line_id d')\<rparr>)) d"

definition host_create_lines :: "env \<Rightarrow> (nat \<times> move_line) list \<Rightarrow> db \<Rightarrow> unit result" where
  "host_create_lines E vals = for_each (host_create_line E) vals"

definition move_autocomplete_invoice_lines_values :: "env \<Rightarrow> nat \<Rightarrow> db \<Rightarrow> unit result" where
  "move_autocomplete_invoice_lines_values E i d =
     (case browse d i of
        None \<Rightarrow> raise (MissingError i) d
      | Some m \<Rightarrow> ok () (put i (recompute E m) d))"

section \<open>The methods of the module\<close>

definition lift :: "error + 'a \<Rightarrow> db \<Rightarrow> 'a result" where
  "lift r d = (case r of Inl e \<Rightarrow> (Inl e, d) | Inr v \<Rightarrow> (Inr v, d))"

text \<open>\<open>self.filtered(p)\<close> reads the rows of the recordset.\<close>

fun filtered :: "(move \<Rightarrow> bool) \<Rightarrow> nat list \<Rightarrow> db \<Rightarrow> nat list result" where
  "filtered p [] d = (Inr [], d)"
| "filtered p (i # is) d =
     (case browse d i of
        None \<Rightarrow> (Inl (MissingError i), d)
      | Some m \<Rightarrow>
          (case filtered p is d of
             (Inl e, d') \<Rightarrow> (Inl e, d')
           | (Inr r, d') \<Rightarrow> (Inr (if p m then i # r else r), d')))"

definition find_company_from_invoice_partner :: "env \<Rightarrow> move \<Rightarrow> company option" where
  "find_company_from_invoice_partner E m =
     find (\<lambda>c. Some (company_partner_id c) = commercial_partner_id m) (companies E)"

subsection \<open>Product visibility\<close>

text \<open>The access rule is checked on the product of every line of the source; a line
  without a product gives an empty recordset, on which the check passes.\<close>

definition check_line_product :: "env \<Rightarrow> company \<Rightarrow> move_line \<Rightarrow> db \<Rightarrow> unit result" where
  "check_line_product E dest_company line =
     (case product_id line of
        None \<Rightarrow> ok ()
      | Some p \<Rightarrow>
          if product_readable E (user_of_domain E dest_company) (company_ident dest_company) p
          then ok ()
          else raise (ProductNotMulticompany (company_name dest_company) (product_name E p)))"

definition check_intercompany_product :: "env \<Rightarrow> move \<Rightarrow> company \<Rightarrow> db \<Rightarrow> unit result" where
  "check_intercompany_product E src dest_company =
     (if company_share_product dest_company then ok ()
      else for_each (check_line_product E dest_company) (invoice_line_ids src))"

subsection \<open>Header and line values\<close>

text \<open>
  The header is filled in through a form of the destination company: the journal
  found for the destination (whose company becomes the company of the document), the
  partner of the source's company, the source's number as reference, the date,
  narration and currency of the source. The values are then completed with the
  origin note, the back-reference and the \<open>auto_generated\<close> flag, and with the shipping
  partner when it belongs to no company.
\<close>

definition prepare_invoice_data :: "env \<Rightarrow> nat \<Rightarrow> move \<Rightarrow> company \<Rightarrow> error + move" where
  "prepare_invoice_data E sid src dest_company =
     (let dest_inv_type = get_destination_invoice_type src;
          dest_journal_type = get_destination_journal_type src
      in case find (\<lambda>j. Some (journal_type j) = dest_journal_type \<and>
                          journal_company_id j = company_ident dest_company) (journals E) of
           None \<Rightarrow> Inl (JournalNotDefined dest_journal_type (company_name dest_company)
                          (company_ident dest_company))
         | Some dest_journal \<Rightarrow> Inr
             \<lparr> name = form_default_name E,
               ref = name src,
               move_type = (case dest_inv_type of Some t \<Rightarrow> t | None \<Rightarrow> ''entry''),
               company_id = journal_company_id dest_journal,
               partner_id = company_partner_of E (company_id src),
               commercial_partner_id =
                 map_option (commercial_partner_of E) (company_partner_of E (company_id src)),
               state = Draft,
               auto_generated = True,
               auto_invoice_id = Some sid,
               amount_untaxed = fst (compute_amounts E (journal_company_id dest_journal) []),
               amount_total = snd (compute_amounts E (journal_company_id dest_journal) []),
               currency_id = currency_id src,
               invoice_origin = company_name_of E (company_id src) @ '' - Invoice: '' @ name src,
               invoice_date = invoice_date src,
               narration = narration src,
               journal_id = Some (journal_ident dest_journal),
               partner_shipping_id =
                 (case partner_shipping_id src of
                    None \<Rightarrow> None
                  | Some p \<Rightarrow> if partner_company E p = None then Some p else None),
               invoice_line_ids = [],
               message_ids = [] \<rparr>)"

definition prepare_account_move_line :: "env \<Rightarrow> move_line \<Rightarrow> nat \<Rightarrow> company \<Rightarrow> nat \<times> move_line" where
  "prepare_account_move_line E line dest_move dest_company =
     (let shared = (case analytic_account_id line of
                      None \<Rightarrow> False
                    | Some a \<Rightarrow> analytic_account_company E a = None)
      in (dest_move,
          \<lparr> line_id = 0,
            line_name = line_name line,
            display_type = display_type line,
            product_id = product_id line,
            product_uom_id = product_uom_id line,
            quantity = quantity line,
            price_unit = price_unit line,
            discount = discount line,
            sequence = sequence line,
            analytic_account_id = (if shared then analytic_account_id line else None),
            analytic_tag_ids =
              (if shared then filter (\<lambda>t. analytic_tag_company E t = None) (analytic_tag_ids line)
               else []),
            auto_invoice_line_id = Some (line_id line) \<rparr>))"

text \<open>The loop over the lines of the source that are not sections or notes: the
  first one without a product raises.\<close>

fun prepare_lines :: "env \<Rightarrow> nat \<Rightarrow> company \<Rightarrow> move_line list \<Rightarrow> error + (nat \<times> move_line) list" where
  "prepare_lines E dest_move dest_company [] = Inr []"
| "prepare_lines E dest_move dest_company (src_line # ls) =
     (if product_id src_line = None then Inl (LineWithoutProduct (line_name src_line))
      else case prepare_lines E dest_move dest_company ls of
             Inl e \<Rightarrow> Inl e
           | Inr vs \<Rightarrow> Inr (prepare_account_move_line E src_line dest_move dest_company # vs))"

text \<open>The line the loop stops at: the first line of the source that is neither a
  section nor a note and has no product.\<close>

definition first_line_without_product :: "move \<Rightarrow> move_line option" where
  "first_line_without_product src =
     find (\<lambda>l. display_type l = [] \<and> product_id l = None) (invoice_line_ids src)"

text \<open>No line has been created between two states of the database: the journal of
  events has only grown, by no creation of a line, and every document has the lines
  it had, or none.\<close>

definition is_line_creation :: "event \<Rightarrow> bool" where
  "is_line_creation e = (case e of Event op i \<Rightarrow> op = OpCreateLine)"

definition lines_as_before :: "db \<Rightarrow> db \<Rightarrow> bool" where
  "lines_as_before d d' =
     (take (length (events d)) (events d') = events d \<and>
      filter is_line_creation (drop (length (events d)) (events d')) = [] \<and>
      filter (\<lambda>r. invoice_line_ids (snd r) \<noteq> [] \<and>
                   map_option invoice_line_ids (browse d (fst r)) \<noteq>
                     Some (invoice_line_ids (snd r))) (rows d') = [])"

subsection \<open>The mirror builder\<close>

text \<open>Lines 105 to 111: the mirrors already there for this source and destination.
  An empty recordset is falsy; the state of a recordset of several rows cannot be
  read.\<close>

definition existing_mirrors :: "nat \<Rightarrow> company \<Rightarrow> db \<Rightarrow> (nat \<times> move) list" where
  "existing_mirrors sid dest_company d =
     search (\<lambda>m. auto_invoice_id m = Some sid \<and> company_id m = company_ident dest_company) d"

definition reclaim_stale_mirror ::
  "env \<Rightarrow> call_context \<Rightarrow> nat \<Rightarrow> company \<Rightarrow> db \<Rightarrow> string option result" where
  "reclaim_stale_mirror E ctx sid dest_company d =
     (let inter_invoice = existing_mirrors sid dest_company d
      in case inter_invoice of
           [] \<Rightarrow> ok None d
         | [r] \<Rightarrow>
             if state (snd r) = Draft \<or> state (snd r) = Cancel
             then bind (host_unlink E (ctx\<lparr>force_delete := True\<rparr>) (fst r))
                       (\<lambda>_. ok (Some (name (snd r)))) d
             else ok None d
         | _ \<Rightarrow> raise (ExpectedSingleton (map fst inter_invoice)) d)"

definition with_forced_number :: "string option \<Rightarrow> move \<Rightarrow> move" where
  "with_forced_number force_number vals =
     (case force_number of
        None \<Rightarrow> vals
      | Some n \<Rightarrow> if n \<noteq> [] then vals\<lparr>name := n\<rparr> else vals)"

text \<open>Lines 135 to 157: post the mirror, or leave it and warn.\<close>

definition validate_or_warn ::
  "(env \<Rightarrow> call_context \<Rightarrow> nat list \<Rightarrow> db \<Rightarrow> unit result) \<Rightarrow>
   env \<Rightarrow> call_context \<Rightarrow> nat \<Rightarrow> nat \<Rightarrow> company \<Rightarrow> db \<Rightarrow> unit result" where
  "validate_or_warn post E ctx sid dest_invoice dest_company =
     bind (read sid) (\<lambda>src.
     bind (read dest_invoice) (\<lambda>dest.
       if invoice_auto_validation dest_company \<and>
          float_compare E (amount_total src) (amount_total dest)
            (Precision_digits (account_precision E)) = 0
       then post E ctx [dest_invoice]
       else if float_compare E (amount_total src) (amount_total dest)
                 (Precision_digits (account_precision E)) \<noteq> 0
       then host_message_post E dest_invoice
              (TotalMismatchWarning (amount_total dest) (name src)
                 (company_name_of E (company_id src)) (amount_total src))
       else ok ()))"

text \<open>Lines 113 to 116: the header of the mirror.\<close>

definition create_invoice_header ::
  "env \<Rightarrow> nat \<Rightarrow> company \<Rightarrow> string option \<Rightarrow> db \<Rightarrow> nat result" where
  "create_invoice_header E sid dest_company force_number =
     bind (read sid) (\<lambda>src.
     bind (lift (prepare_invoice_data E sid src dest_company)) (\<lambda>dest_invoice_data.
     host_create E (with_forced_number force_number dest_invoice_data)))"

text \<open>Lines 118 to 133: the lines of the mirror, created in one call once all of them
  have been prepared, then the completion of the document.\<close>

definition create_invoice_lines :: "env \<Rightarrow> nat \<Rightarrow> nat \<Rightarrow> company \<Rightarrow> db \<Rightarrow> unit result" where
  "create_invoice_lines E sid dest_invoice dest_company =
     bind (read sid) (\<lambda>src.
     bind (lift (prepare_lines E dest_invoice dest_company
                   (filter (\<lambda>x. display_type x = []) (invoice_line_ids src))))
          (\<lambda>dest_move_line_data.
     bind (host_create_lines E dest_move_line_data) (\<lambda>_.
     move_autocomplete_invoice_lines_values E dest_invoice)))"

text \<open>The body of \<open>_inter_company_create_invoice\<close>, with \<open>action_post\<close>, which it calls
  on the mirror, as a parameter.\<close>

definition inter_company_create_invoice_body ::
  "(env \<Rightarrow> call_context \<Rightarrow> nat list \<Rightarrow> db \<Rightarrow> unit result) \<Rightarrow>
   env \<Rightarrow> call_context \<Rightarrow> nat \<Rightarrow> company \<Rightarrow> db \<Rightarrow> nat result" where
  "inter_company_create_invoice_body post E ctx0 sid dest_company =
     (let ctx = ctx0\<lparr>check_move_validity := False\<rparr> in
      bind (read sid) (\<lambda>src.
      bind (check_intercompany_product E src dest_company) (\<lambda>_.
      bind (reclaim_stale_mirror E ctx sid dest_company) (\<lambda>force_number.
      bind (create_invoice_header E sid dest_company force_number) (\<lambda>dest_invoice.
      bind (create_invoice_lines E sid dest_invoice dest_company) (\<lambda>_.
      bind (validate_or_warn post E ctx sid dest_invoice dest_company) (\<lambda>_.
      ok dest_invoice)))))))"

text \<open>The header of a document: everything but the lines and the totals computed
  from them.\<close>

definition header :: "move \<Rightarrow> move" where
  "header m = m\<lparr>invoice_line_ids := [], amount_untaxed := 0, amount_total := 0\<rparr>"

text \<open>The lines a mirror receives: the values prepared from the lines of the source
  that are neither sections nor notes, with the line ids the sequence gives them.\<close>

fun numbered :: "nat \<Rightarrow> move_line list \<Rightarrow> move_line list" where
  "numbered k [] = []"
| "numbered k (l # ls) = l\<lparr>line_id := k\<rparr> # numbered (Suc k) ls"

definition mirror_lines :: "env \<Rightarrow> move \<Rightarrow> nat \<Rightarrow> company \<Rightarrow> move_line list" where
  "mirror_lines E src dest_move dest_company =
     map (\<lambda>l. snd (prepare_account_move_line E l dest_move dest_company))
       (filter (\<lambda>x. display_type x = []) (invoice_line_ids src))"

text \<open>The mirror as the builder has completed it, before it is posted or annotated:
  the prepared header, with the reclaimed number if there is one, as a draft, with
  its lines and the totals the ledger computes from them.\<close>

definition completed_mirror ::
  "env \<Rightarrow> string option \<Rightarrow> move \<Rightarrow> nat \<Rightarrow> move \<Rightarrow> nat \<Rightarrow> company \<Rightarrow> move" where
  "completed_mirror E force_number vals k src dest_move dest_company =
     recompute E
       ((with_forced_number force_number vals)
          \<lparr>state := Draft,
           invoice_line_ids := numbered k (mirror_lines E src dest_move dest_company)\<rparr>)"

subsection \<open>Posting\<close>

definition posted_mirrors :: "nat \<Rightarrow> nat \<Rightarrow> db \<Rightarrow> (nat \<times> move) list" where
  "posted_mirrors sid c d =
     search (\<lambda>m. auto_invoice_id m = Some sid \<and> company_id m = c \<and> state m = Posted) d"

definition intercompany_context :: "call_context \<Rightarrow> company \<Rightarrow> call_context" where
  "intercompany_context ctx dest_company =
     (case intercompany_invoice_user_id dest_company of
        Some u \<Rightarrow> ctx\<lparr>uid := Some u, su := True\<rparr>
      | None \<Rightarrow> ctx\<lparr>su := True\<rparr>)
     \<lparr>allowed_company := Some (company_ident dest_company),
      skip_check_amount_difference := True\<rparr>"

text \<open>One turn of the loop of \<open>action_post\<close>.\<close>

definition mirror_document ::
  "(env \<Rightarrow> call_context \<Rightarrow> nat \<Rightarrow> company \<Rightarrow> db \<Rightarrow> nat result) \<Rightarrow>
   env \<Rightarrow> call_context \<Rightarrow> nat \<Rightarrow> db \<Rightarrow> unit result" where
  "mirror_document builder E ctx sid =
     bind (read sid) (\<lambda>src_invoice d.
       case find_company_from_invoice_partner E src_invoice of
         None \<Rightarrow> ok () d
       | Some dest_company \<Rightarrow>
           if auto_generated src_invoice then ok () d
           else if posted_mirrors sid (company_ident dest_company) d \<noteq> [] then ok () d
           else bind (builder E (intercompany_context ctx dest_company) sid dest_company)
                     (\<lambda>_. ok ()) d)"

definition action_post_body ::
  "(env \<Rightarrow> call_context \<Rightarrow> nat \<Rightarrow> company \<Rightarrow> db \<Rightarrow> nat result) \<Rightarrow>
   env \<Rightarrow> call_context \<Rightarrow> nat list \<Rightarrow> db \<Rightarrow> unit result" where
  "action_post_body builder E ctx ids =
     bind (host_action_post E ids) (\<lambda>_.
     bind (filtered (\<lambda>x. move_type x \<in> set supported_types) ids) (\<lambda>srcs.
     for_each (mirror_document builder E ctx) srcs))"

text \<open>\<open>action_post\<close> and the builder call each other; the first argument is the depth
  of calls still allowed, and running out of it is Python's \<open>RecursionError\<close>.\<close>

primrec action_post :: "nat \<Rightarrow> env \<Rightarrow> call_context \<Rightarrow> nat list \<Rightarrow> db \<Rightarrow> unit result" where
  "action_post 0 = (\<lambda>E ctx ids. raise RecursionError)"
| "action_post (Suc n) = action_post_body (inter_company_create_invoice_body (action_post n))"

definition inter_company_create_invoice ::
  "nat \<Rightarrow> env \<Rightarrow> call_context \<Rightarrow> nat \<Rightarrow> company \<Rightarrow> db \<Rightarrow> nat result" where
  "inter_company_create_invoice n = inter_company_create_invoice_body (action_post n)"

subsection \<open>Reset to draft, write, cancel\<close>

definition partner_name_of :: "env \<Rightarrow> move \<Rightarrow> string" where
  "partner_name_of E m = (case partner_id m of None \<Rightarrow> [] | Some p \<Rightarrow> partner_display_name E p)"

definition check_no_posted_mirror :: "env \<Rightarrow> nat \<Rightarrow> db \<Rightarrow> unit result" where
  "check_no_posted_mirror E i d =
     (case search (\<lambda>m. auto_invoice_id m = Some i \<and> state m = Posted) d of
        [] \<Rightarrow> ok () d
      | r # _ \<Rightarrow> raise (PostedInterCompanyInvoice (name (snd r)) (partner_name_of E (snd r))) d)"

definition button_draft :: "env \<Rightarrow> call_context \<Rightarrow> nat list \<Rightarrow> db \<Rightarrow> unit result" where
  "button_draft E ctx ids =
     bind (for_each (check_no_posted_mirror E) ids) (\<lambda>_. host_button_draft E ids)"

definition source_of :: "db \<Rightarrow> move \<Rightarrow> move option" where
  "source_of d m = (case auto_invoice_id m of None \<Rightarrow> None | Some s \<Rightarrow> browse d s)"

definition source_untaxed :: "db \<Rightarrow> move \<Rightarrow> rat" where
  "source_untaxed d m = (case source_of d m of None \<Rightarrow> 0 | Some s \<Rightarrow> amount_untaxed s)"

definition source_name :: "db \<Rightarrow> move \<Rightarrow> string" where
  "source_name d m = (case source_of d m of None \<Rightarrow> [] | Some s \<Rightarrow> name s)"

definition check_amount_difference :: "env \<Rightarrow> nat \<Rightarrow> db \<Rightarrow> unit result" where
  "check_amount_difference E i =
     bind (read i) (\<lambda>move d.
       if float_compare E (amount_untaxed move) (source_untaxed d move)
            (Precision_rounding (currency_rounding E (currency_id move))) \<noteq> 0
       then raise (AmountDiffersFromSource (source_name d move)) d
       else ok () d)"

definition write_move :: "env \<Rightarrow> call_context \<Rightarrow> nat list \<Rightarrow> field_value list \<Rightarrow> db \<Rightarrow> unit result" where
  "write_move E ctx ids vals =
     bind (host_write E ids vals) (\<lambda>_.
       if skip_check_amount_difference ctx then ok ()
       else bind (filtered (\<lambda>m. auto_invoice_id m \<noteq> None) ids) (\<lambda>mirrors.
            for_each (check_amount_difference E) mirrors))"

text \<open>A document of the database is a mirror whose untaxed total differs from that
  of its source, compared as \<open>write\<close> compares them: at the rounding of the currency
  of the mirror.\<close>

definition mirror_diverges :: "env \<Rightarrow> db \<Rightarrow> nat \<Rightarrow> bool" where
  "mirror_diverges E d i =
     (case browse d i of
        None \<Rightarrow> False
      | Some m \<Rightarrow>
          auto_invoice_id m \<noteq> None \<and>
          float_compare E (amount_untaxed m) (source_untaxed d m)
            (Precision_rounding (currency_rounding E (currency_id m))) \<noteq> 0)"

text \<open>The same comparison as the specification words it: at the rounding of the
  currency of the source.\<close>

definition diverges_at_source_rounding :: "env \<Rightarrow> db \<Rightarrow> nat \<Rightarrow> bool" where
  "diverges_at_source_rounding E d i =
     (case browse d i of
        None \<Rightarrow> False
      | Some m \<Rightarrow>
          (case source_of d m of
             None \<Rightarrow> False
           | Some s \<Rightarrow>
               float_compare E (amount_untaxed m) (amount_untaxed s)
                 (Precision_rounding (currency_rounding E (currency_id s))) \<noteq> 0))"

text \<open>The three steps \<open>button_cancel\<close> takes on one mirror of \<open>invoice\<close>.\<close>

definition cancel_mirror ::
  "(env \<Rightarrow> call_context \<Rightarrow> nat list \<Rightarrow> db \<Rightarrow> unit result) \<Rightarrow>
   env \<Rightarrow> call_context \<Rightarrow> nat \<Rightarrow> nat \<Rightarrow> db \<Rightarrow> unit result" where
  "cancel_mirror cancel E ctx invoice inter_invoice =
     bind (button_draft E ctx [inter_invoice]) (\<lambda>_.
     bind (read invoice) (\<lambda>inv.
     bind (write_move E ctx [inter_invoice]
             [F_invoice_origin
                (company_name_of E (company_id inv) @ '' - Canceled Invoice: '' @ name inv)]) (\<lambda>_.
     cancel E ctx [inter_invoice])))"

definition cancel_mirrors ::
  "(env \<Rightarrow> call_context \<Rightarrow> nat list \<Rightarrow> db \<Rightarrow> unit result) \<Rightarrow>
   env \<Rightarrow> call_context \<Rightarrow> nat \<Rightarrow> db \<Rightarrow> unit result" where
  "cancel_mirrors cancel E ctx invoice =
     bind (read invoice) (\<lambda>inv d.
       if find_company_from_invoice_partner E inv \<noteq> None \<and> \<not> auto_generated inv
       then for_each (cancel_mirror cancel E ctx invoice)
              (map fst (search (\<lambda>m. auto_invoice_id m = Some invoice) d)) d
       else ok () d)"

definition button_cancel_body ::
  "(env \<Rightarrow> call_context \<Rightarrow> nat list \<Rightarrow> db \<Rightarrow> unit result) \<Rightarrow>
   env \<Rightarrow> call_context \<Rightarrow> nat list \<Rightarrow> db \<Rightarrow> unit result" where
  "button_cancel_body cancel E ctx ids =
     bind (for_each (cancel_mirrors cancel E ctx) ids) (\<lambda>_. host_button_cancel E ids)"

text \<open>\<open>button_cancel\<close> calls itself on each mirror; the first argument is again the
  depth of calls still allowed.\<close>

primrec button_cancel :: "nat \<Rightarrow> env \<Rightarrow> call_context \<Rightarrow> nat list \<Rightarrow> db \<Rightarrow> unit result" where
  "button_cancel 0 = (\<lambda>E ctx ids. raise RecursionError)"
| "button_cancel (Suc n) = button_cancel_body (button_cancel n)"

section \<open>A reference environment and example documents\<close>

text \<open>
  An instance of the parameter \<open>float_compare\<close> for the examples: the comparison of
  \<open>odoo.tools\<close> computed on rationals. Both values are rounded to a multiple of the
  rounding factor, halves away from zero, and the difference is compared with zero.
\<close>

definition round_half_up :: "rat \<Rightarrow> int" where
  "round_half_up x = (if 0 \<le> x then \<lfloor>x + 1 / 2\<rfloor> else - \<lfloor>- x + 1 / 2\<rfloor>)"

definition rounding_factor :: "precision \<Rightarrow> rat" where
  "rounding_factor p = (case p of Precision_digits n \<Rightarrow> 1 / 10 ^ n | Precision_rounding r \<Rightarrow> r)"

definition float_round :: "rat \<Rightarrow> rat \<Rightarrow> rat" where
  "float_round v r = (if r = 0 \<or> v = 0 then 0 else of_int (round_half_up (v / r)) * r)"

definition float_is_zero :: "rat \<Rightarrow> rat \<Rightarrow> bool" where
  "float_is_zero v r = (\<bar>float_round v r\<bar> < r)"

definition float_compare_rat :: "rat \<Rightarrow> rat \<Rightarrow> precision \<Rightarrow> int" where
  "float_compare_rat a b p =
     (let r = rounding_factor p; delta = float_round a r - float_round b r
      in if float_is_zero delta r then 0 else if delta < 0 then - 1 else 1)"

text \<open>Three companies: A sells to B and to C. B validates its mirrors automatically,
  C does not. B has a purchase journal and A a sale journal; C has no journal.
  Currency 1 rounds to cents, currency 2 to units. There is no tax: both totals of a
  document are the sum of quantity times unit price, less the discount.\<close>

definition company_A :: company where
  "company_A = \<lparr> company_ident = 1, company_name = ''A'', company_partner_id = 10,
                 company_share_product = True, invoice_auto_validation = True,
                 intercompany_invoice_user_id = None \<rparr>"

definition company_B :: company where
  "company_B = \<lparr> company_ident = 2, company_name = ''B'', company_partner_id = 20,
                 company_share_product = False, invoice_auto_validation = True,
                 intercompany_invoice_user_id = Some 7 \<rparr>"

definition company_C :: company where
  "company_C = \<lparr> company_ident = 3, company_name = ''C'', company_partner_id = 30,
                 company_share_product = True, invoice_auto_validation = False,
                 intercompany_invoice_user_id = None \<rparr>"

definition line_total :: "move_line \<Rightarrow> rat" where
  "line_total l = quantity l * price_unit l * (1 - discount l / 100)"

definition E0 :: env where
  "E0 = \<lparr> companies = [company_A, company_B, company_C],
          journals = [\<lparr> journal_ident = 1, journal_type = ''sale'', journal_company_id = 1 \<rparr>,
                      \<lparr> journal_ident = 2, journal_type = ''purchase'', journal_company_id = 2 \<rparr>,
                      \<lparr> journal_ident = 3, journal_type = ''purchase'', journal_company_id = 3 \<rparr>],
          account_precision = 2,
          float_compare = float_compare_rat,
          currency_rounding = (\<lambda>c. if c = 2 then 1 else 1 / 100),
          partner_display_name = (\<lambda>p. if p = 10 then ''A'' else if p = 20 then ''B'' else ''C''),
          commercial_partner_of = (\<lambda>p. p),
          partner_company = (\<lambda>p. None),
          product_name = (\<lambda>p. ''P''),
          analytic_account_company = (\<lambda>a. None),
          analytic_tag_company = (\<lambda>t. None),
          user_of_domain = (\<lambda>c. Some 7),
          product_readable = (\<lambda>u c p. True),
          form_default_name = ''/'',
          compute_amounts = (\<lambda>c ls. (sum_list (map line_total ls), sum_list (map line_total ls))),
          host_allows = (\<lambda>op m. True) \<rparr>"

text \<open>The same directory without the journal of C.\<close>

definition E1 :: env where
  "E1 = E0\<lparr> journals := [\<lparr> journal_ident = 1, journal_type = ''sale'', journal_company_id = 1 \<rparr>,
                          \<lparr> journal_ident = 2, journal_type = ''purchase'', journal_company_id = 2 \<rparr>] \<rparr>"

definition user_context :: call_context where
  "user_context = \<lparr> uid = Some 5, su = False, allowed_company = Some 1,
                    skip_check_amount_difference = False, check_move_validity = True,
                    force_delete = False \<rparr>"

definition line_P :: move_line where
  "line_P = \<lparr> line_id = 1, line_name = ''two P'', display_type = [], product_id = Some 4,
              product_uom_id = Some 1, quantity = 2, price_unit = 100, discount = 0,
              sequence = 10, analytic_account_id = None, analytic_tag_ids = [],
              auto_invoice_line_id = None \<rparr>"

definition line_no_product :: move_line where
  "line_no_product = line_P\<lparr> line_id := 2, line_name := ''freight'', product_id := None,
                            quantity := 1, price_unit := 50 \<rparr>"

text \<open>The scenario of the specification: a customer invoice of A to the partner of
  B, one line of two P at 100, totals 200 and 200.\<close>

definition invoice_S :: move where
  "invoice_S = \<lparr> name = ''INV/001'', ref = [], move_type = ''out_invoice'', company_id = 1,
                 partner_id = Some 20, commercial_partner_id = Some 20, state = Draft,
                 auto_generated = False, auto_invoice_id = None,
                 amount_untaxed = 200, amount_total = 200, currency_id = 1,
                 invoice_origin = [], invoice_date = Some 20240101, narration = ''thanks'',
                 journal_id = Some 1, partner_shipping_id = None,
                 invoice_line_ids = [line_P], message_ids = [] \<rparr>"

text \<open>A second invoice of A to B, with a line that has no product.\<close>

definition invoice_T :: move where
  "invoice_T = invoice_S\<lparr> name := ''INV/002'', amount_untaxed := 250, amount_total := 250,
                          invoice_line_ids := [line_P, line_no_product] \<rparr>"

text \<open>An invoice of A to the partner of C.\<close>

definition invoice_U :: move where
  "invoice_U = invoice_S\<lparr> name := ''INV/003'', partner_id := Some 30,
                          commercial_partner_id := Some 30 \<rparr>"

definition table :: "(nat \<times> move) list \<Rightarrow> nat \<Rightarrow> move option" where
  "table rs = map_of rs"

definition db_S :: db where
  "db_S = \<lparr> moves = table [(1, invoice_S)], next_id = 2, next_line_id = 3, events = [] \<rparr>"

definition db_TS :: db where
  "db_TS = \<lparr> moves = table [(1, invoice_T), (2, invoice_S)], next_id = 3, next_line_id = 3,
             events = [] \<rparr>"

definition db_U :: db where
  "db_U = \<lparr> moves = table [(1, invoice_U)], next_id = 2, next_line_id = 3, events = [] \<rparr>"

text \<open>The mirror of \<open>invoice_S\<close> in B, posted, beside its posted source.\<close>

definition mirror_M :: move where
  "mirror_M = \<lparr> name = ''BILL/001'', ref = ''INV/001'', move_type = ''in_invoice'',
                company_id = 2, partner_id = Some 10, commercial_partner_id = Some 10,
                state = Posted, auto_generated = True, auto_invoice_id = Some 1,
                amount_untaxed = 200, amount_total = 200, currency_id = 1,
                invoice_origin = ''A - Invoice: INV/001'', invoice_date = Some 20240101,
                narration = ''thanks'', journal_id = Some 2, partner_shipping_id = None,
                invoice_line_ids = [line_P\<lparr> line_id := 3, auto_invoice_line_id := Some 1 \<rparr>],
                message_ids = [] \<rparr>"

definition db_SM :: db where
  "db_SM = \<lparr> moves = table [(1, invoice_S\<lparr> state := Posted \<rparr>), (2, mirror_M)],
             next_id = 3, next_line_id = 4, events = [] \<rparr>"

text \<open>The source with two draft mirrors in B, as two posts racing each other leave
  them.\<close>

definition db_SMM :: db where
  "db_SMM = \<lparr> moves = table [(1, invoice_S\<lparr> state := Posted \<rparr>),
                             (2, mirror_M\<lparr> state := Draft \<rparr>),
                             (3, mirror_M\<lparr> state := Draft, name := ''BILL/002'' \<rparr>)],
              next_id = 4, next_line_id = 5, events = [] \<rparr>"

text \<open>A source of 100.40 in currency 1 and its draft mirror of 100.00, as a build
  whose totals did not match leaves them.\<close>

definition db_cur :: db where
  "db_cur = \<lparr> moves = table [(1, invoice_S\<lparr> state := Posted, amount_untaxed := 502 / 5,
                                             amount_total := 502 / 5 \<rparr>),
                             (2, mirror_M\<lparr> state := Draft, amount_untaxed := 100,
                                            amount_total := 100 \<rparr>)],
              next_id = 3, next_line_id = 4, events = [] \<rparr>"

text \<open>The posted source with one draft mirror in B.\<close>

definition db_SD :: db where
  "db_SD = \<lparr> moves = table [(1, invoice_S\<lparr> state := Posted \<rparr>),
                            (2, mirror_M\<lparr> state := Draft \<rparr>)],
             next_id = 3, next_line_id = 4, events = [] \<rparr>"

text \<open>The posted source with one cancelled mirror in B.\<close>

definition db_SC :: db where
  "db_SC = \<lparr> moves = table [(1, invoice_S\<lparr> state := Posted \<rparr>),
                            (2, mirror_M\<lparr> state := Cancel \<rparr>)],
             next_id = 3, next_line_id = 4, events = [] \<rparr>"

text \<open>The source back in draft while its mirror in B is posted.\<close>

definition db_DM :: db where
  "db_DM = \<lparr> moves = table [(1, invoice_S), (2, mirror_M)],
             next_id = 3, next_line_id = 4, events = [] \<rparr>"

section \<open>The type mapping\<close>

lemma MAP_INVOICE_TYPE_dom:
  "(MAP_INVOICE_TYPE t \<noteq> None) = (t \<in> set supported_types)"
  by (simp add: MAP_INVOICE_TYPE_def supported_types_def)

lemma MAP_INVOICE_TYPE_cases:
  "MAP_INVOICE_TYPE t = Some u \<Longrightarrow>
     (t = ''out_invoice'' \<and> u = ''in_invoice'') \<or> (t = ''in_invoice'' \<and> u = ''out_invoice'') \<or>
     (t = ''out_refund'' \<and> u = ''in_refund'') \<or> (t = ''in_refund'' \<and> u = ''out_refund'')"
  by (simp add: MAP_INVOICE_TYPE_def split: if_splits)

lemma MAP_INVOICE_TYPE_back:
  "MAP_INVOICE_TYPE t = Some u \<Longrightarrow> MAP_INVOICE_TYPE u = Some t"
  by (drule MAP_INVOICE_TYPE_cases) (auto simp: MAP_INVOICE_TYPE_def)

text \<open>
  Claim C4. The destination type of a customer invoice is a vendor invoice and that of
  a vendor invoice a customer invoice; the destination type of a customer refund is a
  vendor refund and that of a vendor refund a customer refund; no other move type has
  a destination type. So the mapping is defined on the four supported types and on no
  other, it sends two different supported types to two different types, and applying
  it twice to a supported type gives that type back: an involution of the four types,
  which swaps invoice with invoice and refund with refund.
\<close>

theorem destination_invoice_type_involution:
  "get_destination_invoice_type m =
     (if move_type m = ''out_invoice'' then Some ''in_invoice''
      else if move_type m = ''in_invoice'' then Some ''out_invoice''
      else if move_type m = ''out_refund'' then Some ''in_refund''
      else if move_type m = ''in_refund'' then Some ''out_refund''
      else None)
   \<and> ((get_destination_invoice_type m \<noteq> None) = (move_type m \<in> set supported_types))
   \<and> (move_type m \<in> set supported_types \<longrightarrow>
      (\<exists>u. get_destination_invoice_type m = Some u \<and> u \<in> set supported_types \<and>
           u \<noteq> move_type m \<and>
           get_destination_invoice_type (m\<lparr>move_type := u\<rparr>) = Some (move_type m)))
   \<and> (move_type m \<in> set supported_types \<and>
        get_destination_invoice_type m = get_destination_invoice_type m' \<longrightarrow>
        move_type m' = move_type m)"
proof (intro conjI impI)
  show "get_destination_invoice_type m =
     (if move_type m = ''out_invoice'' then Some ''in_invoice''
      else if move_type m = ''in_invoice'' then Some ''out_invoice''
      else if move_type m = ''out_refund'' then Some ''in_refund''
      else if move_type m = ''in_refund'' then Some ''out_refund''
      else None)"
    by (simp add: get_destination_invoice_type_def MAP_INVOICE_TYPE_def)
next
  show "(get_destination_invoice_type m \<noteq> None) = (move_type m \<in> set supported_types)"
    using MAP_INVOICE_TYPE_dom [of "move_type m"]
    by (simp add: get_destination_invoice_type_def)
next
  assume "move_type m \<in> set supported_types"
  then obtain u where u: "MAP_INVOICE_TYPE (move_type m) = Some u"
    using MAP_INVOICE_TYPE_dom [of "move_type m"] by auto
  from MAP_INVOICE_TYPE_back [OF u] have inv: "MAP_INVOICE_TYPE u = Some (move_type m)" .
  then have "u \<in> set supported_types"
    using MAP_INVOICE_TYPE_dom [of u] by simp
  moreover from MAP_INVOICE_TYPE_cases [OF u] have "u \<noteq> move_type m" by auto
  ultimately
  show "\<exists>u. get_destination_invoice_type m = Some u \<and> u \<in> set supported_types \<and>
           u \<noteq> move_type m \<and>
           get_destination_invoice_type (m\<lparr>move_type := u\<rparr>) = Some (move_type m)"
    using u inv by (simp add: get_destination_invoice_type_def)
next
  assume a: "move_type m \<in> set supported_types \<and>
        get_destination_invoice_type m = get_destination_invoice_type m'"
  then obtain u where u: "MAP_INVOICE_TYPE (move_type m) = Some u"
    using MAP_INVOICE_TYPE_dom [of "move_type m"] by auto
  with a have u': "MAP_INVOICE_TYPE (move_type m') = Some u"
    by (simp add: get_destination_invoice_type_def)
  from MAP_INVOICE_TYPE_back [OF u] MAP_INVOICE_TYPE_back [OF u']
  show "move_type m' = move_type m" by simp
qed

theorem destination_invoice_type_involution_witness:
  "move_type invoice_S \<in> set supported_types \<and>
   get_destination_invoice_type invoice_S = Some ''in_invoice'' \<and>
   get_destination_invoice_type (invoice_S\<lparr>move_type := ''in_invoice''\<rparr>) = Some ''out_invoice'' \<and>
   move_type (invoice_S\<lparr>move_type := ''out_refund''\<rparr>) \<in> set supported_types \<and>
   get_destination_invoice_type (invoice_S\<lparr>move_type := ''out_refund''\<rparr>) = Some ''in_refund'' \<and>
   get_destination_invoice_type (invoice_S\<lparr>move_type := ''in_refund''\<rparr>) = Some ''out_refund'' \<and>
   get_destination_invoice_type (invoice_S\<lparr>move_type := ''entry''\<rparr>) = None"
proof -
  have t: "move_type invoice_S = ''out_invoice''" by (simp add: invoice_S_def)
  have c1: "move_type invoice_S \<in> set supported_types"
    by (simp add: t supported_types_def)
  have c2: "get_destination_invoice_type invoice_S = Some ''in_invoice''"
    using conjunct1 [OF destination_invoice_type_involution [of invoice_S]] by (simp add: t)
  have c3: "get_destination_invoice_type (invoice_S\<lparr>move_type := ''in_invoice''\<rparr>) =
              Some ''out_invoice''"
    using conjunct1 [OF conjunct2 [OF conjunct2
            [OF destination_invoice_type_involution [of invoice_S]]]] c1 c2
    by (simp add: t)
  have c4: "move_type (invoice_S\<lparr>move_type := ''out_refund''\<rparr>) \<in> set supported_types"
    by (simp add: supported_types_def)
  have c5: "get_destination_invoice_type (invoice_S\<lparr>move_type := ''out_refund''\<rparr>) =
              Some ''in_refund''"
    using conjunct1 [OF destination_invoice_type_involution
                          [of "invoice_S\<lparr>move_type := ''out_refund''\<rparr>"]]
    by simp
  have c6: "get_destination_invoice_type (invoice_S\<lparr>move_type := ''in_refund''\<rparr>) =
              Some ''out_refund''"
    using conjunct1 [OF conjunct2 [OF conjunct2
            [OF destination_invoice_type_involution
                  [of "invoice_S\<lparr>move_type := ''out_refund''\<rparr>"]]]] c4 c5
    by simp
  have c7: "get_destination_invoice_type (invoice_S\<lparr>move_type := ''entry''\<rparr>) = None"
    using conjunct1 [OF destination_invoice_type_involution
                          [of "invoice_S\<lparr>move_type := ''entry''\<rparr>"]]
    by simp
  from c1 c2 c3 c4 c5 c6 c7 show ?thesis by (intro conjI)
qed

section \<open>Basic facts about results, rows and searches\<close>

text \<open>The equations of the two recursive methods are unfolded by hand.\<close>

declare action_post.simps [simp del]
declare button_cancel.simps [simp del]

lemma bind_Inr: "f d = (Inr v, d') \<Longrightarrow> bind f g d = g v d'"
  by (simp add: bind_def)

lemma bind_Inl: "f d = (Inl e, d') \<Longrightarrow> bind f g d = (Inl e, d')"
  by (simp add: bind_def)

lemma bind_eq_Inr:
  "(bind f g d = (Inr w, d'')) = (\<exists>v d'. f d = (Inr v, d') \<and> g v d' = (Inr w, d''))"
  by (auto simp: bind_def split: prod.splits sum.splits)

lemma bind_eq_Inl:
  "(bind f g d = (Inl e, d'')) =
     (f d = (Inl e, d'') \<or> (\<exists>v d'. f d = (Inr v, d') \<and> g v d' = (Inl e, d'')))"
  by (auto simp: bind_def split: prod.splits sum.splits)

lemma browse_lt: "browse d i = Some m \<Longrightarrow> i < next_id d"
  by (simp add: browse_def split: if_splits)

lemma browse_record_event [simp]: "browse (record_event op i d) j = browse d j"
  by (simp add: browse_def record_event_def)

lemma browse_put:
  "browse (put i m d) j = (if j = i then (if i < next_id d then Some m else None) else browse d j)"
  by (simp add: browse_def put_def)

lemma next_id_put [simp]: "next_id (put i m d) = next_id d"
  by (simp add: put_def)

lemma next_id_record_event [simp]: "next_id (record_event op i d) = next_id d"
  by (simp add: record_event_def)

lemma events_put [simp]: "events (put i m d) = events d"
  by (simp add: put_def)

lemma events_record_event [simp]: "events (record_event op i d) = events d @ [Event op i]"
  by (simp add: record_event_def)

lemma rows_ids: "map fst (rows d) = filter (\<lambda>i. browse d i \<noteq> None) [0..<next_id d]"
  by (auto simp: rows_def List.map_filter_def intro!: map_idI)

lemma distinct_rows: "distinct (map fst (rows d))"
  by (simp add: rows_ids)

lemma rows_iff: "((i, m) \<in> set (rows d)) = (browse d i = Some m)"
proof
  assume "(i, m) \<in> set (rows d)"
  then show "browse d i = Some m"
    by (auto simp: rows_def List.map_filter_def)
next
  assume b: "browse d i = Some m"
  then have "i \<in> set [0..<next_id d]" by (auto dest: browse_lt)
  with b show "(i, m) \<in> set (rows d)"
    by (force simp: rows_def List.map_filter_def image_iff)
qed

lemma search_iff: "((i, m) \<in> set (search P d)) = (browse d i = Some m \<and> P m)"
  by (auto simp: search_def rows_iff)

lemma distinct_search: "distinct (map fst (search P d))"
  unfolding search_def by (rule distinct_map_filter [OF distinct_rows])

section \<open>Reset to draft\<close>

lemma for_each_check_no_posted_mirror:
  assumes "i \<in> set ids"
    and "search (\<lambda>m. auto_invoice_id m = Some i \<and> state m = Posted) d \<noteq> []"
  shows "\<exists>j\<in>set ids. \<exists>r rs.
           search (\<lambda>m. auto_invoice_id m = Some j \<and> state m = Posted) d = r # rs \<and>
           for_each (check_no_posted_mirror E) ids d =
             (Inl (PostedInterCompanyInvoice (name (snd r)) (partner_name_of E (snd r))), d)"
  using assms
proof (induction ids)
  case Nil
  then show ?case by simp
next
  case (Cons k ks)
  show ?case
  proof (cases "search (\<lambda>m. auto_invoice_id m = Some k \<and> state m = Posted) d")
    case Nil
    with Cons.prems have "i \<in> set ks" by auto
    from Cons.IH [OF this Cons.prems(2)] obtain j r rs where j: "j \<in> set ks"
      and s: "search (\<lambda>m. auto_invoice_id m = Some j \<and> state m = Posted) d = r # rs"
      and f: "for_each (check_no_posted_mirror E) ks d =
             (Inl (PostedInterCompanyInvoice (name (snd r)) (partner_name_of E (snd r))), d)"
      by blast
    from Nil f have "for_each (check_no_posted_mirror E) (k # ks) d =
             (Inl (PostedInterCompanyInvoice (name (snd r)) (partner_name_of E (snd r))), d)"
      by (simp add: check_no_posted_mirror_def ok_def)
    with j s show ?thesis by (intro bexI [of _ j] exI [of _ r] exI [of _ rs]) simp_all
  next
    case (Cons r rs)
    then have "for_each (check_no_posted_mirror E) (k # ks) d =
             (Inl (PostedInterCompanyInvoice (name (snd r)) (partner_name_of E (snd r))), d)"
      by (simp add: check_no_posted_mirror_def raise_def)
    with Cons show ?thesis by (intro bexI [of _ k] exI [of _ r] exI [of _ rs]) simp_all
  qed
qed

text \<open>
  Claim C9. When reset-to-draft is attempted on a recordset and some document of it is
  referenced by a posted mirror, the call raises the error that carries the name and
  the partner of a posted mirror of a document of the recordset (the first one found
  for the first document that has one; for a single document, its own first posted
  mirror), and the database is left as it was: no document is reset.
\<close>

theorem button_draft_rejected_by_posted_mirror:
  assumes "i \<in> set ids"
    and "search (\<lambda>m. auto_invoice_id m = Some i \<and> state m = Posted) d \<noteq> []"
  shows "\<exists>j\<in>set ids. \<exists>r rs.
           search (\<lambda>m. auto_invoice_id m = Some j \<and> state m = Posted) d = r # rs \<and>
           button_draft E ctx ids d =
             (Inl (PostedInterCompanyInvoice (name (snd r)) (partner_name_of E (snd r))), d)"
proof -
  from for_each_check_no_posted_mirror [OF assms, of E] obtain j r rs where j: "j \<in> set ids"
    and s: "search (\<lambda>m. auto_invoice_id m = Some j \<and> state m = Posted) d = r # rs"
    and f: "for_each (check_no_posted_mirror E) ids d =
             (Inl (PostedInterCompanyInvoice (name (snd r)) (partner_name_of E (snd r))), d)"
    by blast
  from f have "button_draft E ctx ids d =
             (Inl (PostedInterCompanyInvoice (name (snd r)) (partner_name_of E (snd r))), d)"
    by (simp add: button_draft_def bind_Inl)
  with j s show ?thesis by (intro bexI [of _ j] exI [of _ r] exI [of _ rs]) simp_all
qed


lemma rows_db_SM: "rows db_SM = [(1, invoice_S\<lparr> state := Posted \<rparr>), (2, mirror_M)]"
  by (simp add: rows_def List.map_filter_def browse_def db_SM_def table_def upt_rec)

theorem button_draft_rejected_by_posted_mirror_witness:
  "(1::nat) \<in> set [1] \<and>
   search (\<lambda>m. auto_invoice_id m = Some 1 \<and> state m = Posted) db_SM = [(2, mirror_M)] \<and>
   button_draft E0 user_context [1] db_SM =
     (Inl (PostedInterCompanyInvoice ''BILL/001'' ''A''), db_SM)"
proof -
  have s: "search (\<lambda>m. auto_invoice_id m = Some 1 \<and> state m = Posted) db_SM = [(2, mirror_M)]"
    by (simp add: search_def rows_db_SM invoice_S_def mirror_M_def)
  have n: "name mirror_M = ''BILL/001''" "partner_name_of E0 mirror_M = ''A''"
    by (simp_all add: mirror_M_def partner_name_of_def E0_def)
  from button_draft_rejected_by_posted_mirror [of 1 "[1]" db_SM E0 user_context] s n
  show ?thesis by simp
qed

section \<open>Stale-mirror reclamation\<close>

lemma for_each_check_line_product:
  "\<exists>r. for_each (check_line_product E c) ls d = (r, d)"
  by (induction ls) (auto simp: check_line_product_def ok_def raise_def split: option.splits)

lemma check_intercompany_product_pure:
  "\<exists>r. check_intercompany_product E src c d = (r, d)"
  using for_each_check_line_product [of E c "invoice_line_ids src" d]
  by (simp add: check_intercompany_product_def ok_def)

lemma check_intercompany_product_snd [simp]:
  "snd (check_intercompany_product E src c d) = d"
  using check_intercompany_product_pure [of E src c d] by auto

lemma host_unlink_error:
  "fst (host_unlink E ctx i d) \<noteq> Inl (ExpectedSingleton ids)"
  by (simp add: host_unlink_def ok_def raise_def split: option.splits)

lemma reclaim_at_most_one:
  assumes "length (existing_mirrors sid c d) \<le> 1"
  shows "fst (reclaim_stale_mirror E ctx sid c d) \<noteq> Inl (ExpectedSingleton ids)"
proof (cases "existing_mirrors sid c d")
  case Nil
  then show ?thesis by (simp add: reclaim_stale_mirror_def ok_def)
next
  case (Cons r rs)
  with assms have rs: "rs = []" by simp
  show ?thesis
  proof (cases "state (snd r) = Draft \<or> state (snd r) = Cancel")
    case True
    obtain x d' where u: "host_unlink E (ctx\<lparr>force_delete := True\<rparr>) (fst r) d = (x, d')"
      by (cases "host_unlink E (ctx\<lparr>force_delete := True\<rparr>) (fst r) d")
    with host_unlink_error [of E "ctx\<lparr>force_delete := True\<rparr>" "fst r" d ids]
    have "x \<noteq> Inl (ExpectedSingleton ids)" by simp
    with u True Cons rs show ?thesis
      by (cases x) (auto simp: reclaim_stale_mirror_def bind_def ok_def)
  next
    case False
    with Cons rs show ?thesis by (auto simp: reclaim_stale_mirror_def ok_def)
  qed
qed

lemma reclaim_several:
  assumes "2 \<le> length (existing_mirrors sid c d)"
  shows "reclaim_stale_mirror E ctx sid c d =
           (Inl (ExpectedSingleton (map fst (existing_mirrors sid c d))), d)"
proof -
  from assms obtain r r' rs where "existing_mirrors sid c d = r # r' # rs"
    by (cases "existing_mirrors sid c d"; cases "tl (existing_mirrors sid c d)") auto
  then show ?thesis by (simp add: reclaim_stale_mirror_def raise_def)
qed

lemma builder_several:
  assumes "2 \<le> length (existing_mirrors sid c d)"
  shows "inter_company_create_invoice_body post E ctx sid c d =
           (case browse d sid of
              None \<Rightarrow> (Inl (MissingError sid), d)
            | Some src \<Rightarrow>
                (case fst (check_intercompany_product E src c d) of
                   Inl e \<Rightarrow> (Inl e, d)
                 | Inr _ \<Rightarrow> (Inl (ExpectedSingleton (map fst (existing_mirrors sid c d))), d)))"
proof (cases "browse d sid")
  case None
  then show ?thesis
    by (simp add: inter_company_create_invoice_body_def Let_def read_def raise_def bind_def)
next
  case (Some src)
  obtain x where x: "check_intercompany_product E src c d = (x, d)"
    using check_intercompany_product_pure by blast
  show ?thesis
  proof (cases x)
    case (Inl e)
    with Some x show ?thesis
      by (simp add: inter_company_create_invoice_body_def Let_def read_def ok_def bind_def)
  next
    case (Inr u)
    with Some x reclaim_several [OF assms] show ?thesis
      by (simp add: inter_company_create_invoice_body_def Let_def read_def ok_def bind_def)
  qed
qed

text \<open>
  Claim C10. The reclamation step searches all the mirrors of the source in the
  destination company, without a limit, and reads the state of what it found. With
  at most one such mirror the step never raises the singleton error. With two or
  more, the step raises it and leaves the database as it was; the builder then ends
  in an error with the database untouched (nothing deleted, nothing created), and
  that error is the singleton error whenever the source exists and the product check
  before the step has passed.
\<close>

theorem reclaim_expects_at_most_one_mirror:
  "(length (existing_mirrors sid c d) \<le> 1 \<longrightarrow>
      (\<forall>ids. fst (reclaim_stale_mirror E ctx sid c d) \<noteq> Inl (ExpectedSingleton ids)))
   \<and> (2 \<le> length (existing_mirrors sid c d) \<longrightarrow>
        reclaim_stale_mirror E ctx sid c d =
          (Inl (ExpectedSingleton (map fst (existing_mirrors sid c d))), d)
        \<and> (\<exists>e. inter_company_create_invoice n E ctx sid c d = (Inl e, d))
        \<and> (\<forall>src. browse d sid = Some src \<and>
                   fst (check_intercompany_product E src c d) = Inr () \<longrightarrow>
               inter_company_create_invoice n E ctx sid c d =
                 (Inl (ExpectedSingleton (map fst (existing_mirrors sid c d))), d)))"
proof (intro conjI impI allI)
  fix ids assume "length (existing_mirrors sid c d) \<le> 1"
  then show "fst (reclaim_stale_mirror E ctx sid c d) \<noteq> Inl (ExpectedSingleton ids)"
    by (rule reclaim_at_most_one)
next
  assume "2 \<le> length (existing_mirrors sid c d)"
  then show "reclaim_stale_mirror E ctx sid c d =
          (Inl (ExpectedSingleton (map fst (existing_mirrors sid c d))), d)"
    by (rule reclaim_several)
next
  assume "2 \<le> length (existing_mirrors sid c d)"
  from builder_several [OF this, of "action_post n" E ctx]
  show "\<exists>e. inter_company_create_invoice n E ctx sid c d = (Inl e, d)"
    by (auto simp: inter_company_create_invoice_def split: option.splits sum.splits)
next
  fix src
  assume "2 \<le> length (existing_mirrors sid c d)"
    and "browse d sid = Some src \<and> fst (check_intercompany_product E src c d) = Inr ()"
  with builder_several [of sid c d "action_post n" E ctx]
  show "inter_company_create_invoice n E ctx sid c d =
                 (Inl (ExpectedSingleton (map fst (existing_mirrors sid c d))), d)"
    by (simp add: inter_company_create_invoice_def)
qed

lemma rows_db_SMM:
  "rows db_SMM = [(1, invoice_S\<lparr> state := Posted \<rparr>), (2, mirror_M\<lparr> state := Draft \<rparr>),
                  (3, mirror_M\<lparr> state := Draft, name := ''BILL/002'' \<rparr>)]"
  by (simp add: rows_def List.map_filter_def browse_def db_SMM_def table_def upt_rec)

theorem reclaim_expects_at_most_one_mirror_witness:
  "length (existing_mirrors 1 company_B db_SM) \<le> 1 \<and>
   fst (reclaim_stale_mirror E0 user_context 1 company_B db_SM) \<noteq> Inl (ExpectedSingleton [2]) \<and>
   2 \<le> length (existing_mirrors 1 company_B db_SMM) \<and>
   browse db_SMM 1 = Some (invoice_S\<lparr> state := Posted \<rparr>) \<and>
   fst (check_intercompany_product E0 (invoice_S\<lparr> state := Posted \<rparr>) company_B db_SMM) = Inr () \<and>
   inter_company_create_invoice 2 E0 user_context 1 company_B db_SMM =
     (Inl (ExpectedSingleton [2, 3]), db_SMM)"
proof -
  have one: "existing_mirrors 1 company_B db_SM = [(2, mirror_M)]"
    by (simp add: existing_mirrors_def search_def rows_db_SM invoice_S_def mirror_M_def company_B_def)
  have two: "existing_mirrors 1 company_B db_SMM =
               [(2, mirror_M\<lparr> state := Draft \<rparr>), (3, mirror_M\<lparr> state := Draft, name := ''BILL/002'' \<rparr>)]"
    by (simp add: existing_mirrors_def search_def rows_db_SMM invoice_S_def mirror_M_def company_B_def)
  have src: "browse db_SMM 1 = Some (invoice_S\<lparr> state := Posted \<rparr>)"
    by (simp add: browse_def db_SMM_def table_def)
  have chk: "fst (check_intercompany_product E0 (invoice_S\<lparr> state := Posted \<rparr>) company_B db_SMM) = Inr ()"
    by (simp add: check_intercompany_product_def check_line_product_def company_B_def invoice_S_def
        line_P_def E0_def ok_def)
  from reclaim_expects_at_most_one_mirror [of 1 company_B db_SM E0 user_context 2] one
  have a: "fst (reclaim_stale_mirror E0 user_context 1 company_B db_SM) \<noteq> Inl (ExpectedSingleton [2])"
    by simp
  from reclaim_expects_at_most_one_mirror [of 1 company_B db_SMM E0 user_context 2] two src chk
  have b: "inter_company_create_invoice 2 E0 user_context 1 company_B db_SMM =
     (Inl (ExpectedSingleton [2, 3]), db_SMM)"
    by simp
  from one two src chk a b show ?thesis by simp
qed

section \<open>The phases of the builder\<close>

lemma browse_delete_row:
  "browse (delete_row j d) k = (if k = j then None else map_option (clear_reference j) (browse d k))"
  by (simp add: browse_def delete_row_def)

lemma next_id_delete_row [simp]: "next_id (delete_row j d) = next_id d"
  by (simp add: delete_row_def)

lemma events_delete_row [simp]: "events (delete_row j d) = events d"
  by (simp add: delete_row_def)

lemma browse_insert_row:
  "browse (insert_row m d) k = (if k = next_id d then Some m else browse d k)"
  by (auto simp: browse_def insert_row_def put_def)

lemma next_id_insert_row [simp]: "next_id (insert_row m d) = Suc (next_id d)"
  by (simp add: insert_row_def)

lemma events_insert_row [simp]: "events (insert_row m d) = events d"
  by (simp add: insert_row_def)

lemma existing_mirrors_iff:
  "((i, m) \<in> set (existing_mirrors sid c d)) =
     (browse d i = Some m \<and> auto_invoice_id m = Some sid \<and> company_id m = company_ident c)"
  by (simp add: existing_mirrors_def search_iff)

lemma reclaim_result:
  "reclaim_stale_mirror E ctx sid c d =
     (case existing_mirrors sid c d of
        [] \<Rightarrow> (Inr None, d)
      | [r] \<Rightarrow>
          if state (snd r) = Draft \<or> state (snd r) = Cancel
          then (Inr (Some (name (snd r))), record_event OpUnlink (fst r) (delete_row (fst r) d))
          else (Inr None, d)
      | r # r' # rs \<Rightarrow> (Inl (ExpectedSingleton (map fst (existing_mirrors sid c d))), d))"
proof (cases "existing_mirrors sid c d")
  case Nil
  then show ?thesis by (simp add: reclaim_stale_mirror_def ok_def)
next
  case (Cons r rs)
  show ?thesis
  proof (cases rs)
    case Nil
    with Cons have "(fst r, snd r) \<in> set (existing_mirrors sid c d)" by simp
    then have "browse d (fst r) = Some (snd r)"
      using existing_mirrors_iff [of "fst r" "snd r" sid c d] by simp
    with Cons Nil show ?thesis
      by (simp add: reclaim_stale_mirror_def ok_def host_unlink_def bind_def)
  next
    case (Cons r' rs')
    with \<open>existing_mirrors sid c d = r # rs\<close> show ?thesis
      by (simp add: reclaim_stale_mirror_def raise_def)
  qed
qed

lemma create_invoice_header_result:
  "create_invoice_header E sid c fn d =
     (case browse d sid of
        None \<Rightarrow> (Inl (MissingError sid), d)
      | Some src \<Rightarrow>
          (case prepare_invoice_data E sid src c of
             Inl e \<Rightarrow> (Inl e, d)
           | Inr vals \<Rightarrow>
               if host_allows E OpCreate ((with_forced_number fn vals)\<lparr>state := Draft\<rparr>)
               then (Inr (next_id d),
                     record_event OpCreate (next_id d)
                       (insert_row ((with_forced_number fn vals)\<lparr>state := Draft\<rparr>) d))
               else (Inl (HostError OpCreate (next_id d)), d)))"
  by (simp add: create_invoice_header_def read_def bind_def ok_def raise_def lift_def
      host_create_def Let_def split: option.splits sum.splits)

lemma prepare_invoice_data_clear_reference [simp]:
  "prepare_invoice_data E sid (clear_reference j src) c = prepare_invoice_data E sid src c"
  by (simp add: prepare_invoice_data_def clear_reference_def get_destination_invoice_type_def
      get_destination_journal_type_def Let_def split: option.splits)

lemma prepare_invoice_data_fields:
  assumes "prepare_invoice_data E sid src c = Inr vals"
  shows "auto_generated vals" "auto_invoice_id vals = Some sid" "company_id vals = company_ident c"
    "state vals = Draft" "invoice_line_ids vals = []" "message_ids vals = []"
    "name vals = form_default_name E"
  using assms
  by (auto simp: prepare_invoice_data_def Let_def find_Some_iff split: option.splits)

lemma with_forced_number_fields [simp]:
  "auto_generated (with_forced_number fn v) = auto_generated v"
  "auto_invoice_id (with_forced_number fn v) = auto_invoice_id v"
  "company_id (with_forced_number fn v) = company_id v"
  "state (with_forced_number fn v) = state v"
  "invoice_line_ids (with_forced_number fn v) = invoice_line_ids v"
  "message_ids (with_forced_number fn v) = message_ids v"
  "amount_total (with_forced_number fn v) = amount_total v"
  by (simp_all add: with_forced_number_def split: option.splits)

lemma prepare_lines_stops:
  "find (\<lambda>l. display_type l = [] \<and> product_id l = None) ls = Some l0 \<Longrightarrow>
   prepare_lines E i c (filter (\<lambda>x. display_type x = []) ls) = Inl (LineWithoutProduct (line_name l0))"
  by (induction ls) (auto split: if_splits)

lemma prepare_lines_all:
  "find (\<lambda>l. display_type l = [] \<and> product_id l = None) ls = None \<Longrightarrow>
   prepare_lines E i c (filter (\<lambda>x. display_type x = []) ls) =
     Inr (map (\<lambda>l. prepare_account_move_line E l i c) (filter (\<lambda>x. display_type x = []) ls))"
  by (induction ls) (auto split: if_splits)

lemma create_invoice_lines_stops:
  assumes "browse d sid = Some src" and "first_line_without_product src = Some l0"
  shows "create_invoice_lines E sid i c d = (Inl (LineWithoutProduct (line_name l0)), d)"
  using assms prepare_lines_stops [of "invoice_line_ids src" l0 E i c]
  by (simp add: create_invoice_lines_def first_line_without_product_def read_def bind_def
      ok_def lift_def)

lemma first_line_without_product_clear_reference [simp]:
  "first_line_without_product (clear_reference j src) = first_line_without_product src"
  by (simp add: first_line_without_product_def clear_reference_def)

section \<open>The line completeness guard\<close>

lemma invoice_line_ids_clear_reference [simp]:
  "invoice_line_ids (clear_reference j m) = invoice_line_ids m"
  by (simp add: clear_reference_def)

text \<open>What the reclamation leaves: the database as it was, or with one row deleted.\<close>

lemma reclaim_shape:
  assumes "reclaim_stale_mirror E ctx sid c d = (r, d1)"
  shows "d1 = d \<or> (\<exists>j. j \<noteq> next_id d \<and> d1 = record_event OpUnlink j (delete_row j d))"
proof (cases "existing_mirrors sid c d")
  case Nil
  with assms show ?thesis by (simp add: reclaim_result)
next
  case (Cons x xs)
  show ?thesis
  proof (cases xs)
    case Nil
    from Cons have "(fst x, snd x) \<in> set (existing_mirrors sid c d)" by simp
    then have "browse d (fst x) = Some (snd x)"
      using existing_mirrors_iff [of "fst x" "snd x" sid c d] by simp
    then have "fst x \<noteq> next_id d" by (auto dest: browse_lt)
    with assms Cons Nil show ?thesis
      by (auto simp: reclaim_result split: if_splits)
  next
    case (Cons y ys)
    with assms \<open>existing_mirrors sid c d = x # xs\<close> show ?thesis
      by (simp add: reclaim_result)
  qed
qed

text \<open>What the header step leaves: the database as it was and an error, or one new
  row without lines.\<close>

lemma create_invoice_header_shape:
  assumes "create_invoice_header E sid c fn d1 = (h, d2)"
  shows "(\<exists>e. h = Inl e \<and> d2 = d1) \<or>
         (\<exists>m. h = Inr (next_id d1) \<and> invoice_line_ids m = [] \<and>
              d2 = record_event OpCreate (next_id d1) (insert_row m d1))"
proof (cases "browse d1 sid")
  case None
  with assms show ?thesis by (auto simp: create_invoice_header_result)
next
  case (Some s)
  show ?thesis
  proof (cases "prepare_invoice_data E sid s c")
    case (Inl e)
    with Some assms show ?thesis by (auto simp: create_invoice_header_result)
  next
    case (Inr vals)
    let ?m = "(with_forced_number fn vals)\<lparr>state := Draft\<rparr>"
    from prepare_invoice_data_fields(5) [OF Inr]
    have m: "invoice_line_ids ?m = []" by simp
    show ?thesis
    proof (cases "host_allows E OpCreate ?m")
      case True
      with Some Inr assms have "h = Inr (next_id d1)"
        and "d2 = record_event OpCreate (next_id d1) (insert_row ?m d1)"
        by (simp_all add: create_invoice_header_result)
      with m show ?thesis by blast
    next
      case False
      with Some Inr assms show ?thesis by (auto simp: create_invoice_header_result)
    qed
  qed
qed

lemma create_invoice_lines_stops_or_missing:
  assumes "browse d2 sid = None \<or> (\<exists>s. browse d2 sid = Some s \<and> first_line_without_product s = Some l0)"
  shows "\<exists>e. create_invoice_lines E sid i c d2 = (Inl e, d2)"
  using assms
proof
  assume "browse d2 sid = None"
  then show ?thesis by (simp add: create_invoice_lines_def read_def bind_def raise_def)
next
  assume "\<exists>s. browse d2 sid = Some s \<and> first_line_without_product s = Some l0"
  then show ?thesis using create_invoice_lines_stops by blast
qed

lemma lines_as_before_iff:
  "lines_as_before d d' =
     ((\<exists>evs. events d' = events d @ evs \<and> (\<forall>i. Event OpCreateLine i \<notin> set evs)) \<and>
      (\<forall>k m'. browse d' k = Some m' \<longrightarrow>
          invoice_line_ids m' = [] \<or>
          (\<exists>m. browse d k = Some m \<and> invoice_line_ids m' = invoice_line_ids m)))"
proof -
  have ev: "(take (length (events d)) (events d') = events d \<and>
             filter is_line_creation (drop (length (events d)) (events d')) = []) =
            (\<exists>evs. events d' = events d @ evs \<and> (\<forall>i. Event OpCreateLine i \<notin> set evs))"
  proof
    assume a: "take (length (events d)) (events d') = events d \<and>
             filter is_line_creation (drop (length (events d)) (events d')) = []"
    then have "events d' = events d @ drop (length (events d)) (events d')"
      by (metis append_take_drop_id)
    moreover from a have "\<forall>i. Event OpCreateLine i \<notin> set (drop (length (events d)) (events d'))"
      by (auto simp: filter_empty_conv is_line_creation_def)
    ultimately show "\<exists>evs. events d' = events d @ evs \<and> (\<forall>i. Event OpCreateLine i \<notin> set evs)"
      by blast
  next
    assume "\<exists>evs. events d' = events d @ evs \<and> (\<forall>i. Event OpCreateLine i \<notin> set evs)"
    then show "take (length (events d)) (events d') = events d \<and>
             filter is_line_creation (drop (length (events d)) (events d')) = []"
      by (auto simp: filter_empty_conv is_line_creation_def split: event.splits)
  qed
  have rw: "(filter (\<lambda>r. invoice_line_ids (snd r) \<noteq> [] \<and>
                   map_option invoice_line_ids (browse d (fst r)) \<noteq>
                     Some (invoice_line_ids (snd r))) (rows d') = []) =
            (\<forall>k m'. browse d' k = Some m' \<longrightarrow>
          invoice_line_ids m' = [] \<or>
          (\<exists>m. browse d k = Some m \<and> invoice_line_ids m' = invoice_line_ids m))"
  proof
    assume a: "filter (\<lambda>r. invoice_line_ids (snd r) \<noteq> [] \<and>
                   map_option invoice_line_ids (browse d (fst r)) \<noteq>
                     Some (invoice_line_ids (snd r))) (rows d') = []"
    show "\<forall>k m'. browse d' k = Some m' \<longrightarrow>
          invoice_line_ids m' = [] \<or>
          (\<exists>m. browse d k = Some m \<and> invoice_line_ids m' = invoice_line_ids m)"
    proof (intro allI impI)
      fix k m' assume "browse d' k = Some m'"
      then have "(k, m') \<in> set (rows d')" by (simp add: rows_iff)
      with a have "\<not> (invoice_line_ids m' \<noteq> [] \<and>
                   map_option invoice_line_ids (browse d k) \<noteq> Some (invoice_line_ids m'))"
        by (auto simp: filter_empty_conv)
      then show "invoice_line_ids m' = [] \<or>
          (\<exists>m. browse d k = Some m \<and> invoice_line_ids m' = invoice_line_ids m)"
        by (cases "browse d k") auto
    qed
  next
    assume a: "\<forall>k m'. browse d' k = Some m' \<longrightarrow>
          invoice_line_ids m' = [] \<or>
          (\<exists>m. browse d k = Some m \<and> invoice_line_ids m' = invoice_line_ids m)"
    show "filter (\<lambda>r. invoice_line_ids (snd r) \<noteq> [] \<and>
                   map_option invoice_line_ids (browse d (fst r)) \<noteq>
                     Some (invoice_line_ids (snd r))) (rows d') = []"
      unfolding filter_empty_conv
    proof (intro ballI)
      fix r assume "r \<in> set (rows d')"
      then have "browse d' (fst r) = Some (snd r)"
        using rows_iff [of "fst r" "snd r" d'] by simp
      with a show "\<not> (invoice_line_ids (snd r) \<noteq> [] \<and>
                   map_option invoice_line_ids (browse d (fst r)) \<noteq>
                     Some (invoice_line_ids (snd r)))"
        by fastforce
    qed
  qed
  show ?thesis unfolding lines_as_before_def using ev rw by blast
qed

lemma lines_as_before_refl: "lines_as_before d d"
  by (simp add: lines_as_before_iff)

lemma lines_as_before_unlink:
  "lines_as_before d (record_event OpUnlink j (delete_row j d))"
  by (auto simp: lines_as_before_iff browse_delete_row split: if_splits)

lemma lines_as_before_create:
  assumes "lines_as_before d d1" and "invoice_line_ids m = []"
  shows "lines_as_before d (record_event OpCreate (next_id d1) (insert_row m d1))"
  using assms by (auto simp: lines_as_before_iff browse_insert_row split: if_splits)

lemma builder_stops:
  assumes src: "browse d sid = Some src" and bad: "first_line_without_product src = Some l0"
  shows "\<exists>e d'. inter_company_create_invoice_body post E ctx sid c d = (Inl e, d') \<and>
                lines_as_before d d'"
proof -
  let ?ctx = "ctx\<lparr>check_move_validity := False\<rparr>"
  obtain x where x: "check_intercompany_product E src c d = (x, d)"
    using check_intercompany_product_pure by blast
  show ?thesis
  proof (cases x)
    case (Inl e)
    with src x have "inter_company_create_invoice_body post E ctx sid c d = (Inl e, d)"
      by (simp add: inter_company_create_invoice_body_def Let_def read_def ok_def bind_def)
    then show ?thesis using lines_as_before_refl by blast
  next
    case (Inr u)
    obtain r d1 where r: "reclaim_stale_mirror E ?ctx sid c d = (r, d1)"
      by (cases "reclaim_stale_mirror E ?ctx sid c d")
    have "lines_as_before d d1 \<and> next_id d1 = next_id d \<and>
              (browse d1 sid = None \<or>
               (\<exists>s. browse d1 sid = Some s \<and> first_line_without_product s = Some l0))"
      using reclaim_shape [OF r]
    proof
      assume "d1 = d"
      with src bad show ?thesis by (simp add: lines_as_before_refl)
    next
      assume "\<exists>j. j \<noteq> next_id d \<and> d1 = record_event OpUnlink j (delete_row j d)"
      then obtain j where "d1 = record_event OpUnlink j (delete_row j d)" by blast
      with src bad show ?thesis
        by (simp add: lines_as_before_unlink browse_delete_row)
    qed
    then have lb1: "lines_as_before d d1" and n1: "next_id d1 = next_id d"
      and s1: "browse d1 sid = None \<or>
               (\<exists>s. browse d1 sid = Some s \<and> first_line_without_product s = Some l0)"
      by blast+
    show ?thesis
    proof (cases r)
      case (Inl e)
      with src x Inr r have "inter_company_create_invoice_body post E ctx sid c d = (Inl e, d1)"
        by (simp add: inter_company_create_invoice_body_def Let_def read_def ok_def bind_def)
      with lb1 show ?thesis by blast
    next
      case fn: (Inr fn)
      obtain h d2 where h: "create_invoice_header E sid c fn d1 = (h, d2)"
        by (cases "create_invoice_header E sid c fn d1")
      from src have lt: "sid \<noteq> next_id d1" using n1 by (auto dest: browse_lt)
      from create_invoice_header_shape [OF h]
      show ?thesis
      proof
        assume "\<exists>e. h = Inl e \<and> d2 = d1"
        then obtain e where "h = Inl e" "d2 = d1" by blast
        with src x Inr r fn h
        have "inter_company_create_invoice_body post E ctx sid c d = (Inl e, d1)"
          by (simp add: inter_company_create_invoice_body_def Let_def read_def ok_def bind_def)
        with lb1 show ?thesis by blast
      next
        assume "\<exists>m. h = Inr (next_id d1) \<and> invoice_line_ids m = [] \<and>
              d2 = record_event OpCreate (next_id d1) (insert_row m d1)"
        then obtain m where hv: "h = Inr (next_id d1)" and m: "invoice_line_ids m = []"
          and d2: "d2 = record_event OpCreate (next_id d1) (insert_row m d1)" by blast
        from lines_as_before_create [OF lb1 m] d2 have lb2: "lines_as_before d d2" by simp
        from s1 lt d2 have "browse d2 sid = None \<or>
               (\<exists>s. browse d2 sid = Some s \<and> first_line_without_product s = Some l0)"
          by (simp add: browse_insert_row)
        from create_invoice_lines_stops_or_missing [OF this]
        obtain e where "create_invoice_lines E sid (next_id d1) c d2 = (Inl e, d2)" by blast
        with src x Inr r fn h hv
        have "inter_company_create_invoice_body post E ctx sid c d = (Inl e, d2)"
          by (simp add: inter_company_create_invoice_body_def Let_def read_def ok_def bind_def)
        with lb2 show ?thesis by blast
      qed
    qed
  qed
qed


lemma builder_names_line:
  assumes src: "browse d sid = Some src" and bad: "first_line_without_product src = Some l0"
    and chk: "fst (check_intercompany_product E src c d) = Inr ()"
    and le1: "length (existing_mirrors sid c d) \<le> 1"
    and notself: "auto_invoice_id src \<noteq> Some sid"
    and jr: "prepare_invoice_data E sid src c = Inr vals"
    and host: "\<forall>m. host_allows E OpCreate m"
  shows "\<exists>d'. inter_company_create_invoice_body post E ctx sid c d =
                (Inl (LineWithoutProduct (line_name l0)), d') \<and> browse d' (next_id d) \<noteq> None"
proof -
  let ?ctx = "ctx\<lparr>check_move_validity := False\<rparr>"
  from chk have x: "check_intercompany_product E src c d = (Inr (), d)"
    using check_intercompany_product_pure [of E src c d] by auto
  have "\<exists>fn d1 s1. reclaim_stale_mirror E ?ctx sid c d = (Inr fn, d1) \<and> next_id d1 = next_id d \<and>
          browse d1 sid = Some s1 \<and> first_line_without_product s1 = Some l0 \<and>
          prepare_invoice_data E sid s1 c = Inr vals"
  proof (cases "existing_mirrors sid c d")
    case Nil
    with src bad jr show ?thesis by (simp add: reclaim_result)
  next
    case (Cons r rs)
    with le1 have rs: "rs = []" by simp
    from Cons have "(fst r, snd r) \<in> set (existing_mirrors sid c d)" by simp
    then have "browse d (fst r) = Some (snd r)" "auto_invoice_id (snd r) = Some sid"
      using existing_mirrors_iff [of "fst r" "snd r" sid c d] by simp_all
    with src notself have ne: "sid \<noteq> fst r" by auto
    show ?thesis
    proof (cases "state (snd r) = Draft \<or> state (snd r) = Cancel")
      case True
      with Cons rs src bad jr ne show ?thesis
        by (simp add: reclaim_result browse_delete_row)
    next
      case False
      with Cons rs src bad jr show ?thesis by (simp add: reclaim_result)
    qed
  qed
  then obtain fn d1 s1 where r: "reclaim_stale_mirror E ?ctx sid c d = (Inr fn, d1)"
    and n1: "next_id d1 = next_id d" and s1: "browse d1 sid = Some s1"
    and b1: "first_line_without_product s1 = Some l0"
    and j1: "prepare_invoice_data E sid s1 c = Inr vals" by blast
  let ?m = "(with_forced_number fn vals)\<lparr>state := Draft\<rparr>"
  let ?d2 = "record_event OpCreate (next_id d1) (insert_row ?m d1)"
  from s1 j1 host have h: "create_invoice_header E sid c fn d1 = (Inr (next_id d1), ?d2)"
    by (simp add: create_invoice_header_result)
  from s1 have "sid \<noteq> next_id d1" by (auto dest: browse_lt)
  with s1 have "browse ?d2 sid = Some s1" by (simp add: browse_insert_row)
  from create_invoice_lines_stops [OF this b1]
  have l: "create_invoice_lines E sid (next_id d1) c ?d2 =
             (Inl (LineWithoutProduct (line_name l0)), ?d2)" .
  from src x r h l have "inter_company_create_invoice_body post E ctx sid c d =
                (Inl (LineWithoutProduct (line_name l0)), ?d2)"
    by (simp add: inter_company_create_invoice_body_def Let_def read_def ok_def bind_def)
  moreover have "browse ?d2 (next_id d) \<noteq> None" using n1 by (simp add: browse_insert_row)
  ultimately show ?thesis by blast
qed

text \<open>
  Claim C5. Let the source have a line that is neither a section nor a note and has
  no product, \<open>l0\<close> being the first such line. Then the builder always ends in an
  error; up to the point where it is raised no line has been created on any
  document; and at the transaction boundary the database is the one the request
  started from, so that neither a mirror nor a deletion persists. When the steps
  before the loop over the lines go through (the product check passes, at most one
  mirror exists for the pair, the source is not its own mirror, a journal is found
  and the ledger accepts the new header), the error is the one that names \<open>l0\<close>;
  the header of the mirror then exists inside the transaction, and it is the
  rollback that removes it.
\<close>

theorem line_without_product_aborts:
  assumes "browse d sid = Some src" and "first_line_without_product src = Some l0"
  shows "(\<exists>e d'. inter_company_create_invoice n E ctx sid c d = (Inl e, d') \<and>
                 lines_as_before d d' \<and>
                 transaction (inter_company_create_invoice n E ctx sid c) d = (Inl e, d))
         \<and> (fst (check_intercompany_product E src c d) = Inr () \<and>
             length (existing_mirrors sid c d) \<le> 1 \<and>
             auto_invoice_id src \<noteq> Some sid \<and>
             (\<exists>vals. prepare_invoice_data E sid src c = Inr vals) \<and>
             (\<forall>m. host_allows E OpCreate m) \<longrightarrow>
             (\<exists>d'. inter_company_create_invoice n E ctx sid c d =
                      (Inl (LineWithoutProduct (line_name l0)), d') \<and>
                   browse d' (next_id d) \<noteq> None))"
proof (intro conjI impI)
  from builder_stops [OF assms, of "action_post n" E ctx c]
  obtain e d' where b: "inter_company_create_invoice n E ctx sid c d = (Inl e, d')"
    and l: "lines_as_before d d'"
    by (auto simp: inter_company_create_invoice_def)
  from b have "transaction (inter_company_create_invoice n E ctx sid c) d = (Inl e, d)"
    by (simp add: transaction_def)
  with b l show "\<exists>e d'. inter_company_create_invoice n E ctx sid c d = (Inl e, d') \<and>
                 lines_as_before d d' \<and>
                 transaction (inter_company_create_invoice n E ctx sid c) d = (Inl e, d)"
    by blast
next
  assume "fst (check_intercompany_product E src c d) = Inr () \<and>
             length (existing_mirrors sid c d) \<le> 1 \<and>
             auto_invoice_id src \<noteq> Some sid \<and>
             (\<exists>vals. prepare_invoice_data E sid src c = Inr vals) \<and>
             (\<forall>m. host_allows E OpCreate m)"
  then show "\<exists>d'. inter_company_create_invoice n E ctx sid c d =
                      (Inl (LineWithoutProduct (line_name l0)), d') \<and>
                   browse d' (next_id d) \<noteq> None"
    using builder_names_line [OF assms, of E c _ "action_post n" ctx]
    by (auto simp: inter_company_create_invoice_def)
qed


lemma rows_db_TS: "rows db_TS = [(1, invoice_T), (2, invoice_S)]"
  by (simp add: rows_def List.map_filter_def browse_def db_TS_def table_def upt_rec)

theorem line_without_product_aborts_witness:
  "browse db_TS 1 = Some invoice_T \<and>
   first_line_without_product invoice_T = Some line_no_product \<and>
   fst (inter_company_create_invoice 1 E0 user_context 1 company_B db_TS) =
     Inl (LineWithoutProduct ''freight'') \<and>
   transaction (inter_company_create_invoice 1 E0 user_context 1 company_B) db_TS =
     (Inl (LineWithoutProduct ''freight''), db_TS)"
proof -
  have src: "browse db_TS 1 = Some invoice_T"
    by (simp add: browse_def db_TS_def table_def)
  have bad: "first_line_without_product invoice_T = Some line_no_product"
    by (simp add: first_line_without_product_def invoice_T_def invoice_S_def line_P_def
        line_no_product_def)
  have chk: "fst (check_intercompany_product E0 invoice_T company_B db_TS) = Inr ()"
    by (simp add: check_intercompany_product_def check_line_product_def company_B_def
        invoice_T_def invoice_S_def line_P_def line_no_product_def E0_def ok_def)
  have none: "existing_mirrors 1 company_B db_TS = []"
    by (simp add: existing_mirrors_def search_def rows_db_TS invoice_T_def invoice_S_def)
  have notself: "auto_invoice_id invoice_T \<noteq> Some 1"
    by (simp add: invoice_T_def invoice_S_def)
  have jr: "\<exists>vals. prepare_invoice_data E0 1 invoice_T company_B = Inr vals"
    by (simp add: prepare_invoice_data_def get_destination_journal_type_def MAP_JOURNAL_TYPE_def
        invoice_T_def invoice_S_def E0_def company_B_def Let_def)
  have host: "\<forall>m. host_allows E0 OpCreate m"
    by (simp add: E0_def)
  have nm: "line_name line_no_product = ''freight''"
    by (simp add: line_no_product_def line_P_def)
  from line_without_product_aborts [OF src bad, of 1 E0 user_context company_B]
    chk none notself jr host nm
  obtain d' where b: "inter_company_create_invoice 1 E0 user_context 1 company_B db_TS =
                      (Inl (LineWithoutProduct ''freight''), d')"
    by auto
  then have "transaction (inter_company_create_invoice 1 E0 user_context 1 company_B) db_TS =
     (Inl (LineWithoutProduct ''freight''), db_TS)"
    by (simp add: transaction_def)
  with src bad b show ?thesis by simp
qed

section \<open>The amount check of write\<close>

lemma host_update_cases:
  "host_update E op f i d =
     (case browse d i of
        None \<Rightarrow> (Inl (MissingError i), d)
      | Some m \<Rightarrow>
          if host_allows E op m then (Inr (), record_event op i (put i (f m) d))
          else (Inl (HostError op i), d))"
  by (simp add: host_update_def ok_def raise_def split: option.splits)

lemma host_update_Inr:
  assumes "host_update E op f i d = (Inr u, d')"
  shows "\<exists>m. browse d i = Some m \<and> host_allows E op m \<and> d' = record_event op i (put i (f m) d)"
  using assms by (auto simp: host_update_cases split: option.splits if_splits)

lemma browse_put_existing:
  "browse d i = Some m \<Longrightarrow> browse (put i m' d) k = (if k = i then Some m' else browse d k)"
  by (auto simp: browse_put dest: browse_lt)

lemma filtered_snd: "snd (filtered p ids d) = d"
  by (induction ids) (auto split: option.splits prod.splits sum.splits)

lemma filtered_existing:
  "\<forall>i\<in>set ids. browse d i \<noteq> None \<Longrightarrow>
   filtered p ids d =
     (Inr (filter (\<lambda>i. case browse d i of None \<Rightarrow> False | Some m \<Rightarrow> p m) ids), d)"
  by (induction ids) (auto split: option.splits)

lemma for_each_host_update_dom:
  "for_each (host_update E op f) ids d = (Inr u, d') \<Longrightarrow>
   (\<forall>i\<in>set ids. browse d' i \<noteq> None) \<and> (\<forall>k. browse d k \<noteq> None \<longrightarrow> browse d' k \<noteq> None)"
proof (induction ids arbitrary: d)
  case Nil
  then show ?case by simp
next
  case (Cons i ids)
  from Cons.prems obtain d1 where h: "host_update E op f i d = (Inr (), d1)"
    and r: "for_each (host_update E op f) ids d1 = (Inr u, d')"
    by (auto split: prod.splits sum.splits)
  from host_update_Inr [OF h] obtain m where m: "browse d i = Some m"
    and d1: "d1 = record_event op i (put i (f m) d)" by blast
  from m d1 have k: "\<forall>k. browse d k \<noteq> None \<longrightarrow> browse d1 k \<noteq> None"
    by (simp add: browse_put_existing)
  from m d1 have "browse d1 i \<noteq> None" by (simp add: browse_put_existing)
  with Cons.IH [OF r] k show ?case by auto
qed

lemma check_amount_difference_result:
  "check_amount_difference E i d =
     (case browse d i of
        None \<Rightarrow> (Inl (MissingError i), d)
      | Some m \<Rightarrow>
          if float_compare E (amount_untaxed m) (source_untaxed d m)
               (Precision_rounding (currency_rounding E (currency_id m))) \<noteq> 0
          then (Inl (AmountDiffersFromSource (source_name d m)), d)
          else (Inr (), d))"
  by (simp add: check_amount_difference_def read_def bind_def ok_def raise_def split: option.splits)

text \<open>The loop of \<open>write\<close> over the mirrors of the recordset.\<close>

lemma for_each_check_amount_difference:
  assumes "\<forall>i\<in>set ms. \<exists>m. browse d i = Some m \<and> auto_invoice_id m \<noteq> None"
  shows "(\<not> (\<exists>i\<in>set ms. mirror_diverges E d i) \<and>
            for_each (check_amount_difference E) ms d = (Inr (), d)) \<or>
         (\<exists>i\<in>set ms. \<exists>m. browse d i = Some m \<and> mirror_diverges E d i \<and>
            for_each (check_amount_difference E) ms d =
              (Inl (AmountDiffersFromSource (source_name d m)), d))"
  using assms
proof (induction ms)
  case Nil
  then show ?case by simp
next
  case (Cons i ms)
  from Cons.prems obtain m where m: "browse d i = Some m" and a: "auto_invoice_id m \<noteq> None"
    by auto
  show ?case
  proof (cases "mirror_diverges E d i")
    case True
    with m have "for_each (check_amount_difference E) (i # ms) d =
              (Inl (AmountDiffersFromSource (source_name d m)), d)"
      by (simp add: check_amount_difference_result mirror_diverges_def)
    with True m show ?thesis by auto
  next
    case False
    with m a have c: "check_amount_difference E i d = (Inr (), d)"
      by (simp add: check_amount_difference_result mirror_diverges_def)
    from Cons.prems have "\<forall>i\<in>set ms. \<exists>m. browse d i = Some m \<and> auto_invoice_id m \<noteq> None"
      by simp
    from Cons.IH [OF this] c False show ?thesis by auto
  qed
qed

lemma write_move_result:
  assumes hw: "host_write E ids vals d = (Inr (), d1)"
    and ns: "\<not> skip_check_amount_difference ctx"
  shows "(\<not> (\<exists>i\<in>set ids. mirror_diverges E d1 i) \<and>
            write_move E ctx ids vals d = (Inr (), d1)) \<or>
         (\<exists>i\<in>set ids. \<exists>m. browse d1 i = Some m \<and> mirror_diverges E d1 i \<and>
            write_move E ctx ids vals d =
              (Inl (AmountDiffersFromSource (source_name d1 m)), d1))"
proof -
  let ?ms = "filter (\<lambda>i. case browse d1 i of None \<Rightarrow> False | Some m \<Rightarrow> auto_invoice_id m \<noteq> None) ids"
  from hw have ex: "\<forall>i\<in>set ids. browse d1 i \<noteq> None"
    using for_each_host_update_dom [of E OpWrite _ ids d "()" d1] by (simp add: host_write_def)
  from filtered_existing [OF ex]
  have f: "filtered (\<lambda>m. auto_invoice_id m \<noteq> None) ids d1 = (Inr ?ms, d1)" .
  from hw ns f have w: "write_move E ctx ids vals d = for_each (check_amount_difference E) ?ms d1"
    by (simp add: write_move_def bind_def)
  have "\<forall>i\<in>set ?ms. \<exists>m. browse d1 i = Some m \<and> auto_invoice_id m \<noteq> None"
    by (auto split: option.splits)
  from for_each_check_amount_difference [OF this, of E]
  have "(\<not> (\<exists>i\<in>set ?ms. mirror_diverges E d1 i) \<and>
            for_each (check_amount_difference E) ?ms d1 = (Inr (), d1)) \<or>
         (\<exists>i\<in>set ?ms. \<exists>m. browse d1 i = Some m \<and> mirror_diverges E d1 i \<and>
            for_each (check_amount_difference E) ?ms d1 =
              (Inl (AmountDiffersFromSource (source_name d1 m)), d1))" .
  moreover have "(\<exists>i\<in>set ?ms. mirror_diverges E d1 i) = (\<exists>i\<in>set ids. mirror_diverges E d1 i)"
    by (auto simp: mirror_diverges_def split: option.splits)
  ultimately show ?thesis unfolding w by auto
qed

text \<open>
  Claim C6, amended. Let the ledger's own write have gone through. With the context
  key \<open>skip_check_amount_difference\<close> the write succeeds. Without it, the write is
  rejected with the error that names a source exactly when some mirror of the
  recordset has, after the write, an untaxed total that differs from that of its
  source at the rounding of the currency of the mirror itself, and it succeeds
  exactly when no mirror does; the source named is that of such a mirror, and the
  rejected write is rolled back at the transaction boundary.
\<close>

theorem write_rejected_iff_mirror_diverges:
  assumes "host_write E ids vals d = (Inr (), d1)"
  shows "(skip_check_amount_difference ctx \<longrightarrow> write_move E ctx ids vals d = (Inr (), d1))
       \<and> (\<not> skip_check_amount_difference ctx \<longrightarrow>
            ((\<exists>n. write_move E ctx ids vals d = (Inl (AmountDiffersFromSource n), d1)) =
               (\<exists>i\<in>set ids. mirror_diverges E d1 i))
          \<and> ((write_move E ctx ids vals d = (Inr (), d1)) =
               (\<not> (\<exists>i\<in>set ids. mirror_diverges E d1 i)))
          \<and> (\<forall>n. write_move E ctx ids vals d = (Inl (AmountDiffersFromSource n), d1) \<longrightarrow>
                 transaction (write_move E ctx ids vals) d = (Inl (AmountDiffersFromSource n), d) \<and>
                 (\<exists>i\<in>set ids. \<exists>m. browse d1 i = Some m \<and> mirror_diverges E d1 i \<and>
                                  n = source_name d1 m)))"
proof (intro conjI impI)
  assume "skip_check_amount_difference ctx"
  with assms show "write_move E ctx ids vals d = (Inr (), d1)"
    by (simp add: write_move_def bind_def ok_def)
next
  assume ns: "\<not> skip_check_amount_difference ctx"
  from write_move_result [OF assms ns]
  show "(\<exists>n. write_move E ctx ids vals d = (Inl (AmountDiffersFromSource n), d1)) =
               (\<exists>i\<in>set ids. mirror_diverges E d1 i)"
    by auto
next
  assume ns: "\<not> skip_check_amount_difference ctx"
  from write_move_result [OF assms ns]
  show "(write_move E ctx ids vals d = (Inr (), d1)) =
               (\<not> (\<exists>i\<in>set ids. mirror_diverges E d1 i))"
    by auto
next
  assume ns: "\<not> skip_check_amount_difference ctx"
  show "\<forall>n. write_move E ctx ids vals d = (Inl (AmountDiffersFromSource n), d1) \<longrightarrow>
                 transaction (write_move E ctx ids vals) d = (Inl (AmountDiffersFromSource n), d) \<and>
                 (\<exists>i\<in>set ids. \<exists>m. browse d1 i = Some m \<and> mirror_diverges E d1 i \<and>
                                  n = source_name d1 m)"
  proof (intro allI impI conjI)
    fix n assume w: "write_move E ctx ids vals d = (Inl (AmountDiffersFromSource n), d1)"
    then show "transaction (write_move E ctx ids vals) d = (Inl (AmountDiffersFromSource n), d)"
      by (simp add: transaction_def)
    from write_move_result [OF assms ns] w
    show "\<exists>i\<in>set ids. \<exists>m. browse d1 i = Some m \<and> mirror_diverges E d1 i \<and> n = source_name d1 m"
      by auto
  qed
qed


lemma floor_numeral_div:
  "\<lfloor>(numeral a :: rat) / numeral b\<rfloor> = numeral a div numeral b"
  "\<lfloor>(1 :: rat) / numeral b\<rfloor> = 1 div numeral b"
  "\<lfloor>- (numeral a :: rat) / numeral b\<rfloor> = - numeral a div numeral b"
  using floor_divide_of_int_eq [of "numeral a" "numeral b", where ?'a = rat]
    floor_divide_of_int_eq [of 1 "numeral b", where ?'a = rat]
    floor_divide_of_int_eq [of "- numeral a" "numeral b", where ?'a = rat]
  by simp_all

lemma float_compare_rat_units: "float_compare_rat 100 (502 / 5) (Precision_rounding 1) = 0"
  by (simp add: float_compare_rat_def float_is_zero_def float_round_def rounding_factor_def
      round_half_up_def Let_def floor_numeral_div)

lemma float_compare_rat_cents:
  "float_compare_rat 100 (502 / 5) (Precision_rounding (1 / 100)) = - 1"
  by (simp add: float_compare_rat_def float_is_zero_def float_round_def rounding_factor_def
      round_half_up_def Let_def floor_numeral_div)


lemma browse_db_cur:
  "browse db_cur 1 = Some (invoice_S\<lparr> state := Posted, amount_untaxed := 502 / 5,
                                      amount_total := 502 / 5 \<rparr>)"
  "browse db_cur 2 = Some (mirror_M\<lparr> state := Draft, amount_untaxed := 100, amount_total := 100 \<rparr>)"
  by (simp_all add: browse_def db_cur_def table_def)

lemma host_write_db_cur:
  "host_write E0 [2] vals db_cur =
     (Inr (), record_event OpWrite 2
                (put 2 (fold (assign E0) vals
                          (mirror_M\<lparr> state := Draft, amount_untaxed := 100, amount_total := 100 \<rparr>))
                   db_cur))"
  by (simp add: host_write_def host_update_cases browse_db_cur E0_def)

text \<open>
  Claim C6 as stated fails: the mirror of 100.00 of a source of 100.40 is given
  currency 2, which rounds to units. The write is accepted, the two totals being equal
  at the rounding of the mirror's new currency, although they differ at the rounding
  of the currency of the source.
\<close>

theorem write_compares_at_mirror_rounding_counterexample:
  "fst (write_move E0 user_context [2] [F_currency_id 2] db_cur) = Inr () \<and>
   diverges_at_source_rounding E0
     (snd (write_move E0 user_context [2] [F_currency_id 2] db_cur)) 2"
proof -
  define m where "m = mirror_M\<lparr> state := Draft, amount_untaxed := 100, amount_total := 100 \<rparr>"
  define d1 where "d1 = record_event OpWrite 2 (put 2 (m\<lparr> currency_id := 2 \<rparr>) db_cur)"
  have hw: "host_write E0 [2] [F_currency_id 2] db_cur = (Inr (), d1)"
    by (simp add: host_write_db_cur d1_def m_def)
  have b2: "browse d1 2 = Some (m\<lparr> currency_id := 2 \<rparr>)"
    unfolding d1_def by (simp add: browse_put_existing [OF browse_db_cur(2)])
  have b1: "browse d1 (Suc 0) = Some (invoice_S\<lparr> state := Posted, amount_untaxed := 502 / 5,
                                      amount_total := 502 / 5 \<rparr>)"
    using browse_db_cur(1) unfolding d1_def
    by (simp add: browse_put_existing [OF browse_db_cur(2)])
  have nd: "\<not> mirror_diverges E0 d1 2"
    by (simp add: mirror_diverges_def b2 source_untaxed_def source_of_def m_def mirror_M_def b1
        E0_def float_compare_rat_units)
  have sd: "diverges_at_source_rounding E0 d1 2"
    by (simp add: diverges_at_source_rounding_def b2 source_of_def m_def mirror_M_def b1
        E0_def invoice_S_def float_compare_rat_cents)
  have ns: "\<not> skip_check_amount_difference user_context"
    by (simp add: user_context_def)
  from write_move_result [OF hw ns] nd
  have "write_move E0 user_context [2] [F_currency_id 2] db_cur = (Inr (), d1)" by auto
  with sd show ?thesis by simp
qed

theorem write_rejected_iff_mirror_diverges_witness:
  "fst (host_write E0 [2] [F_narration ''late''] db_cur) = Inr () \<and>
   \<not> skip_check_amount_difference user_context \<and>
   fst (write_move E0 user_context [2] [F_narration ''late''] db_cur) =
     Inl (AmountDiffersFromSource ''INV/001'') \<and>
   skip_check_amount_difference (user_context\<lparr> skip_check_amount_difference := True \<rparr>) \<and>
   fst (write_move E0 (user_context\<lparr> skip_check_amount_difference := True \<rparr>) [2]
          [F_narration ''late''] db_cur) = Inr ()"
proof -
  define m where "m = mirror_M\<lparr> state := Draft, amount_untaxed := 100, amount_total := 100,
                        narration := ''late'' \<rparr>"
  define d1 where "d1 = record_event OpWrite 2 (put 2 m db_cur)"
  have hw: "host_write E0 [2] [F_narration ''late''] db_cur = (Inr (), d1)"
    by (simp add: host_write_db_cur d1_def m_def)
  have b2: "browse d1 2 = Some m"
    unfolding d1_def by (simp add: browse_put_existing [OF browse_db_cur(2)])
  have b1: "browse d1 (Suc 0) = Some (invoice_S\<lparr> state := Posted, amount_untaxed := 502 / 5,
                                      amount_total := 502 / 5 \<rparr>)"
    using browse_db_cur(1) unfolding d1_def
    by (simp add: browse_put_existing [OF browse_db_cur(2)])
  have dv: "mirror_diverges E0 d1 2"
    by (simp add: mirror_diverges_def b2 source_untaxed_def source_of_def m_def mirror_M_def b1
        E0_def float_compare_rat_cents)
  have sn: "source_name d1 m = ''INV/001''"
    by (simp add: source_name_def source_of_def m_def mirror_M_def b1 invoice_S_def)
  have ns: "\<not> skip_check_amount_difference user_context"
    by (simp add: user_context_def)
  from write_rejected_iff_mirror_diverges [OF hw, of user_context] ns dv
  obtain n where w: "write_move E0 user_context [2] [F_narration ''late''] db_cur =
                       (Inl (AmountDiffersFromSource n), d1)"
    by auto
  with write_rejected_iff_mirror_diverges [OF hw, of user_context] ns b2
  have "n = source_name d1 m" by auto
  with w sn have r: "fst (write_move E0 user_context [2] [F_narration ''late''] db_cur) =
     Inl (AmountDiffersFromSource ''INV/001'')" by simp
  from write_rejected_iff_mirror_diverges [OF hw, of "user_context\<lparr> skip_check_amount_difference := True \<rparr>"]
  have a: "fst (write_move E0 (user_context\<lparr> skip_check_amount_difference := True \<rparr>) [2]
          [F_narration ''late''] db_cur) = Inr ()" by simp
  from hw ns r a show ?thesis by simp
qed

section \<open>Lines, posting of a mirror, validation\<close>

lemma browse_next_line_id [simp]: "browse (d\<lparr>next_line_id := x\<rparr>) k = browse d k"
  by (simp add: browse_def)

lemma next_id_next_line_id [simp]: "next_id (d\<lparr>next_line_id := x\<rparr>) = next_id d"
  by simp

lemma header_updates [simp]:
  "header (m\<lparr>invoice_line_ids := ls\<rparr>) = header m"
  "header (m\<lparr>amount_untaxed := a\<rparr>) = header m"
  "header (m\<lparr>amount_total := a\<rparr>) = header m"
  "header (recompute E m) = header m"
  by (simp_all add: header_def recompute_def)

lemma header_fields:
  assumes "header m' = header m"
  shows "name m' = name m" "state m' = state m" "auto_generated m' = auto_generated m"
    "auto_invoice_id m' = auto_invoice_id m" "company_id m' = company_id m"
    "message_ids m' = message_ids m" "invoice_origin m' = invoice_origin m"
    "commercial_partner_id m' = commercial_partner_id m" "move_type m' = move_type m"
    "currency_id m' = currency_id m" "partner_id m' = partner_id m"
proof -
  have "name (header m') = name (header m)" "state (header m') = state (header m)"
    "auto_generated (header m') = auto_generated (header m)"
    "auto_invoice_id (header m') = auto_invoice_id (header m)"
    "company_id (header m') = company_id (header m)"
    "message_ids (header m') = message_ids (header m)"
    "invoice_origin (header m') = invoice_origin (header m)"
    "commercial_partner_id (header m') = commercial_partner_id (header m)"
    "move_type (header m') = move_type (header m)"
    "currency_id (header m') = currency_id (header m)"
    "partner_id (header m') = partner_id (header m)"
    using assms by simp_all
  then show "name m' = name m" "state m' = state m" "auto_generated m' = auto_generated m"
    "auto_invoice_id m' = auto_invoice_id m" "company_id m' = company_id m"
    "message_ids m' = message_ids m" "invoice_origin m' = invoice_origin m"
    "commercial_partner_id m' = commercial_partner_id m" "move_type m' = move_type m"
    "currency_id m' = currency_id m" "partner_id m' = partner_id m"
    by (simp_all add: header_def)
qed

lemma host_create_line_result:
  "host_create_line E v d =
     (case browse d (fst v) of
        None \<Rightarrow> (Inl (MissingError (fst v)), d)
      | Some m \<Rightarrow>
          if host_allows E OpCreateLine m
          then (Inr (),
                (record_event OpCreateLine (fst v)
                   (put (fst v)
                      (recompute E (m\<lparr>invoice_line_ids :=
                                        invoice_line_ids m @ [(snd v)\<lparr>line_id := next_line_id d\<rparr>]\<rparr>))
                      d))\<lparr>next_line_id := Suc (next_line_id d)\<rparr>)
          else (Inl (HostError OpCreateLine (fst v)), d))"
  by (simp add: host_create_line_def host_update_cases bind_def ok_def record_event_def put_def
      split: option.splits)

lemma recompute_recompute [simp]:
  "recompute E ((recompute E m)\<lparr>invoice_line_ids := ls\<rparr>) = recompute E (m\<lparr>invoice_line_ids := ls\<rparr>)"
  "recompute E (recompute E m) = recompute E m"
  by (simp_all add: recompute_def)

lemma numbered_append: "numbered k (xs @ ys) = numbered k xs @ numbered (k + length xs) ys"
  by (induction xs arbitrary: k) simp_all

lemma length_numbered [simp]: "length (numbered k ls) = length ls"
  by (induction ls arbitrary: k) simp_all

text \<open>The lines created on one document: the rest of the database is untouched, and
  the document has its old lines followed by the new ones.\<close>

lemma host_create_lines_shape:
  assumes "host_create_lines E vs d = (Inr u, d')" and "\<forall>v\<in>set vs. fst v = i"
    and "browse d i = Some m"
  shows "browse d' i =
           Some (if vs = [] then m
                 else recompute E (m\<lparr>invoice_line_ids :=
                        invoice_line_ids m @ numbered (next_line_id d) (map snd vs)\<rparr>)) \<and>
         (\<forall>k. k \<noteq> i \<longrightarrow> browse d' k = browse d k) \<and>
         next_id d' = next_id d \<and>
         events d' = events d @ replicate (length vs) (Event OpCreateLine i)"
  using assms
proof (induction vs arbitrary: d m)
  case Nil
  then show ?case by (simp add: host_create_lines_def)
next
  case (Cons v vs)
  from Cons.prems(2) have fv: "fst v = i" and rest: "\<forall>v\<in>set vs. fst v = i" by simp_all
  let ?m1 = "recompute E (m\<lparr>invoice_line_ids :=
                              invoice_line_ids m @ [(snd v)\<lparr>line_id := next_line_id d\<rparr>]\<rparr>)"
  let ?d1 = "(record_event OpCreateLine i (put i ?m1 d))\<lparr>next_line_id := Suc (next_line_id d)\<rparr>"
  from Cons.prems(1,3) fv have r: "host_create_lines E vs ?d1 = (Inr u, d')"
    by (auto simp: host_create_lines_def host_create_line_result split: if_splits)
  have b1: "browse ?d1 i = Some ?m1" and o1: "\<forall>k. k \<noteq> i \<longrightarrow> browse ?d1 k = browse d k"
    using Cons.prems(3) by (simp_all add: browse_put_existing)
  have nl: "next_line_id ?d1 = Suc (next_line_id d)" by simp
  from Cons.IH [OF r rest b1]
  have m': "browse d' i =
           Some (if vs = [] then ?m1
                 else recompute E (?m1\<lparr>invoice_line_ids :=
                        invoice_line_ids ?m1 @ numbered (next_line_id ?d1) (map snd vs)\<rparr>))"
    and o: "\<forall>k. k \<noteq> i \<longrightarrow> browse d' k = browse ?d1 k"
    and n: "next_id d' = next_id ?d1"
    and e: "events d' = events ?d1 @ replicate (length vs) (Event OpCreateLine i)"
    by blast+
  have l1: "invoice_line_ids ?m1 = invoice_line_ids m @ [(snd v)\<lparr>line_id := next_line_id d\<rparr>]"
    by (simp add: recompute_def)
  have "browse d' i =
           Some (recompute E (m\<lparr>invoice_line_ids :=
                        invoice_line_ids m @ numbered (next_line_id d) (map snd (v # vs))\<rparr>))"
    using m' unfolding nl l1 by (cases "vs = []") simp_all
  moreover have "\<forall>k. k \<noteq> i \<longrightarrow> browse d' k = browse d k" using o o1 by simp
  moreover have "next_id d' = next_id d" using n by simp
  moreover have "events d' = events d @ replicate (length (v # vs)) (Event OpCreateLine i)"
    using e by (simp add: record_event_def replicate_append_same)
  ultimately show ?case by simp
qed

lemma host_create_lines_succeeds:
  assumes "\<forall>m. host_allows E OpCreateLine m" and "\<forall>v\<in>set vs. fst v = i"
    and "browse d i \<noteq> None"
  shows "fst (host_create_lines E vs d) = Inr ()"
  using assms(2,3)
proof (induction vs arbitrary: d)
  case Nil
  then show ?case by (simp add: host_create_lines_def)
next
  case (Cons v vs)
  from Cons.prems obtain m where m: "browse d i = Some m" and fv: "fst v = i" by auto
  let ?m1 = "recompute E (m\<lparr>invoice_line_ids :=
                              invoice_line_ids m @ [(snd v)\<lparr>line_id := next_line_id d\<rparr>]\<rparr>)"
  let ?d1 = "(record_event OpCreateLine i (put i ?m1 d))\<lparr>next_line_id := Suc (next_line_id d)\<rparr>"
  have "browse ?d1 i \<noteq> None" using m by (simp add: browse_put_existing)
  with Cons.IH [of ?d1] Cons.prems have "fst (host_create_lines E vs ?d1) = Inr ()" by simp
  with m fv assms(1) show ?case
    by (simp add: host_create_lines_def host_create_line_result)
qed

lemma prepare_lines_target:
  "prepare_lines E i c ls = Inr vs \<Longrightarrow> (\<forall>v\<in>set vs. fst v = i) \<and> length vs = length ls"
  by (induction ls arbitrary: vs)
     (auto simp: prepare_account_move_line_def Let_def split: if_splits sum.splits)


lemma move_autocomplete_result:
  "move_autocomplete_invoice_lines_values E i d =
     (case browse d i of
        None \<Rightarrow> (Inl (MissingError i), d)
      | Some m \<Rightarrow> (Inr (), put i (recompute E m) d))"
  by (simp add: move_autocomplete_invoice_lines_values_def ok_def raise_def split: option.splits)

lemma create_invoice_lines_shape:
  assumes run: "create_invoice_lines E sid i c d2 = (Inr u, d3)" and m0: "browse d2 i = Some m0"
  shows "\<exists>src. browse d2 sid = Some src \<and> first_line_without_product src = None \<and>
           browse d3 i =
             Some (recompute E (m0\<lparr>invoice_line_ids :=
                     invoice_line_ids m0 @ numbered (next_line_id d2) (mirror_lines E src i c)\<rparr>)) \<and>
           (\<forall>k. k \<noteq> i \<longrightarrow> browse d3 k = browse d2 k) \<and>
           next_id d3 = next_id d2 \<and>
           events d3 = events d2 @
             replicate (length (mirror_lines E src i c)) (Event OpCreateLine i)"
proof -
  from run obtain src where src: "browse d2 sid = Some src"
    by (auto simp: create_invoice_lines_def bind_def read_def raise_def ok_def
        split: option.splits)
  let ?ls = "filter (\<lambda>x. display_type x = []) (invoice_line_ids src)"
  from run src obtain vs d2' where vs: "prepare_lines E i c ?ls = Inr vs"
    and cl: "host_create_lines E vs d2 = (Inr (), d2')"
    and ac: "move_autocomplete_invoice_lines_values E i d2' = (Inr u, d3)"
    by (auto simp: create_invoice_lines_def bind_def read_def ok_def lift_def
        split: sum.splits prod.splits)
  have nob: "first_line_without_product src = None"
  proof (cases "first_line_without_product src")
    case None then show ?thesis .
  next
    case (Some l0)
    with vs prepare_lines_stops [of "invoice_line_ids src" l0 E i c] show ?thesis
      by (simp add: first_line_without_product_def)
  qed
  from nob vs have vs_eq: "map snd vs = mirror_lines E src i c"
    using prepare_lines_all [of "invoice_line_ids src" E i c]
    by (auto simp: first_line_without_product_def mirror_lines_def)
  from prepare_lines_target [OF vs] have tg: "\<forall>v\<in>set vs. fst v = i" by simp
  let ?m2 = "if vs = [] then m0
             else recompute E (m0\<lparr>invoice_line_ids :=
                    invoice_line_ids m0 @ numbered (next_line_id d2) (map snd vs)\<rparr>)"
  from host_create_lines_shape [OF cl tg m0]
  have m2: "browse d2' i = Some ?m2"
    and o2: "\<forall>k. k \<noteq> i \<longrightarrow> browse d2' k = browse d2 k"
    and n2: "next_id d2' = next_id d2"
    and e2: "events d2' = events d2 @ replicate (length vs) (Event OpCreateLine i)"
    by blast+
  from ac m2 have d3: "d3 = put i (recompute E ?m2) d2'"
    by (simp add: move_autocomplete_result)
  have r2: "recompute E ?m2 =
              recompute E (m0\<lparr>invoice_line_ids :=
                     invoice_line_ids m0 @ numbered (next_line_id d2) (mirror_lines E src i c)\<rparr>)"
    using vs_eq by (cases "vs = []") (auto simp: recompute_def)
  have "browse d3 i = Some (recompute E ?m2)" using d3 m2 by (simp add: browse_put_existing)
  moreover have "\<forall>k. k \<noteq> i \<longrightarrow> browse d3 k = browse d2 k"
    using d3 m2 o2 by (simp add: browse_put_existing)
  moreover have "next_id d3 = next_id d2" using d3 n2 by simp
  moreover have "length vs = length (mirror_lines E src i c)"
    using vs_eq by (metis length_map)
  then have "events d3 = events d2 @ replicate (length (mirror_lines E src i c)) (Event OpCreateLine i)"
    using d3 e2 by simp
  ultimately show ?thesis using src nob r2 by auto
qed

lemma create_invoice_lines_succeeds:
  assumes "browse d2 sid = Some src" and "first_line_without_product src = None"
    and "browse d2 i \<noteq> None" and "\<forall>m. host_allows E OpCreateLine m"
  shows "fst (create_invoice_lines E sid i c d2) = Inr ()"
proof -
  let ?ls = "filter (\<lambda>x. display_type x = []) (invoice_line_ids src)"
  let ?vs = "map (\<lambda>l. prepare_account_move_line E l i c) ?ls"
  from assms(2) have vs: "prepare_lines E i c ?ls = Inr ?vs"
    using prepare_lines_all [of "invoice_line_ids src" E i c]
    by (simp add: first_line_without_product_def)
  from prepare_lines_target [OF vs] have tg: "\<forall>v\<in>set ?vs. fst v = i" by simp
  obtain d2' where cl: "host_create_lines E ?vs d2 = (Inr (), d2')"
    using host_create_lines_succeeds [OF assms(4) tg assms(3)]
    by (cases "host_create_lines E ?vs d2") auto
  from assms(3) obtain m0 where m0: "browse d2 i = Some m0" by auto
  from host_create_lines_shape [OF cl tg m0] obtain m2 where "browse d2' i = Some m2" by blast
  with assms(1) vs cl show ?thesis
    by (simp add: create_invoice_lines_def bind_def read_def ok_def lift_def
        move_autocomplete_result)
qed

text \<open>Posting a document that was generated does nothing more than the ledger does.\<close>

lemma mirror_document_generated:
  "browse d i = Some m \<Longrightarrow> auto_generated m \<Longrightarrow> mirror_document builder E ctx i d = (Inr (), d)"
  by (simp add: mirror_document_def read_def bind_def ok_def split: option.splits)

lemma action_post_generated:
  assumes "browse d i = Some m" and "auto_generated m"
  shows "action_post (Suc n) E ctx [i] d = host_action_post E [i] d"
proof (cases "host_allows E OpPost m")
  case False
  with assms show ?thesis
    by (simp add: action_post.simps action_post_body_def host_action_post_def host_update_cases
        bind_def)
next
  case True
  let ?d4 = "record_event OpPost i (put i (m\<lparr>state := Posted\<rparr>) d)"
  from True assms have h: "host_action_post E [i] d = (Inr (), ?d4)"
    by (simp add: host_action_post_def host_update_cases)
  have b: "browse ?d4 i = Some (m\<lparr>state := Posted\<rparr>)"
    using assms by (simp add: browse_put_existing)
  have g: "auto_generated (m\<lparr>state := Posted\<rparr>)" using assms by simp
  from h b mirror_document_generated [OF b g] show ?thesis
    by (simp add: action_post.simps action_post_body_def bind_def ok_def)
qed

lemma host_action_post_single:
  "host_action_post E [i] d =
     (case browse d i of
        None \<Rightarrow> (Inl (MissingError i), d)
      | Some m \<Rightarrow>
          if host_allows E OpPost m
          then (Inr (), record_event OpPost i (put i (m\<lparr>state := Posted\<rparr>) d))
          else (Inl (HostError OpPost i), d))"
  by (simp add: host_action_post_def host_update_cases split: option.splits)

lemma host_message_post_result:
  "host_message_post E i body d =
     (case browse d i of
        None \<Rightarrow> (Inl (MissingError i), d)
      | Some m \<Rightarrow>
          if host_allows E OpMessage m
          then (Inr (), record_event OpMessage i (put i (m\<lparr>message_ids := message_ids m @ [body]\<rparr>) d))
          else (Inl (HostError OpMessage i), d))"
  by (simp add: host_message_post_def host_update_cases split: option.splits)

lemma validate_or_warn_result:
  assumes "browse d sid = Some src" and "browse d i = Some m"
  shows "validate_or_warn post E ctx sid i c d =
     (if invoice_auto_validation c \<and>
         float_compare E (amount_total src) (amount_total m)
           (Precision_digits (account_precision E)) = 0
      then post E ctx [i] d
      else if float_compare E (amount_total src) (amount_total m)
                (Precision_digits (account_precision E)) \<noteq> 0
      then host_message_post E i
             (TotalMismatchWarning (amount_total m) (name src)
                (company_name_of E (company_id src)) (amount_total src)) d
      else (Inr (), d))"
  using assms by (simp add: validate_or_warn_def read_def bind_def ok_def)

lemma builder_phases:
  assumes "inter_company_create_invoice_body post E ctx sid c d = (Inr i, d')"
  shows "\<exists>src fn d1 d2 d3.
           browse d sid = Some src \<and>
           check_intercompany_product E src c d = (Inr (), d) \<and>
           reclaim_stale_mirror E (ctx\<lparr>check_move_validity := False\<rparr>) sid c d = (Inr fn, d1) \<and>
           create_invoice_header E sid c fn d1 = (Inr i, d2) \<and>
           create_invoice_lines E sid i c d2 = (Inr (), d3) \<and>
           validate_or_warn post E (ctx\<lparr>check_move_validity := False\<rparr>) sid i c d3 = (Inr (), d')"
proof -
  from assms obtain src where src: "browse d sid = Some src"
    by (auto simp: inter_company_create_invoice_body_def Let_def bind_def read_def raise_def
        split: option.splits)
  obtain x where x: "check_intercompany_product E src c d = (x, d)"
    using check_intercompany_product_pure by blast
  from assms src x show ?thesis
    by (auto simp: inter_company_create_invoice_body_def Let_def bind_def read_def ok_def
        split: sum.splits prod.splits)
qed

section \<open>A successful build\<close>

lemma reclaim_next_id:
  "reclaim_stale_mirror E ctx sid c d = (r, d1) \<Longrightarrow> next_id d1 = next_id d"
  using reclaim_shape [of E ctx sid c d r d1] by auto

lemma reclaim_next_line_id:
  "reclaim_stale_mirror E ctx sid c d = (r, d1) \<Longrightarrow> next_line_id d1 = next_line_id d"
  using reclaim_shape [of E ctx sid c d r d1]
  by (auto simp: record_event_def delete_row_def)

text \<open>What a successful run of the builder leaves. \<open>d1\<close> is the database after the
  reclamation, \<open>m3\<close> the mirror as completed, before it is posted or annotated.\<close>

lemma builder_shape:
  assumes run: "inter_company_create_invoice_body (action_post n) E ctx sid c d = (Inr i, d')"
  shows "i = next_id d \<and> next_id d' = Suc (next_id d) \<and>
    (\<exists>fn d1 src vals m3.
        reclaim_stale_mirror E ctx sid c d = (Inr fn, d1) \<and>
        browse d1 sid = Some src \<and> first_line_without_product src = None \<and>
        prepare_invoice_data E sid src c = Inr vals \<and>
        m3 = completed_mirror E fn vals (next_line_id d) src i c \<and>
        (\<forall>k. k \<noteq> i \<longrightarrow> browse d' k = browse d1 k) \<and>
        (if invoice_auto_validation c \<and>
            float_compare E (amount_total src) (amount_total m3)
              (Precision_digits (account_precision E)) = 0
         then browse d' i = Some (m3\<lparr>state := Posted\<rparr>) \<and>
              events d' = events d1 @ Event OpCreate i #
                replicate (length (invoice_line_ids m3)) (Event OpCreateLine i) @ [Event OpPost i]
         else if float_compare E (amount_total src) (amount_total m3)
                   (Precision_digits (account_precision E)) \<noteq> 0
         then browse d' i =
                Some (m3\<lparr>message_ids :=
                        [TotalMismatchWarning (amount_total m3) (name src)
                           (company_name_of E (company_id src)) (amount_total src)]\<rparr>) \<and>
              events d' = events d1 @ Event OpCreate i #
                replicate (length (invoice_line_ids m3)) (Event OpCreateLine i) @ [Event OpMessage i]
         else browse d' i = Some m3 \<and>
              events d' = events d1 @ Event OpCreate i #
                replicate (length (invoice_line_ids m3)) (Event OpCreateLine i)))"
proof -
  let ?ctx = "ctx\<lparr>check_move_validity := False\<rparr>"
  from builder_phases [OF run] obtain src0 fn d1 d2 d3 where
    rc: "reclaim_stale_mirror E ?ctx sid c d = (Inr fn, d1)"
    and hd: "create_invoice_header E sid c fn d1 = (Inr i, d2)"
    and ln: "create_invoice_lines E sid i c d2 = (Inr (), d3)"
    and vl: "validate_or_warn (action_post n) E ?ctx sid i c d3 = (Inr (), d')"
    by blast
  have rc': "reclaim_stale_mirror E ctx sid c d = (Inr fn, d1)"
    using rc by (simp add: reclaim_result)
  have n1: "next_id d1 = next_id d" using reclaim_next_id [OF rc] .
  have nl1: "next_line_id d1 = next_line_id d" using reclaim_next_line_id [OF rc] .
  from hd obtain src vals where src: "browse d1 sid = Some src"
    and pv: "prepare_invoice_data E sid src c = Inr vals"
    and i: "i = next_id d1"
    and d2: "d2 = record_event OpCreate i
                    (insert_row ((with_forced_number fn vals)\<lparr>state := Draft\<rparr>) d1)"
    by (auto simp: create_invoice_header_result split: option.splits sum.splits if_splits)
  let ?m0 = "(with_forced_number fn vals)\<lparr>state := Draft\<rparr>"
  define m3 where "m3 = completed_mirror E fn vals (next_line_id d) src i c"
  from src i have ne: "sid \<noteq> i" by (auto dest: browse_lt)
  have m0: "browse d2 i = Some ?m0" using d2 i by (simp add: browse_insert_row)
  have o2: "\<forall>k. k \<noteq> i \<longrightarrow> browse d2 k = browse d1 k"
    using d2 i by (simp add: browse_insert_row)
  have n2: "next_id d2 = Suc (next_id d)" using d2 n1 by simp
  have nl2: "next_line_id d2 = next_line_id d"
    using d2 nl1 by (simp add: record_event_def insert_row_def put_def)
  have e2: "events d2 = events d1 @ [Event OpCreate i]" using d2 by simp
  from prepare_invoice_data_fields [OF pv]
  have l0: "invoice_line_ids ?m0 = []" and g0: "auto_generated ?m0" and ms0: "message_ids ?m0 = []"
    by simp_all
  from create_invoice_lines_shape [OF ln m0] obtain src' where
    s2: "browse d2 sid = Some src'" and nob: "first_line_without_product src' = None"
    and b3: "browse d3 i =
             Some (recompute E (?m0\<lparr>invoice_line_ids :=
                     invoice_line_ids ?m0 @ numbered (next_line_id d2) (mirror_lines E src' i c)\<rparr>))"
    and o3: "\<forall>k. k \<noteq> i \<longrightarrow> browse d3 k = browse d2 k"
    and n3: "next_id d3 = next_id d2"
    and e3: "events d3 = events d2 @
               replicate (length (mirror_lines E src' i c)) (Event OpCreateLine i)"
    by blast
  from s2 o2 ne src have same: "src' = src" by simp
  have m3: "browse d3 i = Some m3"
    using b3 l0 same nl2 by (simp add: m3_def completed_mirror_def)
  have len: "length (invoice_line_ids m3) = length (mirror_lines E src i c)"
    by (simp add: m3_def completed_mirror_def recompute_def)
  have h3: "header m3 = header ?m0" by (simp add: m3_def completed_mirror_def header_def recompute_def)
  from header_fields [OF h3] g0 ms0 have g3: "auto_generated m3" and ms3: "message_ids m3 = []"
    by simp_all
  have s3: "browse d3 sid = Some src" using o3 o2 ne src by simp
  have o13: "\<forall>k. k \<noteq> i \<longrightarrow> browse d3 k = browse d1 k" using o3 o2 by simp
  have ev3: "events d3 = events d1 @ Event OpCreate i #
                replicate (length (invoice_line_ids m3)) (Event OpCreateLine i)"
    using e3 e2 same len by simp
  let ?cmp = "float_compare E (amount_total src) (amount_total m3)
                (Precision_digits (account_precision E))"
  have fin: "if invoice_auto_validation c \<and> ?cmp = 0
         then d' = record_event OpPost i (put i (m3\<lparr>state := Posted\<rparr>) d3)
         else if ?cmp \<noteq> 0
         then d' = record_event OpMessage i
                (put i (m3\<lparr>message_ids := message_ids m3 @
                        [TotalMismatchWarning (amount_total m3) (name src)
                           (company_name_of E (company_id src)) (amount_total src)]\<rparr>) d3)
         else d' = d3"
  proof (cases "invoice_auto_validation c \<and> ?cmp = 0")
    case True
    with vl have p: "action_post n E ?ctx [i] d3 = (Inr (), d')"
      by (simp add: validate_or_warn_result [OF s3 m3])
    then obtain n' where "n = Suc n'" by (cases n) (auto simp: action_post.simps raise_def)
    with p action_post_generated [OF m3 g3, of n' E ?ctx] m3 True show ?thesis
      by (auto simp: host_action_post_single split: if_splits)
  next
    case False
    with vl m3 show ?thesis
      by (auto simp: validate_or_warn_result [OF s3 m3] host_message_post_result
          split: if_splits)
  qed
  have nd: "next_id d' = Suc (next_id d)" using fin n3 n2 by (auto split: if_splits)
  have fr: "\<forall>k. k \<noteq> i \<longrightarrow> browse d' k = browse d1 k"
    using fin o13 m3 by (auto simp: browse_put_existing split: if_splits)
  have out: "(if invoice_auto_validation c \<and> ?cmp = 0
         then browse d' i = Some (m3\<lparr>state := Posted\<rparr>) \<and>
              events d' = events d1 @ Event OpCreate i #
                replicate (length (invoice_line_ids m3)) (Event OpCreateLine i) @ [Event OpPost i]
         else if ?cmp \<noteq> 0
         then browse d' i =
                Some (m3\<lparr>message_ids :=
                        [TotalMismatchWarning (amount_total m3) (name src)
                           (company_name_of E (company_id src)) (amount_total src)]\<rparr>) \<and>
              events d' = events d1 @ Event OpCreate i #
                replicate (length (invoice_line_ids m3)) (Event OpCreateLine i) @ [Event OpMessage i]
         else browse d' i = Some m3 \<and>
              events d' = events d1 @ Event OpCreate i #
                replicate (length (invoice_line_ids m3)) (Event OpCreateLine i))"
    using fin m3 ms3 ev3 by (auto simp: browse_put_existing split: if_splits)
  from i n1 have "i = next_id d" by simp
  with nd rc' src nob same pv fr out m3_def show ?thesis by blast
qed

lemma reclaim_keeps_source:
  assumes src: "browse d sid = Some src"
    and le1: "length (existing_mirrors sid c d) \<le> 1"
    and notself: "auto_invoice_id src \<noteq> Some sid"
  shows "\<exists>fn d1 j. reclaim_stale_mirror E ctx sid c d = (Inr fn, d1) \<and>
           (browse d1 sid = Some src \<or> browse d1 sid = Some (clear_reference j src))"
proof (cases "existing_mirrors sid c d")
  case Nil
  with src show ?thesis by (simp add: reclaim_result)
next
  case (Cons r rs)
  with le1 have rs: "rs = []" by simp
  from Cons have "(fst r, snd r) \<in> set (existing_mirrors sid c d)" by simp
  then have "browse d (fst r) = Some (snd r)" "auto_invoice_id (snd r) = Some sid"
    using existing_mirrors_iff [of "fst r" "snd r" sid c d] by simp_all
  with src notself have ne: "sid \<noteq> fst r" by auto
  show ?thesis
  proof (cases "state (snd r) = Draft \<or> state (snd r) = Cancel")
    case True
    with Cons rs src ne show ?thesis
      by (auto simp: reclaim_result browse_delete_row)
  next
    case False
    with Cons rs src show ?thesis by (simp add: reclaim_result)
  qed
qed

lemma builder_succeeds:
  assumes src: "browse d sid = Some src"
    and chk: "fst (check_intercompany_product E src c d) = Inr ()"
    and le1: "length (existing_mirrors sid c d) \<le> 1"
    and notself: "auto_invoice_id src \<noteq> Some sid"
    and jr: "prepare_invoice_data E sid src c = Inr vals"
    and nob: "first_line_without_product src = None"
    and host: "\<forall>op m. host_allows E op m"
  shows "fst (inter_company_create_invoice_body (action_post (Suc n)) E ctx sid c d) =
           Inr (next_id d)"
proof -
  let ?ctx = "ctx\<lparr>check_move_validity := False\<rparr>"
  from chk have x: "check_intercompany_product E src c d = (Inr (), d)"
    using check_intercompany_product_pure [of E src c d] by auto
  from reclaim_keeps_source [OF src le1 notself, of E ?ctx]
  obtain fn d1 s1 where r: "reclaim_stale_mirror E ?ctx sid c d = (Inr fn, d1)"
    and s1: "browse d1 sid = Some s1"
    and b1: "first_line_without_product s1 = None"
    and j1: "prepare_invoice_data E sid s1 c = Inr vals"
    using nob jr by auto
  have n1: "next_id d1 = next_id d" using reclaim_next_id [OF r] .
  let ?m0 = "(with_forced_number fn vals)\<lparr>state := Draft\<rparr>"
  let ?i = "next_id d1"
  let ?d2 = "record_event OpCreate ?i (insert_row ?m0 d1)"
  from s1 j1 host have h: "create_invoice_header E sid c fn d1 = (Inr ?i, ?d2)"
    by (simp add: create_invoice_header_result)
  from s1 have ne: "sid \<noteq> ?i" by (auto dest: browse_lt)
  have s2: "browse ?d2 sid = Some s1" using s1 ne by (simp add: browse_insert_row)
  have m0: "browse ?d2 ?i = Some ?m0" by (simp add: browse_insert_row)
  from host have hl: "\<forall>m. host_allows E OpCreateLine m" by simp
  from create_invoice_lines_succeeds [OF s2 b1 _ hl, of ?i c] m0
  obtain d3 where l: "create_invoice_lines E sid ?i c ?d2 = (Inr (), d3)"
    by (cases "create_invoice_lines E sid ?i c ?d2") auto
  from create_invoice_lines_shape [OF l m0] obtain m3 where m3: "browse d3 ?i = Some m3"
    and h3: "header m3 = header ?m0"
    and o3: "\<forall>k. k \<noteq> ?i \<longrightarrow> browse d3 k = browse ?d2 k"
    by auto
  from o3 s2 ne have s3: "browse d3 sid = Some s1" by simp
  from prepare_invoice_data_fields(1) [OF j1] header_fields(3) [OF h3]
  have g3: "auto_generated m3" by simp
  have "fst (validate_or_warn (action_post (Suc n)) E ?ctx sid ?i c d3) = Inr ()"
    using host m3
    by (simp add: validate_or_warn_result [OF s3 m3] action_post_generated [OF m3 g3]
        host_action_post_single host_message_post_result)
  then obtain d' where v: "validate_or_warn (action_post (Suc n)) E ?ctx sid ?i c d3 = (Inr (), d')"
    by (cases "validate_or_warn (action_post (Suc n)) E ?ctx sid ?i c d3") auto
  from src x r h l v n1 show ?thesis
    by (simp add: inter_company_create_invoice_body_def Let_def read_def ok_def bind_def)
qed

section \<open>Validation of the mirror\<close>

lemma completed_mirror_fields [simp]:
  "state (completed_mirror E fn vals k src i c) = Draft"
  "message_ids (completed_mirror E fn vals k src i c) = message_ids vals"
  "auto_generated (completed_mirror E fn vals k src i c) = auto_generated vals"
  "auto_invoice_id (completed_mirror E fn vals k src i c) = auto_invoice_id vals"
  "company_id (completed_mirror E fn vals k src i c) = company_id vals"
  "name (completed_mirror E fn vals k src i c) = name (with_forced_number fn vals)"
  by (simp_all add: completed_mirror_def recompute_def)

text \<open>A build for a pair that has no mirror yet.\<close>

lemma builder_fresh:
  assumes run: "inter_company_create_invoice_body (action_post n) E ctx sid c d = (Inr i, d')"
    and none: "existing_mirrors sid c d = []"
    and src: "browse d sid = Some src"
    and pv: "prepare_invoice_data E sid src c = Inr vals"
  shows "i = next_id d \<and> (\<forall>k. k \<noteq> i \<longrightarrow> browse d' k = browse d k) \<and>
         browse d' i =
           Some (if invoice_auto_validation c \<and>
                    float_compare E (amount_total src)
                      (amount_total (completed_mirror E None vals (next_line_id d) src i c))
                      (Precision_digits (account_precision E)) = 0
                 then (completed_mirror E None vals (next_line_id d) src i c)\<lparr>state := Posted\<rparr>
                 else if float_compare E (amount_total src)
                      (amount_total (completed_mirror E None vals (next_line_id d) src i c))
                      (Precision_digits (account_precision E)) \<noteq> 0
                 then (completed_mirror E None vals (next_line_id d) src i c)
                        \<lparr>message_ids :=
                           [TotalMismatchWarning
                              (amount_total (completed_mirror E None vals (next_line_id d) src i c))
                              (name src) (company_name_of E (company_id src)) (amount_total src)]\<rparr>
                 else completed_mirror E None vals (next_line_id d) src i c)"
proof -
  from none have rr: "reclaim_stale_mirror E ctx sid c d = (Inr None, d)"
    by (simp add: reclaim_result)
  from builder_shape [OF run] rr src pv show ?thesis
    by (auto split: if_splits)
qed

lemma amount_total_completed_mirror:
  "amount_total (completed_mirror E fn vals k src i c) =
     snd (compute_amounts E (company_id vals) (numbered k (mirror_lines E src i c)))"
  by (simp add: completed_mirror_def recompute_def)

lemma line_total_numbered: "map line_total (numbered k ls) = map line_total ls"
  by (induction ls arbitrary: k) (simp_all add: line_total_def)

lemma line_total_mirror_lines:
  "map line_total (mirror_lines E src i c) =
     map line_total (filter (\<lambda>x. display_type x = []) (invoice_line_ids src))"
  by (simp add: mirror_lines_def prepare_account_move_line_def Let_def line_total_def)

lemma compute_amounts_E0:
  "snd (compute_amounts E0 cid (numbered k (mirror_lines E0 src i c))) =
     sum_list (map line_total (filter (\<lambda>x. display_type x = []) (invoice_line_ids src)))"
  by (simp add: E0_def line_total_numbered line_total_mirror_lines)

text \<open>
  Claim C3, amended. After a successful build, the mirror is posted if and only if
  the destination company validates automatically and the totals of the source and
  of the mirror compare equal at the precision named Account. Otherwise the mirror is
  a draft. The warning note, with both totals, the number of the source and the name
  of its company, is on the mirror if and only if the totals compare different; a
  draft whose totals compare equal (the company does not validate automatically)
  carries no note.
\<close>

theorem mirror_posted_iff_totals_match:
  assumes "inter_company_create_invoice n E ctx sid c d = (Inr i, d')"
  shows "\<exists>src mirror.
           browse d' sid = Some src \<and> browse d' i = Some mirror \<and>
           ((state mirror = Posted) =
              (invoice_auto_validation c \<and>
               float_compare E (amount_total src) (amount_total mirror)
                 (Precision_digits (account_precision E)) = 0)) \<and>
           ((state mirror = Draft) =
              (\<not> (invoice_auto_validation c \<and>
                  float_compare E (amount_total src) (amount_total mirror)
                    (Precision_digits (account_precision E)) = 0))) \<and>
           message_ids mirror =
             (if float_compare E (amount_total src) (amount_total mirror)
                   (Precision_digits (account_precision E)) \<noteq> 0
              then [TotalMismatchWarning (amount_total mirror) (name src)
                      (company_name_of E (company_id src)) (amount_total src)]
              else [])"
proof -
  from assms have run: "inter_company_create_invoice_body (action_post n) E ctx sid c d = (Inr i, d')"
    by (simp add: inter_company_create_invoice_def)
  from builder_shape [OF run] obtain fn d1 src vals m3 where
    i: "i = next_id d" and rc: "reclaim_stale_mirror E ctx sid c d = (Inr fn, d1)"
    and src: "browse d1 sid = Some src"
    and pv: "prepare_invoice_data E sid src c = Inr vals"
    and m3: "m3 = completed_mirror E fn vals (next_line_id d) src i c"
    and fr: "\<forall>k. k \<noteq> i \<longrightarrow> browse d' k = browse d1 k"
    and out: "if invoice_auto_validation c \<and>
            float_compare E (amount_total src) (amount_total m3)
              (Precision_digits (account_precision E)) = 0
         then browse d' i = Some (m3\<lparr>state := Posted\<rparr>) \<and>
              events d' = events d1 @ Event OpCreate i #
                replicate (length (invoice_line_ids m3)) (Event OpCreateLine i) @ [Event OpPost i]
         else if float_compare E (amount_total src) (amount_total m3)
                   (Precision_digits (account_precision E)) \<noteq> 0
         then browse d' i =
                Some (m3\<lparr>message_ids :=
                        [TotalMismatchWarning (amount_total m3) (name src)
                           (company_name_of E (company_id src)) (amount_total src)]\<rparr>) \<and>
              events d' = events d1 @ Event OpCreate i #
                replicate (length (invoice_line_ids m3)) (Event OpCreateLine i) @ [Event OpMessage i]
         else browse d' i = Some m3 \<and>
              events d' = events d1 @ Event OpCreate i #
                replicate (length (invoice_line_ids m3)) (Event OpCreateLine i)"
    by blast
  from src reclaim_next_id [OF rc] i have ne: "sid \<noteq> i" by (auto dest: browse_lt)
  with fr src have s': "browse d' sid = Some src" by simp
  from prepare_invoice_data_fields(6) [OF pv] m3 have ms: "message_ids m3 = []" and st: "state m3 = Draft"
    by simp_all
  let ?cmp = "float_compare E (amount_total src) (amount_total m3)
                (Precision_digits (account_precision E))"
  show ?thesis
  proof (cases "invoice_auto_validation c \<and> ?cmp = 0")
    case True
    with out have "browse d' i = Some (m3\<lparr>state := Posted\<rparr>)" by simp
    with s' True ms show ?thesis
      by (intro exI [of _ src] exI [of _ "m3\<lparr>state := Posted\<rparr>"]) simp
  next
    case False
    show ?thesis
    proof (cases "?cmp = 0")
      case True
      with False out have "browse d' i = Some m3" by simp
      with s' True False ms st show ?thesis
        by (intro exI [of _ src] exI [of _ m3]) simp
    next
      case nz: False
      let ?m = "m3\<lparr>message_ids :=
                        [TotalMismatchWarning (amount_total m3) (name src)
                           (company_name_of E (company_id src)) (amount_total src)]\<rparr>"
      from nz out have "browse d' i = Some ?m" by simp
      with s' nz st show ?thesis
        by (intro exI [of _ src] exI [of _ ?m]) simp
    qed
  qed
qed


lemma check_intercompany_product_E0:
  "fst (check_intercompany_product E0 src c d) = Inr ()"
proof -
  have "for_each (check_line_product E0 c) ls d = (Inr (), d)" for ls
    by (induction ls) (simp_all add: check_line_product_def E0_def ok_def split: option.splits)
  then show ?thesis by (simp add: check_intercompany_product_def ok_def)
qed

lemma host_allows_E0: "\<forall>op m. host_allows E0 op m"
  by (simp add: E0_def)

lemma float_compare_E0_same:
  "float_compare E0 200 200 (Precision_digits (account_precision E0)) = 0"
  by (simp add: E0_def float_compare_rat_def float_is_zero_def float_round_def
      rounding_factor_def Let_def)

lemma browse_db_S: "browse db_S (Suc 0) = Some invoice_S"
  by (simp add: browse_def db_S_def table_def)

lemma rows_db_S: "rows db_S = [(1, invoice_S)]"
  by (simp add: rows_def List.map_filter_def browse_def db_S_def table_def upt_rec)

lemma prepare_invoice_data_S_B:
  "\<exists>vals. prepare_invoice_data E0 sid invoice_S company_B = Inr vals"
  by (simp add: prepare_invoice_data_def get_destination_journal_type_def MAP_JOURNAL_TYPE_def
      invoice_S_def E0_def company_B_def Let_def)

lemma first_line_without_product_S: "first_line_without_product invoice_S = None"
  by (simp add: first_line_without_product_def invoice_S_def line_P_def)

lemma browse_db_U: "browse db_U (Suc 0) = Some invoice_U"
  by (simp add: browse_def db_U_def table_def)

lemma rows_db_U: "rows db_U = [(1, invoice_U)]"
  by (simp add: rows_def List.map_filter_def browse_def db_U_def table_def upt_rec)

lemma build_U_succeeds:
  "fst (inter_company_create_invoice_body (action_post (Suc n)) E0 ctx (Suc 0) company_C db_U) = Inr 2"
proof -
  have chk: "fst (check_intercompany_product E0 invoice_U company_C db_U) = Inr ()"
    by (simp add: check_intercompany_product_def company_C_def ok_def)
  have none: "length (existing_mirrors (Suc 0) company_C db_U) \<le> 1"
    by (simp add: existing_mirrors_def search_def rows_db_U invoice_U_def invoice_S_def)
  have notself: "auto_invoice_id invoice_U \<noteq> Some (Suc 0)"
    by (simp add: invoice_U_def invoice_S_def)
  obtain vals where jr: "prepare_invoice_data E0 (Suc 0) invoice_U company_C = Inr vals"
    by (simp add: prepare_invoice_data_def get_destination_journal_type_def MAP_JOURNAL_TYPE_def
        invoice_U_def invoice_S_def E0_def company_C_def Let_def)
  have nob: "first_line_without_product invoice_U = None"
    by (simp add: first_line_without_product_def invoice_U_def invoice_S_def line_P_def)
  have host: "\<forall>op m. host_allows E0 op m" by (simp add: E0_def)
  from builder_succeeds [OF browse_db_U chk none notself jr nob host, of n ctx]
  show ?thesis by (simp add: db_U_def)
qed

text \<open>
  Claim C3 as stated fails: C does not validate automatically and the totals of the
  source and of the mirror are both 200. The mirror stays a draft, and no warning
  note is posted on it.
\<close>

theorem draft_mirror_without_warning_counterexample:
  "\<not> invoice_auto_validation company_C \<and>
   fst (inter_company_create_invoice 2 E0 user_context 1 company_C db_U) = Inr 2 \<and>
   map_option (\<lambda>m. (state m, amount_total m, message_ids m))
     (browse (snd (inter_company_create_invoice 2 E0 user_context 1 company_C db_U)) 2) =
     Some (Draft, amount_total invoice_U, [])"
proof -
  define d' where "d' = snd (inter_company_create_invoice_body (action_post 2) E0 user_context
                              (Suc 0) company_C db_U)"
  from build_U_succeeds [of "Suc 0" user_context]
  have f: "fst (inter_company_create_invoice_body (action_post 2) E0 user_context
                              (Suc 0) company_C db_U) = Inr 2"
    by (simp add: numeral_2_eq_2)
  then have run: "inter_company_create_invoice_body (action_post 2) E0 user_context
                              (Suc 0) company_C db_U = (Inr 2, d')"
    by (simp add: d'_def prod_eq_iff)
  have none: "existing_mirrors (Suc 0) company_C db_U = []"
    by (simp add: existing_mirrors_def search_def rows_db_U invoice_U_def invoice_S_def)
  obtain vals where jr: "prepare_invoice_data E0 (Suc 0) invoice_U company_C = Inr vals"
    by (simp add: prepare_invoice_data_def get_destination_journal_type_def MAP_JOURNAL_TYPE_def
        invoice_U_def invoice_S_def E0_def company_C_def Let_def)
  have tot: "amount_total (completed_mirror E0 None vals (next_line_id db_U) invoice_U 2 company_C) = 200"
    by (simp add: amount_total_completed_mirror compute_amounts_E0 invoice_U_def invoice_S_def
        line_P_def line_total_def)
  have src_tot: "amount_total invoice_U = 200" by (simp add: invoice_U_def invoice_S_def)
  have cmp: "float_compare E0 200 200 (Precision_digits (account_precision E0)) = 0"
    by (simp add: E0_def float_compare_rat_def float_is_zero_def float_round_def
        rounding_factor_def Let_def)
  have nv: "\<not> invoice_auto_validation company_C" by (simp add: company_C_def)
  from prepare_invoice_data_fields(6) [OF jr] have ms: "message_ids vals = []" .
  from builder_fresh [OF run none browse_db_U jr] tot src_tot cmp nv
  have "browse d' 2 = Some (completed_mirror E0 None vals (next_line_id db_U) invoice_U 2 company_C)"
    by simp
  with tot ms src_tot
  have "map_option (\<lambda>m. (state m, amount_total m, message_ids m)) (browse d' 2) =
          Some (Draft, amount_total invoice_U, [])"
    by simp
  with nv f show ?thesis by (simp add: inter_company_create_invoice_def d'_def)
qed


theorem mirror_posted_iff_totals_match_witness:
  "fst (inter_company_create_invoice 2 E0 user_context 1 company_B db_S) = Inr 2 \<and>
   invoice_auto_validation company_B \<and>
   map_option (\<lambda>m. (state m, amount_total m, message_ids m))
     (browse (snd (inter_company_create_invoice 2 E0 user_context 1 company_B db_S)) 2) =
     Some (Posted, amount_total invoice_S, [])"
proof -
  define d' where "d' = snd (inter_company_create_invoice 2 E0 user_context 1 company_B db_S)"
  have none: "existing_mirrors (Suc 0) company_B db_S = []"
    by (simp add: existing_mirrors_def search_def rows_db_S invoice_S_def)
  have notself: "auto_invoice_id invoice_S \<noteq> Some (Suc 0)" by (simp add: invoice_S_def)
  obtain vals where jr: "prepare_invoice_data E0 (Suc 0) invoice_S company_B = Inr vals"
    using prepare_invoice_data_S_B by blast
  have chk: "fst (check_intercompany_product E0 invoice_S company_B db_S) = Inr ()"
    by (rule check_intercompany_product_E0)
  have le1: "length (existing_mirrors (Suc 0) company_B db_S) \<le> 1" using none by simp
  from builder_succeeds [OF browse_db_S chk le1 notself jr
      first_line_without_product_S host_allows_E0, of "Suc 0" user_context]
  have f: "fst (inter_company_create_invoice 2 E0 user_context 1 company_B db_S) = Inr 2"
    by (simp add: inter_company_create_invoice_def numeral_2_eq_2 db_S_def)
  then have run: "inter_company_create_invoice 2 E0 user_context 1 company_B db_S = (Inr 2, d')"
    by (simp add: d'_def prod_eq_iff)
  have av: "invoice_auto_validation company_B" by (simp add: company_B_def)
  have src_tot: "amount_total invoice_S = 200" by (simp add: invoice_S_def)
  have tot: "amount_total (completed_mirror E0 None vals (next_line_id db_S) invoice_S 2 company_B) = 200"
    by (simp add: amount_total_completed_mirror compute_amounts_E0 invoice_S_def
        line_P_def line_total_def)
  from run have run': "inter_company_create_invoice_body (action_post 2) E0 user_context
                         (Suc 0) company_B db_S = (Inr 2, d')"
    by (simp add: inter_company_create_invoice_def)
  from builder_fresh [OF run' none browse_db_S jr] tot src_tot float_compare_E0_same av
  have b2: "browse d' 2 =
              Some ((completed_mirror E0 None vals (next_line_id db_S) invoice_S 2 company_B)
                      \<lparr>state := Posted\<rparr>)"
    and b1: "browse d' (Suc 0) = Some invoice_S"
    using browse_db_S by simp_all
  from mirror_posted_iff_totals_match [OF run] b1 b2
  have "(state ((completed_mirror E0 None vals (next_line_id db_S) invoice_S 2 company_B)
                      \<lparr>state := Posted\<rparr>) = Posted) =
          (invoice_auto_validation company_B \<and>
             float_compare E0 (amount_total invoice_S)
               (amount_total ((completed_mirror E0 None vals (next_line_id db_S) invoice_S 2 company_B)
                      \<lparr>state := Posted\<rparr>))
               (Precision_digits (account_precision E0)) = 0) \<and>
        message_ids ((completed_mirror E0 None vals (next_line_id db_S) invoice_S 2 company_B)
                      \<lparr>state := Posted\<rparr>) =
          (if float_compare E0 (amount_total invoice_S)
               (amount_total ((completed_mirror E0 None vals (next_line_id db_S) invoice_S 2 company_B)
                      \<lparr>state := Posted\<rparr>))
               (Precision_digits (account_precision E0)) \<noteq> 0
           then [TotalMismatchWarning
                   (amount_total ((completed_mirror E0 None vals (next_line_id db_S) invoice_S 2 company_B)
                      \<lparr>state := Posted\<rparr>))
                   (name invoice_S) (company_name_of E0 (company_id invoice_S))
                   (amount_total invoice_S)]
           else [])"
    by auto
  with tot src_tot float_compare_E0_same b2
  have "map_option (\<lambda>m. (state m, amount_total m, message_ids m)) (browse d' 2) =
          Some (Posted, amount_total invoice_S, [])"
    by simp
  with f av show ?thesis by (simp add: d'_def)
qed

section \<open>Reuse of the number of a stale mirror\<close>

lemma build_succeeds_E0_B:
  assumes "browse d sid = Some src" and "length (existing_mirrors sid company_B d) \<le> 1"
    and "auto_invoice_id src \<noteq> Some sid" and "move_type src = ''out_invoice''"
    and "first_line_without_product src = None"
  shows "fst (inter_company_create_invoice (Suc n) E0 ctx sid company_B d) = Inr (next_id d)"
proof -
  have chk: "fst (check_intercompany_product E0 src company_B d) = Inr ()"
    by (rule check_intercompany_product_E0)
  obtain vals where jr: "prepare_invoice_data E0 sid src company_B = Inr vals"
    using assms(4)
    by (simp add: prepare_invoice_data_def get_destination_journal_type_def MAP_JOURNAL_TYPE_def
        E0_def company_B_def Let_def)
  from builder_succeeds [OF assms(1) chk assms(2,3) jr assms(5) host_allows_E0, of n ctx]
  show ?thesis by (simp add: inter_company_create_invoice_def)
qed

text \<open>What a run of the builder that returns has done with the one mirror it found,
  whatever the ledger accepts or refuses.\<close>

lemma stale_mirror_shape:
  assumes run: "inter_company_create_invoice n E ctx sid c d = (Inr i, d')"
    and one: "existing_mirrors sid c d = [(j, old)]"
  shows "(state old = Draft \<or> state old = Cancel \<longrightarrow>
            browse d' j = None \<and>
            (\<exists>evs. events d' = events d @ Event OpUnlink j # Event OpCreate i # evs) \<and>
            (\<exists>mirror. browse d' i = Some mirror \<and>
               name mirror = (if name old \<noteq> [] then name old else form_default_name E)))
       \<and> (state old = Posted \<longrightarrow>
            browse d' j = Some old \<and>
            (\<exists>evs. events d' = events d @ Event OpCreate i # evs \<and>
                   (\<forall>k. Event OpUnlink k \<notin> set evs)) \<and>
            (\<exists>mirror. browse d' i = Some mirror \<and> name mirror = form_default_name E))"
proof -
  from run have run': "inter_company_create_invoice_body (action_post n) E ctx sid c d = (Inr i, d')"
    by (simp add: inter_company_create_invoice_def)
  from builder_shape [OF run'] obtain fn d1 src vals m3 where
    i: "i = next_id d" and rc: "reclaim_stale_mirror E ctx sid c d = (Inr fn, d1)"
    and pv: "prepare_invoice_data E sid src c = Inr vals"
    and m3: "m3 = completed_mirror E fn vals (next_line_id d) src i c"
    and fr: "\<forall>k. k \<noteq> i \<longrightarrow> browse d' k = browse d1 k"
    and out: "if invoice_auto_validation c \<and>
            float_compare E (amount_total src) (amount_total m3)
              (Precision_digits (account_precision E)) = 0
         then browse d' i = Some (m3\<lparr>state := Posted\<rparr>) \<and>
              events d' = events d1 @ Event OpCreate i #
                replicate (length (invoice_line_ids m3)) (Event OpCreateLine i) @ [Event OpPost i]
         else if float_compare E (amount_total src) (amount_total m3)
                   (Precision_digits (account_precision E)) \<noteq> 0
         then browse d' i =
                Some (m3\<lparr>message_ids :=
                        [TotalMismatchWarning (amount_total m3) (name src)
                           (company_name_of E (company_id src)) (amount_total src)]\<rparr>) \<and>
              events d' = events d1 @ Event OpCreate i #
                replicate (length (invoice_line_ids m3)) (Event OpCreateLine i) @ [Event OpMessage i]
         else browse d' i = Some m3 \<and>
              events d' = events d1 @ Event OpCreate i #
                replicate (length (invoice_line_ids m3)) (Event OpCreateLine i)"
    by blast
  from one have "(j, old) \<in> set (existing_mirrors sid c d)" by simp
  then have bj: "browse d j = Some old" by (simp add: existing_mirrors_iff)
  with i have ji: "j \<noteq> i" by (auto dest: browse_lt)
  let ?cmp = "float_compare E (amount_total src) (amount_total m3)
                (Precision_digits (account_precision E))"
  let ?ls = "replicate (length (invoice_line_ids m3)) (Event OpCreateLine i)"
  have "\<exists>mirror evs. browse d' i = Some mirror \<and> name mirror = name m3 \<and>
          events d' = events d1 @ Event OpCreate i # evs \<and>
          (\<forall>k. Event OpUnlink k \<notin> set evs)"
  proof (cases "invoice_auto_validation c \<and> ?cmp = 0")
    case True
    with out have "browse d' i = Some (m3\<lparr>state := Posted\<rparr>)"
      and "events d' = events d1 @ Event OpCreate i # (?ls @ [Event OpPost i])"
      by simp_all
    then show ?thesis
      by (intro exI [of _ "m3\<lparr>state := Posted\<rparr>"] exI [of _ "?ls @ [Event OpPost i]"]) simp
  next
    case False
    show ?thesis
    proof (cases "?cmp = 0")
      case True
      with False out have "browse d' i = Some m3"
        and "events d' = events d1 @ Event OpCreate i # ?ls"
        by simp_all
      then show ?thesis by (intro exI [of _ m3] exI [of _ ?ls]) simp
    next
      case nz: False
      let ?m = "m3\<lparr>message_ids :=
                        [TotalMismatchWarning (amount_total m3) (name src)
                           (company_name_of E (company_id src)) (amount_total src)]\<rparr>"
      from nz out have "browse d' i = Some ?m"
        and "events d' = events d1 @ Event OpCreate i # (?ls @ [Event OpMessage i])"
        by simp_all
      then show ?thesis
        by (intro exI [of _ ?m] exI [of _ "?ls @ [Event OpMessage i]"]) simp
    qed
  qed
  then obtain mirror evs where mi: "browse d' i = Some mirror"
    and nm: "name mirror = name m3"
    and ev: "events d' = events d1 @ Event OpCreate i # evs"
    and nu: "\<forall>k. Event OpUnlink k \<notin> set evs"
    by blast
  from prepare_invoice_data_fields(7) [OF pv] m3
  have n3: "name m3 = (case fn of None \<Rightarrow> form_default_name E
                       | Some x \<Rightarrow> if x \<noteq> [] then x else form_default_name E)"
    by (simp add: with_forced_number_def split: option.splits)
  show ?thesis
  proof (intro conjI impI)
    assume st: "state old = Draft \<or> state old = Cancel"
    with rc one have fn: "fn = Some (name old)"
      and d1: "d1 = record_event OpUnlink j (delete_row j d)"
      by (auto simp: reclaim_result)
    from fr ji d1 show "browse d' j = None" by (simp add: browse_delete_row)
    from ev d1 show "\<exists>evs. events d' = events d @ Event OpUnlink j # Event OpCreate i # evs"
      by simp
    from mi nm n3 fn
    show "\<exists>mirror. browse d' i = Some mirror \<and>
               name mirror = (if name old \<noteq> [] then name old else form_default_name E)"
      by simp
  next
    assume st: "state old = Posted"
    with rc one have fn: "fn = None" and d1: "d1 = d"
      by (auto simp: reclaim_result)
    from fr ji d1 bj show "browse d' j = Some old" by simp
    from ev nu d1 show "\<exists>evs. events d' = events d @ Event OpCreate i # evs \<and>
                   (\<forall>k. Event OpUnlink k \<notin> set evs)"
      by auto
    from mi nm n3 fn
    show "\<exists>mirror. browse d' i = Some mirror \<and> name mirror = form_default_name E"
      by simp
  qed
qed


lemma rows_db_SD:
  "rows db_SD = [(1, invoice_S\<lparr> state := Posted \<rparr>), (2, mirror_M\<lparr> state := Draft \<rparr>)]"
  by (simp add: rows_def List.map_filter_def browse_def db_SD_def table_def upt_rec)

lemma browse_db_SD: "browse db_SD (Suc 0) = Some (invoice_S\<lparr> state := Posted \<rparr>)"
  by (simp add: browse_def db_SD_def table_def)

lemma browse_db_SM: "browse db_SM (Suc 0) = Some (invoice_S\<lparr> state := Posted \<rparr>)"
  by (simp add: browse_def db_SM_def table_def)

lemma rows_db_SC:
  "rows db_SC = [(1, invoice_S\<lparr> state := Posted \<rparr>), (2, mirror_M\<lparr> state := Cancel \<rparr>)]"
  by (simp add: rows_def List.map_filter_def browse_def db_SC_def table_def upt_rec)

lemma browse_db_SC: "browse db_SC (Suc 0) = Some (invoice_S\<lparr> state := Posted \<rparr>)"
  by (simp add: browse_def db_SC_def table_def)

lemma prepare_invoice_data_posted_S_B:
  "\<exists>vals. prepare_invoice_data E0 sid (invoice_S\<lparr> state := Posted \<rparr>) company_B = Inr vals"
  by (simp add: prepare_invoice_data_def get_destination_journal_type_def MAP_JOURNAL_TYPE_def
      invoice_S_def E0_def company_B_def Let_def)

text \<open>The builder of depth 2 on a database of three rows at most, the source being
  row 1 as posted and row 2 the one mirror found.\<close>

lemma stale_mirror_example:
  assumes one: "existing_mirrors (Suc 0) company_B d = [(2, old)]"
    and src: "browse d (Suc 0) = Some (invoice_S\<lparr> state := Posted \<rparr>)"
    and run: "inter_company_create_invoice (Suc (Suc 0)) E0 user_context (Suc 0) company_B d =
                (Inr i, d')"
  shows "inter_company_create_invoice 2 E0 user_context 1 company_B d = (Inr (next_id d), d')"
proof -
  have f: "auto_invoice_id (invoice_S\<lparr> state := Posted \<rparr>) \<noteq> Some (Suc 0)"
    "move_type (invoice_S\<lparr> state := Posted \<rparr>) = ''out_invoice''"
    "first_line_without_product (invoice_S\<lparr> state := Posted \<rparr>) = None"
    by (simp_all add: invoice_S_def first_line_without_product_def line_P_def)
  from one have le1: "length (existing_mirrors (Suc 0) company_B d) \<le> 1" by simp
  from build_succeeds_E0_B [OF src le1 f, of "Suc 0" user_context] run
  show ?thesis by (simp add: numeral_2_eq_2)
qed


section \<open>Posting a batch\<close>

lemma for_each_append:
  "for_each f (xs @ ys) d =
     (case for_each f xs d of (Inl e, d') \<Rightarrow> (Inl e, d') | (Inr u, d') \<Rightarrow> for_each f ys d')"
  by (induction xs arbitrary: d) (auto split: prod.splits sum.splits)

lemma no_pair_in_list: "(xs = []) = (\<forall>k m. (k, m) \<notin> set xs)"
proof (cases xs)
  case Nil
  then show ?thesis by simp
next
  case (Cons x ys)
  then have "(fst x, snd x) \<in> set xs" by simp
  with Cons show ?thesis by blast
qed

lemma existing_mirrors_empty:
  "(existing_mirrors s c d = []) =
     (\<forall>k m. browse d k = Some m \<longrightarrow>
            \<not> (auto_invoice_id m = Some s \<and> company_id m = company_ident c))"
  unfolding no_pair_in_list [of "existing_mirrors s c d"] existing_mirrors_iff by blast

lemma posted_mirrors_iff:
  "((k, m) \<in> set (posted_mirrors s c d)) =
     (browse d k = Some m \<and> auto_invoice_id m = Some s \<and> company_id m = c \<and> state m = Posted)"
  by (simp add: posted_mirrors_def search_iff)

lemma posted_mirrors_empty:
  "(posted_mirrors s c d = []) =
     (\<forall>k m. browse d k = Some m \<longrightarrow>
            \<not> (auto_invoice_id m = Some s \<and> company_id m = c \<and> state m = Posted))"
  unfolding no_pair_in_list [of "posted_mirrors s c d"] posted_mirrors_iff by blast

text \<open>The ledger's posting of a recordset changes the state of its rows and nothing
  else.\<close>

lemma host_action_post_shape:
  assumes "host_action_post E ids d = (Inr u, d1)"
  shows "next_id d1 = next_id d \<and> next_line_id d1 = next_line_id d \<and>
         (\<forall>k. browse d1 k =
               map_option (\<lambda>m. if k \<in> set ids then m\<lparr>state := Posted\<rparr> else m) (browse d k)) \<and>
         (\<forall>i\<in>set ids. browse d i \<noteq> None) \<and>
         events d1 = events d @ map (Event OpPost) ids"
  using assms
proof (induction ids arbitrary: d)
  case Nil
  then show ?case by (simp add: host_action_post_def option.map_ident)
next
  case (Cons i ids)
  from Cons.prems obtain m where m: "browse d i = Some m"
    and r: "host_action_post E ids (record_event OpPost i (put i (m\<lparr>state := Posted\<rparr>) d)) = (Inr u, d1)"
    by (auto simp: host_action_post_def host_update_cases split: option.splits if_splits)
  let ?d0 = "record_event OpPost i (put i (m\<lparr>state := Posted\<rparr>) d)"
  from Cons.IH [OF r] have n: "next_id d1 = next_id ?d0" and nl: "next_line_id d1 = next_line_id ?d0"
    and b: "\<forall>k. browse d1 k =
               map_option (\<lambda>m. if k \<in> set ids then m\<lparr>state := Posted\<rparr> else m) (browse ?d0 k)"
    and ex: "\<forall>i\<in>set ids. browse ?d0 i \<noteq> None"
    and ev: "events d1 = events ?d0 @ map (Event OpPost) ids"
    by blast+
  have "\<forall>k. browse d1 k =
               map_option (\<lambda>m. if k \<in> set (i # ids) then m\<lparr>state := Posted\<rparr> else m) (browse d k)"
  proof
    fix k
    show "browse d1 k =
               map_option (\<lambda>m. if k \<in> set (i # ids) then m\<lparr>state := Posted\<rparr> else m) (browse d k)"
      using b [rule_format, of k] m
      by (cases "browse d k") (auto simp: browse_put_existing)
  qed
  moreover have "\<forall>j\<in>set (i # ids). browse d j \<noteq> None"
    using ex m by (auto simp: browse_put_existing split: if_splits)
  moreover have "next_id d1 = next_id d" using n by simp
  moreover have "next_line_id d1 = next_line_id d"
    using nl by (simp add: record_event_def put_def)
  moreover have "events d1 = events d @ map (Event OpPost) (i # ids)" using ev by simp
  ultimately show ?case by blast
qed

lemma host_action_post_succeeds:
  assumes "\<forall>m. host_allows E OpPost m" and "\<forall>i\<in>set ids. browse d i \<noteq> None"
  shows "fst (host_action_post E ids d) = Inr ()"
  using assms(2)
proof (induction ids arbitrary: d)
  case Nil
  then show ?case by (simp add: host_action_post_def)
next
  case (Cons i ids)
  from Cons.prems obtain m where m: "browse d i = Some m" by auto
  let ?d0 = "record_event OpPost i (put i (m\<lparr>state := Posted\<rparr>) d)"
  from Cons.prems m have "\<forall>j\<in>set ids. browse ?d0 j \<noteq> None"
    by (auto simp: browse_put_existing)
  from Cons.IH [OF this] m assms(1) show ?case
    by (simp add: host_action_post_def host_update_cases)
qed

lemma mirror_document_builds:
  assumes "browse d sid = Some src" and "find_company_from_invoice_partner E src = Some c"
    and "\<not> auto_generated src" and "posted_mirrors sid (company_ident c) d = []"
  shows "mirror_document builder E ctx sid d =
           (case builder E (intercompany_context ctx c) sid c d of
              (Inl e, d') \<Rightarrow> (Inl e, d')
            | (Inr i, d') \<Rightarrow> (Inr (), d'))"
  using assms by (simp add: mirror_document_def read_def bind_def ok_def split: prod.splits sum.splits)

lemma action_post_unfold:
  "action_post (Suc n) E ctx ids d =
     (case host_action_post E ids d of
        (Inl e, d1) \<Rightarrow> (Inl e, d1)
      | (Inr u, d1) \<Rightarrow>
          (case filtered (\<lambda>x. move_type x \<in> set supported_types) ids d1 of
             (Inl e, d2) \<Rightarrow> (Inl e, d2)
           | (Inr srcs, d2) \<Rightarrow>
               for_each (mirror_document (inter_company_create_invoice n) E ctx) srcs d2))"
  by (simp add: action_post.simps action_post_body_def inter_company_create_invoice_def bind_def
      split: prod.splits sum.splits)

text \<open>A build that stops at a line without product, for a pair that has no mirror
  yet: the header has been created.\<close>

lemma builder_fresh_stops:
  assumes src: "browse d sid = Some src" and bad: "first_line_without_product src = Some l0"
    and chk: "fst (check_intercompany_product E src c d) = Inr ()"
    and none: "existing_mirrors sid c d = []"
    and jr: "prepare_invoice_data E sid src c = Inr vals"
    and host: "\<forall>m. host_allows E OpCreate m"
  shows "inter_company_create_invoice_body post E ctx sid c d =
           (Inl (LineWithoutProduct (line_name l0)),
            record_event OpCreate (next_id d) (insert_row (vals\<lparr>state := Draft\<rparr>) d))"
proof -
  let ?ctx = "ctx\<lparr>check_move_validity := False\<rparr>"
  let ?d2 = "record_event OpCreate (next_id d) (insert_row (vals\<lparr>state := Draft\<rparr>) d)"
  from chk have x: "check_intercompany_product E src c d = (Inr (), d)"
    using check_intercompany_product_pure [of E src c d] by auto
  from none have r: "reclaim_stale_mirror E ?ctx sid c d = (Inr None, d)"
    by (simp add: reclaim_result)
  from src jr host have h: "create_invoice_header E sid c None d = (Inr (next_id d), ?d2)"
    by (simp add: create_invoice_header_result with_forced_number_def)
  from src have "sid \<noteq> next_id d" by (auto dest: browse_lt)
  with src have "browse ?d2 sid = Some src" by (simp add: browse_insert_row)
  from create_invoice_lines_stops [OF this bad]
  have l: "create_invoice_lines E sid (next_id d) c ?d2 =
             (Inl (LineWithoutProduct (line_name l0)), ?d2)" .
  from src x r h l show ?thesis
    by (simp add: inter_company_create_invoice_body_def Let_def read_def ok_def bind_def)
qed

section \<open>A failure inside a batch\<close>

text \<open>The row of the mirror after a successful build.\<close>

lemma builder_mirror_row:
  assumes run: "inter_company_create_invoice_body (action_post n) E ctx sid c d = (Inr i, d')"
  shows "\<exists>m. browse d' i = Some m \<and> auto_generated m \<and> auto_invoice_id m = Some sid \<and>
             company_id m = company_ident c"
proof -
  from builder_shape [OF run] obtain fn d1 src vals m3 where
    rc: "reclaim_stale_mirror E ctx sid c d = (Inr fn, d1)"
    and pv: "prepare_invoice_data E sid src c = Inr vals"
    and m3: "m3 = completed_mirror E fn vals (next_line_id d) src i c"
    and out: "if invoice_auto_validation c \<and>
            float_compare E (amount_total src) (amount_total m3)
              (Precision_digits (account_precision E)) = 0
         then browse d' i = Some (m3\<lparr>state := Posted\<rparr>) \<and>
              events d' = events d1 @ Event OpCreate i #
                replicate (length (invoice_line_ids m3)) (Event OpCreateLine i) @ [Event OpPost i]
         else if float_compare E (amount_total src) (amount_total m3)
                   (Precision_digits (account_precision E)) \<noteq> 0
         then browse d' i =
                Some (m3\<lparr>message_ids :=
                        [TotalMismatchWarning (amount_total m3) (name src)
                           (company_name_of E (company_id src)) (amount_total src)]\<rparr>) \<and>
              events d' = events d1 @ Event OpCreate i #
                replicate (length (invoice_line_ids m3)) (Event OpCreateLine i) @ [Event OpMessage i]
         else browse d' i = Some m3 \<and>
              events d' = events d1 @ Event OpCreate i #
                replicate (length (invoice_line_ids m3)) (Event OpCreateLine i)"
    by blast
  from prepare_invoice_data_fields [OF pv] m3
  have f: "auto_generated m3" "auto_invoice_id m3 = Some sid" "company_id m3 = company_ident c"
    by simp_all
  let ?cmp = "float_compare E (amount_total src) (amount_total m3)
                (Precision_digits (account_precision E))"
  show ?thesis
  proof (cases "invoice_auto_validation c \<and> ?cmp = 0")
    case True
    with out have "browse d' i = Some (m3\<lparr>state := Posted\<rparr>)" by simp
    with f show ?thesis by simp
  next
    case False
    show ?thesis
    proof (cases "?cmp = 0")
      case True
      with False out have "browse d' i = Some m3" by simp
      with f show ?thesis by simp
    next
      case nz: False
      with out have "browse d' i =
                Some (m3\<lparr>message_ids :=
                        [TotalMismatchWarning (amount_total m3) (name src)
                           (company_name_of E (company_id src)) (amount_total src)]\<rparr>)" by simp
      with f show ?thesis by simp
    qed
  qed
qed

text \<open>
  Claim C2, amended. The loop of \<open>action_post\<close> has no handler: when the mirroring of
  a document of the batch raises, after the documents before it have gone through,
  \<open>action_post\<close> ends in that error, in the state reached when it was raised. This
  holds whatever documents come after it: none of them is looked at. At the
  transaction boundary the whole request is rolled back.
\<close>

theorem batch_post_stops_at_first_failure:
  assumes "host_action_post E ids d = (Inr (), d1)"
    and "filtered (\<lambda>x. move_type x \<in> set supported_types) ids d1 =
           (Inr (before @ x # after), d1)"
    and "for_each (mirror_document (inter_company_create_invoice n) E ctx) before d1 = (Inr (), d2)"
    and "mirror_document (inter_company_create_invoice n) E ctx x d2 = (Inl e, d3)"
  shows "action_post (Suc n) E ctx ids d = (Inl e, d3) \<and>
         transaction (action_post (Suc n) E ctx ids) d = (Inl e, d)"
proof -
  from assms(3,4)
  have "for_each (mirror_document (inter_company_create_invoice n) E ctx) (before @ x # after) d1 =
          (Inl e, d3)"
    by (simp add: for_each_append)
  with assms(1,2) have "action_post (Suc n) E ctx ids d = (Inl e, d3)"
    by (simp add: action_post_unfold)
  then show ?thesis by (simp add: transaction_def)
qed

lemma browse_db_TS:
  "browse db_TS k = (if k = Suc 0 then Some invoice_T else if k = 2 then Some invoice_S else None)"
  by (simp add: browse_def db_TS_def table_def)

lemma invoice_T_fields:
  "auto_invoice_id invoice_T = None" "\<not> auto_generated invoice_T"
  "move_type invoice_T = ''out_invoice''" "commercial_partner_id invoice_T = Some 20"
  "first_line_without_product invoice_T = Some line_no_product"
  by (simp_all add: invoice_T_def invoice_S_def first_line_without_product_def line_P_def
      line_no_product_def)

lemma invoice_S_fields:
  "auto_invoice_id invoice_S = None" "\<not> auto_generated invoice_S"
  "move_type invoice_S = ''out_invoice''" "commercial_partner_id invoice_S = Some 20"
  "first_line_without_product invoice_S = None"
  by (simp_all add: invoice_S_def first_line_without_product_def line_P_def)

lemma find_company_B:
  "commercial_partner_id m = Some 20 \<Longrightarrow> find_company_from_invoice_partner E0 m = Some company_B"
  by (simp add: find_company_from_invoice_partner_def E0_def company_A_def company_B_def)

text \<open>Posting the batch of both invoices: the post of the ledger, the filter, and the
  failure of the first document.\<close>

lemma post_TS_steps:
  defines "d1 \<equiv> snd (host_action_post E0 [1, 2] db_TS)"
  shows "host_action_post E0 [1, 2] db_TS = (Inr (), d1)"
    and "filtered (\<lambda>x. move_type x \<in> set supported_types) [1, 2] d1 = (Inr ([] @ 1 # [2]), d1)"
    and "\<exists>vals. prepare_invoice_data E0 (Suc 0) (invoice_T\<lparr>state := Posted\<rparr>) company_B = Inr vals \<and>
           mirror_document (inter_company_create_invoice (Suc 0)) E0 user_context 1 d1 =
             (Inl (LineWithoutProduct ''freight''),
              record_event OpCreate 3 (insert_row (vals\<lparr>state := Draft\<rparr>) d1))"
    and "\<forall>k m. browse d1 k = Some m \<longrightarrow> auto_invoice_id m = None"
    and "next_id d1 = 3"
proof -
  have ex: "\<forall>i\<in>set [Suc 0, 2]. browse db_TS i \<noteq> None" by (simp add: browse_db_TS)
  from host_action_post_succeeds [OF _ ex, of E0] host_allows_E0
  have "fst (host_action_post E0 [1, 2] db_TS) = Inr ()" by simp
  then show run: "host_action_post E0 [1, 2] db_TS = (Inr (), d1)"
    by (simp add: d1_def prod_eq_iff)
  from host_action_post_shape [OF run]
  have n: "next_id d1 = next_id db_TS"
    and b: "\<forall>k. browse d1 k =
               map_option (\<lambda>m. if k \<in> set [1, 2] then m\<lparr>state := Posted\<rparr> else m) (browse db_TS k)"
    by blast+
  from n show n3: "next_id d1 = 3" by (simp add: db_TS_def)
  from b have b1: "browse d1 (Suc 0) = Some (invoice_T\<lparr>state := Posted\<rparr>)"
    and b2: "browse d1 2 = Some (invoice_S\<lparr>state := Posted\<rparr>)"
    by (simp_all add: browse_db_TS)
  from b show all: "\<forall>k m. browse d1 k = Some m \<longrightarrow> auto_invoice_id m = None"
    by (auto simp: browse_db_TS invoice_T_fields invoice_S_fields split: if_splits)
  have "\<forall>i\<in>set [Suc 0, 2]. browse d1 i \<noteq> None" using b1 b2 by simp
  from filtered_existing [OF this, of "\<lambda>x. move_type x \<in> set supported_types"] b1 b2
  show "filtered (\<lambda>x. move_type x \<in> set supported_types) [1, 2] d1 = (Inr ([] @ 1 # [2]), d1)"
    by (simp add: invoice_T_fields invoice_S_fields supported_types_def)
  let ?T = "invoice_T\<lparr>state := Posted\<rparr>"
  have fc: "find_company_from_invoice_partner E0 ?T = Some company_B"
    by (rule find_company_B) (simp add: invoice_T_fields)
  have np: "posted_mirrors (Suc 0) (company_ident company_B) d1 = []"
    using all by (auto simp: posted_mirrors_empty)
  have ne: "existing_mirrors (Suc 0) company_B d1 = []"
    using all by (auto simp: existing_mirrors_empty)
  obtain vals where jr: "prepare_invoice_data E0 (Suc 0) ?T company_B = Inr vals"
    by (simp add: prepare_invoice_data_def get_destination_journal_type_def MAP_JOURNAL_TYPE_def
        invoice_T_fields E0_def company_B_def Let_def)
  have bad: "first_line_without_product ?T = Some line_no_product"
    using invoice_T_fields(5) by (simp add: first_line_without_product_def)
  have chk: "fst (check_intercompany_product E0 ?T company_B d1) = Inr ()"
    by (rule check_intercompany_product_E0)
  have hc: "\<forall>m. host_allows E0 OpCreate m" using host_allows_E0 by simp
  have nm: "line_name line_no_product = ''freight''"
    by (simp add: line_no_product_def line_P_def)
  from builder_fresh_stops [OF b1 bad chk ne jr hc,
      of "action_post (Suc 0)" "intercompany_context user_context company_B"]
  have "inter_company_create_invoice (Suc 0) E0 (intercompany_context user_context company_B)
          (Suc 0) company_B d1 =
        (Inl (LineWithoutProduct ''freight''),
         record_event OpCreate 3 (insert_row (vals\<lparr>state := Draft\<rparr>) d1))"
    by (simp add: inter_company_create_invoice_def nm n3)
  with mirror_document_builds [OF b1 fc _ np, of "inter_company_create_invoice (Suc 0)" user_context]
  have "mirror_document (inter_company_create_invoice (Suc 0)) E0 user_context 1 d1 =
             (Inl (LineWithoutProduct ''freight''),
              record_event OpCreate 3 (insert_row (vals\<lparr>state := Draft\<rparr>) d1))"
    by (simp add: invoice_T_fields)
  with jr show "\<exists>vals. prepare_invoice_data E0 (Suc 0) ?T company_B = Inr vals \<and>
           mirror_document (inter_company_create_invoice (Suc 0)) E0 user_context 1 d1 =
             (Inl (LineWithoutProduct ''freight''),
              record_event OpCreate 3 (insert_row (vals\<lparr>state := Draft\<rparr>) d1))"
    by blast
qed

theorem batch_post_stops_at_first_failure_witness:
  "fst (host_action_post E0 [1, 2] db_TS) = Inr () \<and>
   fst (filtered (\<lambda>x. move_type x \<in> set supported_types) [1, 2]
          (snd (host_action_post E0 [1, 2] db_TS))) = Inr ([] @ 1 # [2]) \<and>
   fst (mirror_document (inter_company_create_invoice (Suc 0)) E0 user_context 1
          (snd (host_action_post E0 [1, 2] db_TS))) = Inl (LineWithoutProduct ''freight'') \<and>
   fst (action_post (Suc (Suc 0)) E0 user_context [1, 2] db_TS) =
     Inl (LineWithoutProduct ''freight'') \<and>
   transaction (action_post (Suc (Suc 0)) E0 user_context [1, 2]) db_TS =
     (Inl (LineWithoutProduct ''freight''), db_TS)"
proof -
  let ?d1 = "snd (host_action_post E0 [1, 2] db_TS)"
  from post_TS_steps(3) obtain d3 where
    md: "mirror_document (inter_company_create_invoice (Suc 0)) E0 user_context 1 ?d1 =
           (Inl (LineWithoutProduct ''freight''), d3)"
    by blast
  have fe: "for_each (mirror_document (inter_company_create_invoice (Suc 0)) E0 user_context) [] ?d1 =
              (Inr (), ?d1)" by (rule for_each.simps(1))
  note r = batch_post_stops_at_first_failure [OF post_TS_steps(1) post_TS_steps(2) fe md]
  have ap: "action_post (Suc (Suc 0)) E0 user_context [1, 2] db_TS =
              (Inl (LineWithoutProduct ''freight''), d3)"
    by (rule conjunct1 [OF r])
  have tr: "transaction (action_post (Suc (Suc 0)) E0 user_context [1, 2]) db_TS =
     (Inl (LineWithoutProduct ''freight''), db_TS)"
    by (rule conjunct2 [OF r])
  have c1: "fst (host_action_post E0 [1, 2] db_TS) = Inr ()"
    by (rule post_TS_steps(1) [THEN arg_cong, of fst, unfolded fst_conv])
  have c2: "fst (filtered (\<lambda>x. move_type x \<in> set supported_types) [1, 2] ?d1) = Inr ([] @ 1 # [2])"
    by (rule post_TS_steps(2) [THEN arg_cong, of fst, unfolded fst_conv])
  have c3: "fst (mirror_document (inter_company_create_invoice (Suc 0)) E0 user_context 1 ?d1) =
              Inl (LineWithoutProduct ''freight'')"
    by (simp only: md fst_conv)
  have c4: "fst (action_post (Suc (Suc 0)) E0 user_context [1, 2] db_TS) =
              Inl (LineWithoutProduct ''freight'')"
    by (simp only: ap fst_conv)
  from c1 c2 c3 c4 tr show ?thesis by (intro conjI)
qed


lemma action_post_runs:
  assumes "host_action_post E ids d = (Inr (), d1)"
    and "filtered (\<lambda>x. move_type x \<in> set supported_types) ids d1 = (Inr srcs, d2)"
  shows "action_post (Suc n) E ctx ids d =
           for_each (mirror_document (inter_company_create_invoice n) E ctx) srcs d2"
  using assms by (simp add: action_post_unfold)

text \<open>
  Claim C2 as stated fails. The first invoice of the batch has a line without
  product, the second one is in order. Posted together, the call ends in the error of
  the first, and no mirror of the second has been built when it is raised; posted
  alone, the second invoice gets its mirror.
\<close>

theorem batch_post_not_isolated_counterexample:
  "fst (action_post (Suc (Suc 0)) E0 user_context [1, 2] db_TS) =
     Inl (LineWithoutProduct ''freight'') \<and>
   existing_mirrors 2 company_B (snd (action_post (Suc (Suc 0)) E0 user_context [1, 2] db_TS)) = [] \<and>
   fst (action_post (Suc (Suc 0)) E0 user_context [2] db_TS) = Inr () \<and>
   existing_mirrors 2 company_B (snd (action_post (Suc (Suc 0)) E0 user_context [2] db_TS)) \<noteq> []"
proof -
  let ?d1 = "snd (host_action_post E0 [1, 2] db_TS)"
  let ?T = "invoice_T\<lparr>state := Posted\<rparr>"
  from post_TS_steps(3) obtain vals where
    jr: "prepare_invoice_data E0 (Suc 0) ?T company_B = Inr vals"
    and md: "mirror_document (inter_company_create_invoice (Suc 0)) E0 user_context 1 ?d1 =
           (Inl (LineWithoutProduct ''freight''),
            record_event OpCreate 3 (insert_row (vals\<lparr>state := Draft\<rparr>) ?d1))"
    by blast
  let ?d3 = "record_event OpCreate 3 (insert_row (vals\<lparr>state := Draft\<rparr>) ?d1)"
  have "for_each (mirror_document (inter_company_create_invoice (Suc 0)) E0 user_context)
          ([] @ 1 # [2]) ?d1 = (Inl (LineWithoutProduct ''freight''), ?d3)"
    using md by simp
  then have ap: "action_post (Suc (Suc 0)) E0 user_context [1, 2] db_TS =
              (Inl (LineWithoutProduct ''freight''), ?d3)"
    by (simp only: action_post_runs [OF post_TS_steps(1) post_TS_steps(2)])
  have a2: "auto_invoice_id (vals\<lparr>state := Draft\<rparr>) \<noteq> Some 2"
    using prepare_invoice_data_fields(2) [OF jr] by simp
  have "\<forall>k m. browse ?d3 k = Some m \<longrightarrow> auto_invoice_id m \<noteq> Some 2"
    using post_TS_steps(4) a2 by (auto simp: browse_insert_row split: if_splits)
  then have e1: "existing_mirrors 2 company_B ?d3 = []"
    unfolding existing_mirrors_empty by blast
  let ?e1 = "snd (host_action_post E0 [2] db_TS)"
  let ?S = "invoice_S\<lparr>state := Posted\<rparr>"
  have ex: "\<forall>i\<in>set [2]. browse db_TS i \<noteq> None" by (simp add: browse_db_TS)
  from host_action_post_succeeds [OF _ ex, of E0] host_allows_E0
  have "fst (host_action_post E0 [2] db_TS) = Inr ()" by simp
  then have run: "host_action_post E0 [2] db_TS = (Inr (), ?e1)" by (simp add: prod_eq_iff)
  from host_action_post_shape [OF run]
  have n: "next_id ?e1 = next_id db_TS"
    and b: "\<forall>k. browse ?e1 k =
               map_option (\<lambda>m. if k \<in> set [2] then m\<lparr>state := Posted\<rparr> else m) (browse db_TS k)"
    by blast+
  from n have n3: "next_id ?e1 = 3" by (simp add: db_TS_def)
  from b have b2: "browse ?e1 2 = Some ?S" by (simp add: browse_db_TS)
  from b have all: "\<forall>k m. browse ?e1 k = Some m \<longrightarrow> auto_invoice_id m = None"
    by (auto simp: browse_db_TS invoice_T_fields invoice_S_fields split: if_splits)
  have "\<forall>i\<in>set [2]. browse ?e1 i \<noteq> None" using b2 by simp
  from filtered_existing [OF this, of "\<lambda>x. move_type x \<in> set supported_types"] b2
  have fl: "filtered (\<lambda>x. move_type x \<in> set supported_types) [2] ?e1 = (Inr [2], ?e1)"
    by (simp add: invoice_S_fields supported_types_def)
  have fc: "find_company_from_invoice_partner E0 ?S = Some company_B"
    by (rule find_company_B) (simp add: invoice_S_fields)
  have np: "posted_mirrors 2 (company_ident company_B) ?e1 = []"
    using all by (auto simp: posted_mirrors_empty)
  have ne: "length (existing_mirrors 2 company_B ?e1) \<le> 1"
    using all by (auto simp: existing_mirrors_empty [THEN iffD2])
  have sf: "auto_invoice_id ?S \<noteq> Some 2" "move_type ?S = ''out_invoice''"
    "first_line_without_product ?S = None" "\<not> auto_generated ?S"
    using invoice_S_fields by (simp_all add: first_line_without_product_def)
  let ?ctx = "intercompany_context user_context company_B"
  from build_succeeds_E0_B [OF b2 ne sf(1,2,3), of 0 ?ctx] n3
  obtain e2 where bf: "inter_company_create_invoice (Suc 0) E0 ?ctx 2 company_B ?e1 = (Inr 3, e2)"
    by (cases "inter_company_create_invoice (Suc 0) E0 ?ctx 2 company_B ?e1") simp
  with mirror_document_builds [OF b2 fc sf(4) np, of "inter_company_create_invoice (Suc 0)" user_context]
  have m2: "mirror_document (inter_company_create_invoice (Suc 0)) E0 user_context 2 ?e1 =
              (Inr (), e2)"
    by simp
  then have "for_each (mirror_document (inter_company_create_invoice (Suc 0)) E0 user_context)
               [2] ?e1 = (Inr (), e2)"
    by simp
  then have ap2: "action_post (Suc (Suc 0)) E0 user_context [2] db_TS = (Inr (), e2)"
    by (simp only: action_post_runs [OF run fl])
  from bf have "inter_company_create_invoice_body (action_post (Suc 0)) E0 ?ctx 2 company_B ?e1 =
                  (Inr 3, e2)"
    by (simp only: inter_company_create_invoice_def)
  from builder_mirror_row [OF this] obtain m where "browse e2 3 = Some m"
    and "auto_invoice_id m = Some 2" and "company_id m = company_ident company_B"
    by blast
  then have "(3, m) \<in> set (existing_mirrors 2 company_B e2)"
    by (simp only: existing_mirrors_iff)
  then have e2: "existing_mirrors 2 company_B e2 \<noteq> []" by auto
  have c1: "fst (action_post (Suc (Suc 0)) E0 user_context [1, 2] db_TS) =
              Inl (LineWithoutProduct ''freight'')"
    by (simp only: ap fst_conv)
  have c2: "existing_mirrors 2 company_B
              (snd (action_post (Suc (Suc 0)) E0 user_context [1, 2] db_TS)) = []"
    unfolding ap snd_conv by (rule e1)
  have c3: "fst (action_post (Suc (Suc 0)) E0 user_context [2] db_TS) = Inr ()"
    by (simp only: ap2 fst_conv)
  have c4: "existing_mirrors 2 company_B
              (snd (action_post (Suc (Suc 0)) E0 user_context [2] db_TS)) \<noteq> []"
    unfolding ap2 snd_conv by (rule e2)
  from c1 c2 c3 c4 show ?thesis by (intro conjI)
qed

section \<open>The cascade of a cancel\<close>

lemma for_each_keeps:
  assumes "\<And>x d. snd (f x d) = d"
  shows "snd (for_each f xs d) = d"
proof (induction xs)
  case Nil
  then show ?case by simp
next
  case (Cons x xs)
  from assms [of x d] have "f x d = (fst (f x d), d)" by (simp add: prod_eq_iff)
  with Cons show ?case by (cases "fst (f x d)") (simp_all split: prod.splits sum.splits)
qed

lemma check_no_posted_mirror_snd: "snd (check_no_posted_mirror E i d) = d"
  by (simp add: check_no_posted_mirror_def ok_def raise_def split: list.splits)

lemma check_amount_difference_snd: "snd (check_amount_difference E i d) = d"
  by (simp add: check_amount_difference_result split: option.splits)

lemma host_update_one:
  assumes "for_each (host_update E op f) [j] d = (Inr (), d')"
  shows "\<exists>m. browse d j = Some m \<and> host_allows E op m \<and> d' = record_event op j (put j (f m) d)"
proof -
  from assms have "host_update E op f j d = (Inr (), d')"
    by (auto split: prod.splits sum.splits)
  from host_update_Inr [OF this] show ?thesis .
qed

lemma button_draft_shape:
  assumes "button_draft E ctx [j] d = (Inr (), d')"
  shows "\<exists>m. browse d j = Some m \<and> d' = record_event OpDraft j (put j (m\<lparr>state := Draft\<rparr>) d)"
proof -
  have k: "snd (for_each (check_no_posted_mirror E) [j] d) = d"
    by (rule for_each_keeps) (rule check_no_posted_mirror_snd)
  obtain r where r: "for_each (check_no_posted_mirror E) [j] d = (r, d)"
    using k by (cases "for_each (check_no_posted_mirror E) [j] d") simp
  with assms have "for_each (host_update E OpDraft (\<lambda>m. m\<lparr>state := Draft\<rparr>)) [j] d = (Inr (), d')"
    by (cases r) (simp_all add: button_draft_def bind_def host_button_draft_def)
  from host_update_one [OF this] show ?thesis by blast
qed

lemma write_move_shape:
  assumes "write_move E ctx [j] vals d = (Inr (), d')"
  shows "\<exists>m. browse d j = Some m \<and>
             d' = record_event OpWrite j (put j (fold (assign E) vals m) d)"
proof -
  obtain r d1 where hw: "host_write E [j] vals d = (r, d1)" by (cases "host_write E [j] vals d")
  with assms obtain u where r: "r = Inr u" by (cases r) (simp_all add: write_move_def bind_def)
  have "d' = d1"
  proof (cases "skip_check_amount_difference ctx")
    case True
    with assms hw r show ?thesis by (simp add: write_move_def bind_def ok_def)
  next
    case False
    obtain ms where f: "filtered (\<lambda>m. auto_invoice_id m \<noteq> None) [j] d1 = (ms, d1)"
      using filtered_snd [of "\<lambda>m. auto_invoice_id m \<noteq> None" "[j]" d1]
      by (cases "filtered (\<lambda>m. auto_invoice_id m \<noteq> None) [j] d1") simp
    show ?thesis
    proof (cases ms)
      case (Inl e)
      with assms hw r f False show ?thesis by (simp add: write_move_def bind_def)
    next
      case (Inr xs)
      have "snd (for_each (check_amount_difference E) xs d1) = d1"
        by (rule for_each_keeps) (rule check_amount_difference_snd)
      moreover from assms hw r f False Inr
      have "for_each (check_amount_difference E) xs d1 = (Inr (), d')"
        by (simp add: write_move_def bind_def)
      ultimately show ?thesis by simp
    qed
  qed
  with hw r have "for_each (host_update E OpWrite (\<lambda>m. fold (assign E) vals m)) [j] d = (Inr (), d')"
    by (simp add: host_write_def)
  from host_update_one [OF this] show ?thesis by blast
qed

text \<open>A document that was generated has no cascade of its own: cancelling it is the
  ledger's cancel.\<close>

lemma button_cancel_generated:
  assumes "browse d j = Some m" and "auto_generated m"
  shows "button_cancel (Suc n) E ctx [j] d = host_button_cancel E [j] d"
  using assms
  by (simp add: button_cancel.simps button_cancel_body_def cancel_mirrors_def bind_def read_def
      ok_def)

text \<open>The three steps on one mirror.\<close>

lemma cancel_mirror_shape:
  assumes run: "cancel_mirror (button_cancel (Suc n)) E ctx sid j d = (Inr (), d')"
    and m: "browse d j = Some m" and g: "auto_generated m"
    and s: "browse d sid = Some src" and ne: "sid \<noteq> j"
  shows "events d' = events d @ [Event OpDraft j, Event OpWrite j, Event OpCancel j] \<and>
         (\<forall>k. browse d' k =
            (if k = j
             then Some (m\<lparr>state := Cancel,
                         invoice_origin := company_name_of E (company_id src) @
                                           '' - Canceled Invoice: '' @ name src\<rparr>)
             else browse d k))"
proof -
  let ?o = "company_name_of E (company_id src) @ '' - Canceled Invoice: '' @ name src"
  obtain r1 d1 where bd: "button_draft E ctx [j] d = (r1, d1)"
    by (cases "button_draft E ctx [j] d")
  with run have r1: "r1 = Inr ()" by (cases r1) (simp_all add: cancel_mirror_def bind_def)
  from button_draft_shape [OF bd [unfolded r1]] m
  have d1: "d1 = record_event OpDraft j (put j (m\<lparr>state := Draft\<rparr>) d)" by simp
  from d1 m have b1: "\<forall>k. browse d1 k = (if k = j then Some (m\<lparr>state := Draft\<rparr>) else browse d k)"
    by (simp add: browse_put_existing)
  from b1 s ne have rd: "read sid d1 = (Inr src, d1)" by (simp add: read_def ok_def)
  obtain r2 d2 where wm: "write_move E ctx [j] [F_invoice_origin ?o] d1 = (r2, d2)"
    by (cases "write_move E ctx [j] [F_invoice_origin ?o] d1")
  with run bd r1 rd have r2: "r2 = Inr ()"
    by (cases r2) (simp_all add: cancel_mirror_def bind_def)
  from write_move_shape [OF wm [unfolded r2]] b1
  have d2: "d2 = record_event OpWrite j (put j (m\<lparr>state := Draft, invoice_origin := ?o\<rparr>) d1)"
    by simp
  from d2 b1
  have b2: "\<forall>k. browse d2 k =
              (if k = j then Some (m\<lparr>state := Draft, invoice_origin := ?o\<rparr>) else browse d k)"
    by (simp add: browse_put_existing)
  from b2 have bj: "browse d2 j = Some (m\<lparr>state := Draft, invoice_origin := ?o\<rparr>)" by simp
  from g have g2: "auto_generated (m\<lparr>state := Draft, invoice_origin := ?o\<rparr>)" by simp
  from run bd r1 rd wm r2
  have "button_cancel (Suc n) E ctx [j] d2 = (Inr (), d')"
    by (simp add: cancel_mirror_def bind_def)
  then have "for_each (host_update E OpCancel (\<lambda>m. m\<lparr>state := Cancel\<rparr>)) [j] d2 = (Inr (), d')"
    by (simp only: button_cancel_generated [OF bj g2] host_button_cancel_def)
  from host_update_one [OF this] bj
  have d3: "d' = record_event OpCancel j
                   (put j (m\<lparr>state := Draft, invoice_origin := ?o, state := Cancel\<rparr>) d2)"
    by simp
  from d3 d2 d1 have "events d' = events d @ [Event OpDraft j, Event OpWrite j, Event OpCancel j]"
    by simp
  moreover from d3 bj b2
  have "\<forall>k. browse d' k =
          (if k = j then Some (m\<lparr>state := Cancel, invoice_origin := ?o\<rparr>) else browse d k)"
    by (simp add: browse_put_existing)
  ultimately show ?thesis by blast
qed


text \<open>The loop over the mirrors found by the search.\<close>

lemma cancel_mirrors_loop:
  assumes "for_each (cancel_mirror (button_cancel (Suc n)) E ctx sid) js d = (Inr (), d')"
    and "distinct js"
    and "\<forall>j\<in>set js. \<exists>m. browse d j = Some m \<and> auto_generated m"
    and "browse d sid = Some src" and "sid \<notin> set js"
  shows "events d' =
           events d @ concat (map (\<lambda>j. [Event OpDraft j, Event OpWrite j, Event OpCancel j]) js) \<and>
         (\<forall>k. browse d' k =
            (if k \<in> set js
             then map_option
                    (\<lambda>m. m\<lparr>state := Cancel,
                            invoice_origin := company_name_of E (company_id src) @
                                              '' - Canceled Invoice: '' @ name src\<rparr>)
                    (browse d k)
             else browse d k))"
  using assms
proof (induction js arbitrary: d)
  case Nil
  then show ?case by simp
next
  case (Cons j js)
  let ?o = "company_name_of E (company_id src) @ '' - Canceled Invoice: '' @ name src"
  obtain r1 d1 where c: "cancel_mirror (button_cancel (Suc n)) E ctx sid j d = (r1, d1)"
    by (cases "cancel_mirror (button_cancel (Suc n)) E ctx sid j d")
  with Cons.prems(1) have r1: "r1 = Inr ()" by (cases r1) simp_all
  from c r1 Cons.prems(1)
  have rest: "for_each (cancel_mirror (button_cancel (Suc n)) E ctx sid) js d1 = (Inr (), d')"
    by simp
  from Cons.prems(3) obtain m where m: "browse d j = Some m" and g: "auto_generated m" by auto
  from Cons.prems(5) have ne: "sid \<noteq> j" by auto
  from cancel_mirror_shape [OF c [unfolded r1] m g Cons.prems(4) ne]
  have e1: "events d1 = events d @ [Event OpDraft j, Event OpWrite j, Event OpCancel j]"
    and b1: "\<forall>k. browse d1 k =
               (if k = j then Some (m\<lparr>state := Cancel, invoice_origin := ?o\<rparr>) else browse d k)"
    by blast+
  from Cons.prems(2) have dj: "distinct js" and nj: "j \<notin> set js" by simp_all
  from Cons.prems(3) b1 nj have g1: "\<forall>i\<in>set js. \<exists>m. browse d1 i = Some m \<and> auto_generated m"
    by auto
  from b1 ne Cons.prems(4) have s1: "browse d1 sid = Some src" by simp
  from Cons.prems(5) have ns: "sid \<notin> set js" by simp
  from Cons.IH [OF rest dj g1 s1 ns]
  have e': "events d' =
              events d1 @ concat (map (\<lambda>j. [Event OpDraft j, Event OpWrite j, Event OpCancel j]) js)"
    and b': "\<forall>k. browse d' k =
               (if k \<in> set js
                then map_option (\<lambda>m. m\<lparr>state := Cancel, invoice_origin := ?o\<rparr>) (browse d1 k)
                else browse d1 k)"
    by blast+
  from e' e1 have "events d' =
     events d @ concat (map (\<lambda>j. [Event OpDraft j, Event OpWrite j, Event OpCancel j]) (j # js))"
    by simp
  moreover from b' b1 nj m
  have "\<forall>k. browse d' k =
          (if k \<in> set (j # js)
           then map_option (\<lambda>m. m\<lparr>state := Cancel, invoice_origin := ?o\<rparr>) (browse d k)
           else browse d k)"
    by auto
  ultimately show ?case by blast
qed

text \<open>When the cancel of one mirror goes through: the ledger accepts the three
  operations, no posted document references the mirror, and the untaxed total of the
  mirror is that of the source at the rounding \<open>write\<close> compares with (or the context
  skips that check).\<close>

lemma search_empty:
  "(search P d = []) = (\<forall>k m. browse d k = Some m \<longrightarrow> \<not> P m)"
  unfolding no_pair_in_list [of "search P d"] search_iff by blast

lemma cancel_mirror_succeeds:
  assumes host: "\<forall>op m. host_allows E op m"
    and m: "browse d j = Some m" and g: "auto_generated m" and ai: "auto_invoice_id m = Some sid"
    and s: "browse d sid = Some src" and ne: "sid \<noteq> j"
    and np: "search (\<lambda>x. auto_invoice_id x = Some j \<and> state x = Posted) d = []"
    and am: "skip_check_amount_difference ctx \<or>
             float_compare E (amount_untaxed m) (amount_untaxed src)
               (Precision_rounding (currency_rounding E (currency_id m))) = 0"
  shows "\<exists>d'. cancel_mirror (button_cancel (Suc n)) E ctx sid j d = (Inr (), d')"
proof -
  let ?o = "company_name_of E (company_id src) @ '' - Canceled Invoice: '' @ name src"
  let ?d1 = "record_event OpDraft j (put j (m\<lparr>state := Draft\<rparr>) d)"
  let ?m2 = "m\<lparr>state := Draft, invoice_origin := ?o\<rparr>"
  let ?d2 = "record_event OpWrite j (put j ?m2 ?d1)"
  let ?d3 = "record_event OpCancel j (put j (?m2\<lparr>state := Cancel\<rparr>) ?d2)"
  from np have "check_no_posted_mirror E j d = (Inr (), d)"
    by (simp add: check_no_posted_mirror_def ok_def)
  with m host have bd: "button_draft E ctx [j] d = (Inr (), ?d1)"
    by (simp add: button_draft_def bind_def host_button_draft_def host_update_cases)
  from m have b1: "\<forall>k. browse ?d1 k = (if k = j then Some (m\<lparr>state := Draft\<rparr>) else browse d k)"
    by (simp add: browse_put_existing)
  from b1 s ne have rd: "read sid ?d1 = (Inr src, ?d1)" by (simp add: read_def ok_def)
  from b1 host have hw: "host_write E [j] [F_invoice_origin ?o] ?d1 = (Inr (), ?d2)"
    by (simp add: host_write_def host_update_cases)
  from b1 have b2: "\<forall>k. browse ?d2 k = (if k = j then Some ?m2 else browse d k)"
    by (simp add: browse_put_existing)
  from b2 s ne ai have su: "source_untaxed ?d2 ?m2 = amount_untaxed src"
    by (simp add: source_untaxed_def source_of_def)
  have wm: "write_move E ctx [j] [F_invoice_origin ?o] ?d1 = (Inr (), ?d2)"
  proof (cases "skip_check_amount_difference ctx")
    case True
    with hw show ?thesis by (simp add: write_move_def bind_def ok_def)
  next
    case False
    with am have z: "float_compare E (amount_untaxed m) (amount_untaxed src)
               (Precision_rounding (currency_rounding E (currency_id m))) = 0" by simp
    from b2 have bj: "browse ?d2 j = Some ?m2" by simp
    from bj ai have fl: "filtered (\<lambda>m. auto_invoice_id m \<noteq> None) [j] ?d2 = (Inr [j], ?d2)"
      by simp
    from bj su z have "check_amount_difference E j ?d2 = (Inr (), ?d2)"
      by (simp add: check_amount_difference_result)
    with hw fl False show ?thesis by (simp add: write_move_def bind_def)
  qed
  from b2 have bj: "browse ?d2 j = Some ?m2" by simp
  from g have g2: "auto_generated ?m2" by simp
  from bj host have "host_button_cancel E [j] ?d2 = (Inr (), ?d3)"
    by (simp add: host_button_cancel_def host_update_cases)
  then have bc: "button_cancel (Suc n) E ctx [j] ?d2 = (Inr (), ?d3)"
    by (simp only: button_cancel_generated [OF bj g2])
  from bd rd wm bc have "cancel_mirror (button_cancel (Suc n)) E ctx sid j d = (Inr (), ?d3)"
    by (simp add: cancel_mirror_def bind_def)
  then show ?thesis by blast
qed

lemma cancel_mirrors_loop_succeeds:
  assumes host: "\<forall>op m. host_allows E op m"
    and "distinct js"
    and "\<forall>j\<in>set js. \<exists>m. browse d j = Some m \<and> auto_generated m \<and> auto_invoice_id m = Some sid \<and>
            (skip_check_amount_difference ctx \<or>
             float_compare E (amount_untaxed m) (amount_untaxed src)
               (Precision_rounding (currency_rounding E (currency_id m))) = 0)"
    and "browse d sid = Some src" and "sid \<notin> set js"
    and "\<forall>k x. browse d k = Some x \<and> state x = Posted \<longrightarrow> auto_invoice_id x \<notin> Some ` set js"
  shows "\<exists>d'. for_each (cancel_mirror (button_cancel (Suc n)) E ctx sid) js d = (Inr (), d')"
  using assms(2-)
proof (induction js arbitrary: d)
  case Nil
  then show ?case by simp
next
  case (Cons j js)
  let ?o = "company_name_of E (company_id src) @ '' - Canceled Invoice: '' @ name src"
  from Cons.prems(2) obtain m where m: "browse d j = Some m" and g: "auto_generated m"
    and ai: "auto_invoice_id m = Some sid"
    and am: "skip_check_amount_difference ctx \<or>
             float_compare E (amount_untaxed m) (amount_untaxed src)
               (Precision_rounding (currency_rounding E (currency_id m))) = 0"
    by auto
  from Cons.prems(4) have ne: "sid \<noteq> j" by auto
  from Cons.prems(5) have np: "search (\<lambda>x. auto_invoice_id x = Some j \<and> state x = Posted) d = []"
    unfolding search_empty by auto
  from cancel_mirror_succeeds [OF host m g ai Cons.prems(3) ne np am]
  obtain d1 where c: "cancel_mirror (button_cancel (Suc n)) E ctx sid j d = (Inr (), d1)" by blast
  from cancel_mirror_shape [OF c m g Cons.prems(3) ne]
  have b1: "\<forall>k. browse d1 k =
               (if k = j then Some (m\<lparr>state := Cancel, invoice_origin := ?o\<rparr>) else browse d k)"
    by blast
  from Cons.prems(1) have dj: "distinct js" and nj: "j \<notin> set js" by simp_all
  from Cons.prems(2) b1 nj
  have g1: "\<forall>j\<in>set js. \<exists>m. browse d1 j = Some m \<and> auto_generated m \<and> auto_invoice_id m = Some sid \<and>
            (skip_check_amount_difference ctx \<or>
             float_compare E (amount_untaxed m) (amount_untaxed src)
               (Precision_rounding (currency_rounding E (currency_id m))) = 0)"
    by auto
  from b1 ne Cons.prems(3) have s1: "browse d1 sid = Some src" by simp
  from Cons.prems(4) have ns: "sid \<notin> set js" by simp
  have p1: "\<forall>k x. browse d1 k = Some x \<and> state x = Posted \<longrightarrow> auto_invoice_id x \<notin> Some ` set js"
  proof (intro allI impI)
    fix k x
    assume a: "browse d1 k = Some x \<and> state x = Posted"
    with b1 have "k \<noteq> j" by auto
    with a b1 have "browse d k = Some x \<and> state x = Posted" by simp
    with Cons.prems(5) show "auto_invoice_id x \<notin> Some ` set js" by auto
  qed
  from Cons.IH [OF dj g1 s1 ns p1] obtain d' where
    "for_each (cancel_mirror (button_cancel (Suc n)) E ctx sid) js d1 = (Inr (), d')" by blast
  with c show ?case by simp
qed

lemma cancel_mirrors_unfold:
  assumes "browse d sid = Some src" and "\<not> auto_generated src"
    and "find_company_from_invoice_partner E src \<noteq> None"
  shows "button_cancel (Suc n) E ctx [sid] d =
           (case for_each (cancel_mirror (button_cancel n) E ctx sid)
                   (map fst (search (\<lambda>m. auto_invoice_id m = Some sid) d)) d of
              (Inl e, d1) \<Rightarrow> (Inl e, d1)
            | (Inr u, d1) \<Rightarrow> host_button_cancel E [sid] d1)"
  using assms
  by (simp add: button_cancel.simps button_cancel_body_def cancel_mirrors_def bind_def read_def
      ok_def split: prod.splits sum.splits)

text \<open>What a cancel that returns has done, whatever the ledger accepts or refuses: for
  each document referencing the source, in the order of the search, a reset to draft,
  a write and a cancel, and last the cancel of the source.\<close>

lemma cancel_cascade_shape:
  assumes run: "button_cancel (Suc (Suc n)) E ctx [sid] d = (Inr (), d')"
    and s: "browse d sid = Some src"
    and ng: "\<not> auto_generated src"
    and fc: "find_company_from_invoice_partner E src \<noteq> None"
    and gen: "\<forall>j m. browse d j = Some m \<and> auto_invoice_id m = Some sid \<longrightarrow> auto_generated m"
  shows "events d' =
           events d @
           concat (map (\<lambda>j. [Event OpDraft j, Event OpWrite j, Event OpCancel j])
                       (map fst (search (\<lambda>m. auto_invoice_id m = Some sid) d))) @
           [Event OpCancel sid] \<and>
         (\<forall>j m. browse d j = Some m \<and> auto_invoice_id m = Some sid \<longrightarrow>
            browse d' j =
              Some (m\<lparr>state := Cancel,
                      invoice_origin := company_name_of E (company_id src) @
                                        '' - Canceled Invoice: '' @ name src\<rparr>)) \<and>
         browse d' sid = Some (src\<lparr>state := Cancel\<rparr>)"
proof -
  let ?js = "map fst (search (\<lambda>m. auto_invoice_id m = Some sid) d)"
  let ?o = "company_name_of E (company_id src) @ '' - Canceled Invoice: '' @ name src"
  have mem: "\<And>j. (j \<in> set ?js) = (\<exists>m. browse d j = Some m \<and> auto_invoice_id m = Some sid)"
    using search_iff [of _ _ "\<lambda>m. auto_invoice_id m = Some sid" d] by force
  obtain r1 d1 where lp: "for_each (cancel_mirror (button_cancel (Suc n)) E ctx sid) ?js d = (r1, d1)"
    by (cases "for_each (cancel_mirror (button_cancel (Suc n)) E ctx sid) ?js d")
  with run have r1: "r1 = Inr ()"
    by (cases r1) (simp_all add: cancel_mirrors_unfold [OF s ng fc])
  from run lp r1 have hc: "host_button_cancel E [sid] d1 = (Inr (), d')"
    by (simp add: cancel_mirrors_unfold [OF s ng fc])
  have g: "\<forall>j\<in>set ?js. \<exists>m. browse d j = Some m \<and> auto_generated m"
    using gen mem by blast
  have ns: "sid \<notin> set ?js" using gen mem s ng by auto
  from cancel_mirrors_loop [OF lp [unfolded r1] distinct_search g s ns]
  have e1: "events d1 =
              events d @ concat (map (\<lambda>j. [Event OpDraft j, Event OpWrite j, Event OpCancel j]) ?js)"
    and b1: "\<forall>k. browse d1 k =
               (if k \<in> set ?js
                then map_option (\<lambda>m. m\<lparr>state := Cancel, invoice_origin := ?o\<rparr>) (browse d k)
                else browse d k)"
    by blast+
  from b1 ns s have s1: "browse d1 sid = Some src" by simp
  from hc have "for_each (host_update E OpCancel (\<lambda>m. m\<lparr>state := Cancel\<rparr>)) [sid] d1 = (Inr (), d')"
    by (simp only: host_button_cancel_def)
  from host_update_one [OF this] s1
  have d': "d' = record_event OpCancel sid (put sid (src\<lparr>state := Cancel\<rparr>) d1)" by simp
  from d' e1 have c1: "events d' = events d @
      concat (map (\<lambda>j. [Event OpDraft j, Event OpWrite j, Event OpCancel j]) ?js) @
      [Event OpCancel sid]"
    by simp
  from d' s1 have b': "\<forall>k. browse d' k = (if k = sid then Some (src\<lparr>state := Cancel\<rparr>) else browse d1 k)"
    by (simp add: browse_put_existing)
  have c2: "\<forall>j m. browse d j = Some m \<and> auto_invoice_id m = Some sid \<longrightarrow>
              browse d' j = Some (m\<lparr>state := Cancel, invoice_origin := ?o\<rparr>)"
  proof (intro allI impI)
    fix j m
    assume a: "browse d j = Some m \<and> auto_invoice_id m = Some sid"
    with mem have j: "j \<in> set ?js" by blast
    with ns have "j \<noteq> sid" by blast
    with b' b1 j a show "browse d' j = Some (m\<lparr>state := Cancel, invoice_origin := ?o\<rparr>)" by simp
  qed
  from b' have c3: "browse d' sid = Some (src\<lparr>state := Cancel\<rparr>)" by simp
  from c1 c2 c3 show ?thesis by (intro conjI)
qed


text \<open>Under a ledger that accepts every operation the cancel goes through when no
  posted document references a mirror and the untaxed totals of the mirrors are that
  of the source.\<close>

lemma cancel_cascade_succeeds:
  assumes host: "\<forall>op m. host_allows E op m"
    and s: "browse d sid = Some src"
    and ng: "\<not> auto_generated src"
    and fc: "find_company_from_invoice_partner E src \<noteq> None"
    and gen: "\<forall>j m. browse d j = Some m \<and> auto_invoice_id m = Some sid \<longrightarrow>
                auto_generated m \<and>
                (skip_check_amount_difference ctx \<or>
                 float_compare E (amount_untaxed m) (amount_untaxed src)
                   (Precision_rounding (currency_rounding E (currency_id m))) = 0)"
    and np: "\<forall>k x j m. browse d k = Some x \<and> state x = Posted \<and> auto_invoice_id x = Some j \<and>
                browse d j = Some m \<longrightarrow> auto_invoice_id m \<noteq> Some sid"
  shows "\<exists>d'. button_cancel (Suc (Suc n)) E ctx [sid] d = (Inr (), d')"
proof -
  let ?js = "map fst (search (\<lambda>m. auto_invoice_id m = Some sid) d)"
  have mem: "\<And>j. (j \<in> set ?js) = (\<exists>m. browse d j = Some m \<and> auto_invoice_id m = Some sid)"
    using search_iff [of _ _ "\<lambda>m. auto_invoice_id m = Some sid" d] by force
  have g: "\<forall>j\<in>set ?js. \<exists>m. browse d j = Some m \<and> auto_generated m \<and> auto_invoice_id m = Some sid \<and>
            (skip_check_amount_difference ctx \<or>
             float_compare E (amount_untaxed m) (amount_untaxed src)
               (Precision_rounding (currency_rounding E (currency_id m))) = 0)"
    using gen mem by blast
  have ns: "sid \<notin> set ?js" using gen mem s ng by auto
  have p: "\<forall>k x. browse d k = Some x \<and> state x = Posted \<longrightarrow> auto_invoice_id x \<notin> Some ` set ?js"
  proof (intro allI impI notI)
    fix k x
    assume a: "browse d k = Some x \<and> state x = Posted" and "auto_invoice_id x \<in> Some ` set ?js"
    then obtain j where j: "j \<in> set ?js" and "auto_invoice_id x = Some j" by auto
    moreover from j mem obtain m where "browse d j = Some m" "auto_invoice_id m = Some sid" by blast
    ultimately show False using np a by blast
  qed
  from cancel_mirrors_loop_succeeds [OF host distinct_search g s ns p]
  obtain d1 where lp: "for_each (cancel_mirror (button_cancel (Suc n)) E ctx sid) ?js d = (Inr (), d1)"
    by blast
  have gg: "\<forall>j\<in>set ?js. \<exists>m. browse d j = Some m \<and> auto_generated m" using g by blast
  from cancel_mirrors_loop [OF lp distinct_search gg s ns] ns s
  have s1: "browse d1 sid = Some src" by simp
  with host have "\<exists>d'. host_button_cancel E [sid] d1 = (Inr (), d')"
    by (simp add: host_button_cancel_def host_update_cases)
  with lp show ?thesis by (simp add: cancel_mirrors_unfold [OF s ng fc])
qed


text \<open>The write of the origin goes through the module's own \<open>write\<close>: when the
  untaxed total of the mirror is not that of the source, it raises, after the reset
  to draft and the ledger's write, and the cancel of the mirror is not reached.\<close>

lemma cancel_mirror_amount_fails:
  assumes host: "\<forall>op m. host_allows E op m"
    and m: "browse d j = Some m" and ai: "auto_invoice_id m = Some sid"
    and s: "browse d sid = Some src" and ne: "sid \<noteq> j"
    and np: "search (\<lambda>x. auto_invoice_id x = Some j \<and> state x = Posted) d = []"
    and ns: "\<not> skip_check_amount_difference ctx"
    and df: "float_compare E (amount_untaxed m) (amount_untaxed src)
               (Precision_rounding (currency_rounding E (currency_id m))) \<noteq> 0"
  shows "\<exists>d2. cancel_mirror cancel E ctx sid j d =
                 (Inl (AmountDiffersFromSource (name src)), d2) \<and>
           events d2 = events d @ [Event OpDraft j, Event OpWrite j] \<and>
           (\<forall>k. browse d2 k =
              (if k = j
               then Some (m\<lparr>state := Draft,
                           invoice_origin := company_name_of E (company_id src) @
                                             '' - Canceled Invoice: '' @ name src\<rparr>)
               else browse d k))"
proof -
  let ?o = "company_name_of E (company_id src) @ '' - Canceled Invoice: '' @ name src"
  let ?d1 = "record_event OpDraft j (put j (m\<lparr>state := Draft\<rparr>) d)"
  let ?m2 = "m\<lparr>state := Draft, invoice_origin := ?o\<rparr>"
  let ?d2 = "record_event OpWrite j (put j ?m2 ?d1)"
  from np have "check_no_posted_mirror E j d = (Inr (), d)"
    by (simp add: check_no_posted_mirror_def ok_def)
  with m host have bd: "button_draft E ctx [j] d = (Inr (), ?d1)"
    by (simp add: button_draft_def bind_def host_button_draft_def host_update_cases)
  from m have b1: "\<forall>k. browse ?d1 k = (if k = j then Some (m\<lparr>state := Draft\<rparr>) else browse d k)"
    by (simp add: browse_put_existing)
  from b1 s ne have rd: "read sid ?d1 = (Inr src, ?d1)" by (simp add: read_def ok_def)
  from b1 host have hw: "host_write E [j] [F_invoice_origin ?o] ?d1 = (Inr (), ?d2)"
    by (simp add: host_write_def host_update_cases)
  from b1 have b2: "\<forall>k. browse ?d2 k = (if k = j then Some ?m2 else browse d k)"
    by (simp add: browse_put_existing)
  from b2 s ne ai have su: "source_untaxed ?d2 ?m2 = amount_untaxed src"
    and sn: "source_name ?d2 ?m2 = name src"
    by (simp_all add: source_untaxed_def source_name_def source_of_def)
  from b2 have bj: "browse ?d2 j = Some ?m2" by simp
  from bj ai have fl: "filtered (\<lambda>m. auto_invoice_id m \<noteq> None) [j] ?d2 = (Inr [j], ?d2)"
    by simp
  from bj su sn df
  have "check_amount_difference E j ?d2 = (Inl (AmountDiffersFromSource (name src)), ?d2)"
    by (simp add: check_amount_difference_result)
  with hw fl ns
  have wm: "write_move E ctx [j] [F_invoice_origin ?o] ?d1 =
              (Inl (AmountDiffersFromSource (name src)), ?d2)"
    by (simp add: write_move_def bind_def)
  from bd rd wm
  have "cancel_mirror cancel E ctx sid j d = (Inl (AmountDiffersFromSource (name src)), ?d2)"
    by (simp add: cancel_mirror_def bind_def)
  moreover have "events ?d2 = events d @ [Event OpDraft j, Event OpWrite j]" by simp
  ultimately show ?thesis using b2 by blast
qed

lemma cancel_mirrors_loop_fails:
  assumes host: "\<forall>op m. host_allows E op m"
    and dist: "distinct (pre @ j0 # post)"
    and rows: "\<forall>j\<in>set (pre @ j0 # post).
                 \<exists>m. browse d j = Some m \<and> auto_generated m \<and> auto_invoice_id m = Some sid"
    and s: "browse d sid = Some src" and ns: "sid \<notin> set (pre @ j0 # post)"
    and nopost: "\<forall>k x. browse d k = Some x \<and> state x = Posted \<longrightarrow>
                   auto_invoice_id x \<notin> Some ` set (pre @ j0 # post)"
    and nskip: "\<not> skip_check_amount_difference ctx"
    and agree: "\<forall>j\<in>set pre. \<forall>m. browse d j = Some m \<longrightarrow>
                  float_compare E (amount_untaxed m) (amount_untaxed src)
                    (Precision_rounding (currency_rounding E (currency_id m))) = 0"
    and m0: "browse d j0 = Some m"
    and bad: "float_compare E (amount_untaxed m) (amount_untaxed src)
                (Precision_rounding (currency_rounding E (currency_id m))) \<noteq> 0"
  shows "\<exists>d2. for_each (cancel_mirror (button_cancel (Suc n)) E ctx sid) (pre @ j0 # post) d =
                 (Inl (AmountDiffersFromSource (name src)), d2) \<and>
           events d2 =
             events d @ concat (map (\<lambda>j. [Event OpDraft j, Event OpWrite j, Event OpCancel j]) pre) @
             [Event OpDraft j0, Event OpWrite j0] \<and>
           browse d2 j0 =
             Some (m\<lparr>state := Draft,
                     invoice_origin := company_name_of E (company_id src) @
                                       '' - Canceled Invoice: '' @ name src\<rparr>) \<and>
           browse d2 sid = Some src"
proof -
  let ?o = "company_name_of E (company_id src) @ '' - Canceled Invoice: '' @ name src"
  let ?f = "cancel_mirror (button_cancel (Suc n)) E ctx sid"
  from dist have dp: "distinct pre" and j0p: "j0 \<notin> set pre" by simp_all
  from ns have nsp: "sid \<notin> set pre" and ne: "sid \<noteq> j0" by auto
  have g: "\<forall>j\<in>set pre. \<exists>m. browse d j = Some m \<and> auto_generated m \<and> auto_invoice_id m = Some sid \<and>
            (skip_check_amount_difference ctx \<or>
             float_compare E (amount_untaxed m) (amount_untaxed src)
               (Precision_rounding (currency_rounding E (currency_id m))) = 0)"
  proof
    fix j assume j: "j \<in> set pre"
    with rows obtain x where "browse d j = Some x \<and> auto_generated x \<and> auto_invoice_id x = Some sid"
      by auto
    with agree j show "\<exists>m. browse d j = Some m \<and> auto_generated m \<and> auto_invoice_id m = Some sid \<and>
            (skip_check_amount_difference ctx \<or>
             float_compare E (amount_untaxed m) (amount_untaxed src)
               (Precision_rounding (currency_rounding E (currency_id m))) = 0)"
      by auto
  qed
  from nopost have npp: "\<forall>k x. browse d k = Some x \<and> state x = Posted \<longrightarrow>
                   auto_invoice_id x \<notin> Some ` set pre"
    by auto
  from cancel_mirrors_loop_succeeds [OF host dp g s nsp npp]
  obtain d1 where lp: "for_each ?f pre d = (Inr (), d1)" by blast
  have gg: "\<forall>j\<in>set pre. \<exists>m. browse d j = Some m \<and> auto_generated m" using g by blast
  from cancel_mirrors_loop [OF lp dp gg s nsp]
  have e1: "events d1 =
              events d @ concat (map (\<lambda>j. [Event OpDraft j, Event OpWrite j, Event OpCancel j]) pre)"
    and b1: "\<forall>k. browse d1 k =
               (if k \<in> set pre
                then map_option (\<lambda>m. m\<lparr>state := Cancel, invoice_origin := ?o\<rparr>) (browse d k)
                else browse d k)"
    by blast+
  from b1 j0p m0 have m1: "browse d1 j0 = Some m" by simp
  from b1 nsp s have s1: "browse d1 sid = Some src" by simp
  from rows m0 have ai: "auto_invoice_id m = Some sid" by auto
  have np1: "search (\<lambda>x. auto_invoice_id x = Some j0 \<and> state x = Posted) d1 = []"
    unfolding search_empty
  proof (intro allI impI notI)
    fix k x
    assume bx: "browse d1 k = Some x" and px: "auto_invoice_id x = Some j0 \<and> state x = Posted"
    show False
    proof (cases "k \<in> set pre")
      case True
      with b1 bx obtain y where "x = y\<lparr>state := Cancel, invoice_origin := ?o\<rparr>" by auto
      with px show False by simp
    next
      case False
      with b1 bx have "browse d k = Some x" by simp
      with nopost px show False by auto
    qed
  qed
  from cancel_mirror_amount_fails [OF host m1 ai s1 ne np1 nskip bad, of "button_cancel (Suc n)"]
  obtain d2 where f: "?f j0 d1 = (Inl (AmountDiffersFromSource (name src)), d2)"
    and e2: "events d2 = events d1 @ [Event OpDraft j0, Event OpWrite j0]"
    and b2: "\<forall>k. browse d2 k =
              (if k = j0 then Some (m\<lparr>state := Draft, invoice_origin := ?o\<rparr>) else browse d1 k)"
    by blast
  from lp f have "for_each ?f (pre @ j0 # post) d = (Inl (AmountDiffersFromSource (name src)), d2)"
    by (simp add: for_each_append)
  moreover from e1 e2 have "events d2 =
             events d @ concat (map (\<lambda>j. [Event OpDraft j, Event OpWrite j, Event OpCancel j]) pre) @
             [Event OpDraft j0, Event OpWrite j0]"
    by simp
  moreover from b2 have "browse d2 j0 = Some (m\<lparr>state := Draft, invoice_origin := ?o\<rparr>)" by simp
  moreover from b2 s1 ne have "browse d2 sid = Some src" by simp
  ultimately show ?thesis by blast
qed

lemma mirror_diverges_mirror:
  assumes "browse d j = Some m" and "auto_invoice_id m = Some sid" and "browse d sid = Some src"
  shows "mirror_diverges E d j =
           (float_compare E (amount_untaxed m) (amount_untaxed src)
              (Precision_rounding (currency_rounding E (currency_id m))) \<noteq> 0)"
  using assms by (simp add: mirror_diverges_def source_untaxed_def source_of_def)

lemma mirrors_found:
  "(j \<in> set (map fst (search (\<lambda>m. auto_invoice_id m = Some sid) d))) =
     (\<exists>m. browse d j = Some m \<and> auto_invoice_id m = Some sid)"
  using search_iff [of _ _ "\<lambda>m. auto_invoice_id m = Some sid" d] by force

lemma cancel_cascade_fails:
  assumes host: "\<forall>op m. host_allows E op m"
    and s: "browse d sid = Some src"
    and ng: "\<not> auto_generated src"
    and fc: "find_company_from_invoice_partner E src \<noteq> None"
    and gen: "\<forall>j m. browse d j = Some m \<and> auto_invoice_id m = Some sid \<longrightarrow> auto_generated m"
    and np: "\<forall>k x j m. browse d k = Some x \<and> state x = Posted \<and> auto_invoice_id x = Some j \<and>
                browse d j = Some m \<longrightarrow> auto_invoice_id m \<noteq> Some sid"
    and nskip: "\<not> skip_check_amount_difference ctx"
    and split: "map fst (search (\<lambda>m. auto_invoice_id m = Some sid) d) = pre @ j0 # post"
    and agree: "\<forall>j\<in>set pre. \<not> mirror_diverges E d j"
    and bad: "mirror_diverges E d j0"
  shows "\<exists>m d2. browse d j0 = Some m \<and>
           button_cancel (Suc (Suc n)) E ctx [sid] d =
             (Inl (AmountDiffersFromSource (name src)), d2) \<and>
           events d2 =
             events d @ concat (map (\<lambda>j. [Event OpDraft j, Event OpWrite j, Event OpCancel j]) pre) @
             [Event OpDraft j0, Event OpWrite j0] \<and>
           browse d2 j0 =
             Some (m\<lparr>state := Draft,
                     invoice_origin := company_name_of E (company_id src) @
                                       '' - Canceled Invoice: '' @ name src\<rparr>) \<and>
           browse d2 sid = Some src"
proof -
  let ?js = "map fst (search (\<lambda>m. auto_invoice_id m = Some sid) d)"
  note mem = mirrors_found [of _ sid d]
  have dist: "distinct (pre @ j0 # post)" using distinct_search [of "\<lambda>m. auto_invoice_id m = Some sid" d]
    by (simp only: split)
  have rows: "\<forall>j\<in>set (pre @ j0 # post).
                 \<exists>m. browse d j = Some m \<and> auto_generated m \<and> auto_invoice_id m = Some sid"
    using gen mem unfolding split by blast
  have ns: "sid \<notin> set (pre @ j0 # post)" using gen mem s ng unfolding split by auto
  have nopost: "\<forall>k x. browse d k = Some x \<and> state x = Posted \<longrightarrow>
                   auto_invoice_id x \<notin> Some ` set (pre @ j0 # post)"
  proof (intro allI impI notI)
    fix k x
    assume a: "browse d k = Some x \<and> state x = Posted"
      and "auto_invoice_id x \<in> Some ` set (pre @ j0 # post)"
    then obtain j where j: "j \<in> set (pre @ j0 # post)" and "auto_invoice_id x = Some j" by auto
    moreover from j rows obtain m where "browse d j = Some m" "auto_invoice_id m = Some sid" by blast
    ultimately show False using np a by blast
  qed
  have agree': "\<forall>j\<in>set pre. \<forall>m. browse d j = Some m \<longrightarrow>
                  float_compare E (amount_untaxed m) (amount_untaxed src)
                    (Precision_rounding (currency_rounding E (currency_id m))) = 0"
  proof (intro ballI allI impI)
    fix j m assume j: "j \<in> set pre" and m: "browse d j = Some m"
    from j rows obtain x where "browse d j = Some x" and "auto_invoice_id x = Some sid"
      by auto
    with m have "auto_invoice_id m = Some sid" by simp
    from mirror_diverges_mirror [OF m this s, of E] agree j
    show "float_compare E (amount_untaxed m) (amount_untaxed src)
            (Precision_rounding (currency_rounding E (currency_id m))) = 0"
      by simp
  qed
  from rows obtain m where m0: "browse d j0 = Some m" and ai: "auto_invoice_id m = Some sid"
    by auto
  from mirror_diverges_mirror [OF m0 ai s, of E] bad
  have bad': "float_compare E (amount_untaxed m) (amount_untaxed src)
                (Precision_rounding (currency_rounding E (currency_id m))) \<noteq> 0"
    by simp
  from cancel_mirrors_loop_fails [OF host dist rows s ns nopost nskip agree' m0 bad', of n]
  obtain d2 where
    lp: "for_each (cancel_mirror (button_cancel (Suc n)) E ctx sid) (pre @ j0 # post) d =
           (Inl (AmountDiffersFromSource (name src)), d2)"
    and rest: "events d2 =
             events d @ concat (map (\<lambda>j. [Event OpDraft j, Event OpWrite j, Event OpCancel j]) pre) @
             [Event OpDraft j0, Event OpWrite j0]"
      "browse d2 j0 =
             Some (m\<lparr>state := Draft,
                     invoice_origin := company_name_of E (company_id src) @
                                       '' - Canceled Invoice: '' @ name src\<rparr>)"
      "browse d2 sid = Some src"
    by blast
  from lp have "button_cancel (Suc (Suc n)) E ctx [sid] d =
                  (Inl (AmountDiffersFromSource (name src)), d2)"
    by (simp add: cancel_mirrors_unfold [OF s ng fc] split)
  with m0 rest show ?thesis by blast
qed


text \<open>
  Claim C7, amended. Let the source not be a mirror itself, its partner be a managed
  company, and the documents referencing it be generated ones; let the ledger accept
  the operations and no posted document reference one of these mirrors. The mirrors
  are taken in the order of the search, whatever their company and their state, and
  each is reset to draft, then written, then cancelled; the write is the module's own
  \<open>write\<close>, with its check of the untaxed total. If the context skips that check or no
  mirror diverges from the source, the cancel returns: the journal of the ledger's
  operations grows by a reset to draft, a write and a cancel for each mirror, followed
  by the cancel of the source; each mirror ends cancelled with the origin
  "<company> - Canceled Invoice: <number>" and the source ends cancelled. Otherwise the
  cancel raises the error of the amount check at the first mirror that diverges: the
  mirrors before it have been processed, this one has been reset to draft and written
  but is not cancelled, the mirrors after it and the source are not touched.
\<close>

theorem cancel_cascade_or_amount_error:
  assumes host: "\<forall>op m. host_allows E op m"
    and s: "browse d sid = Some src"
    and ng: "\<not> auto_generated src"
    and fc: "find_company_from_invoice_partner E src \<noteq> None"
    and gen: "\<forall>j m. browse d j = Some m \<and> auto_invoice_id m = Some sid \<longrightarrow> auto_generated m"
    and np: "\<forall>k x j m. browse d k = Some x \<and> state x = Posted \<and> auto_invoice_id x = Some j \<and>
                browse d j = Some m \<longrightarrow> auto_invoice_id m \<noteq> Some sid"
  shows "if skip_check_amount_difference ctx \<or>
            (\<forall>j\<in>set (map fst (search (\<lambda>m. auto_invoice_id m = Some sid) d)).
               \<not> mirror_diverges E d j)
         then \<exists>d'. button_cancel (Suc (Suc n)) E ctx [sid] d = (Inr (), d') \<and>
                events d' =
                  events d @
                  concat (map (\<lambda>j. [Event OpDraft j, Event OpWrite j, Event OpCancel j])
                              (map fst (search (\<lambda>m. auto_invoice_id m = Some sid) d))) @
                  [Event OpCancel sid] \<and>
                (\<forall>j m. browse d j = Some m \<and> auto_invoice_id m = Some sid \<longrightarrow>
                   browse d' j =
                     Some (m\<lparr>state := Cancel,
                             invoice_origin := company_name_of E (company_id src) @
                                               '' - Canceled Invoice: '' @ name src\<rparr>)) \<and>
                browse d' sid = Some (src\<lparr>state := Cancel\<rparr>)
         else \<exists>pre j0 post m d2.
                map fst (search (\<lambda>m. auto_invoice_id m = Some sid) d) = pre @ j0 # post \<and>
                (\<forall>j\<in>set pre. \<not> mirror_diverges E d j) \<and> mirror_diverges E d j0 \<and>
                browse d j0 = Some m \<and>
                button_cancel (Suc (Suc n)) E ctx [sid] d =
                  (Inl (AmountDiffersFromSource (name src)), d2) \<and>
                events d2 =
                  events d @
                  concat (map (\<lambda>j. [Event OpDraft j, Event OpWrite j, Event OpCancel j]) pre) @
                  [Event OpDraft j0, Event OpWrite j0] \<and>
                browse d2 j0 =
                  Some (m\<lparr>state := Draft,
                          invoice_origin := company_name_of E (company_id src) @
                                            '' - Canceled Invoice: '' @ name src\<rparr>) \<and>
                browse d2 sid = Some src"
proof (cases "skip_check_amount_difference ctx \<or>
            (\<forall>j\<in>set (map fst (search (\<lambda>m. auto_invoice_id m = Some sid) d)).
               \<not> mirror_diverges E d j)")
  case True
  have gen2: "\<forall>j m. browse d j = Some m \<and> auto_invoice_id m = Some sid \<longrightarrow>
                auto_generated m \<and>
                (skip_check_amount_difference ctx \<or>
                 float_compare E (amount_untaxed m) (amount_untaxed src)
                   (Precision_rounding (currency_rounding E (currency_id m))) = 0)"
  proof (intro allI impI)
    fix j m
    assume a: "browse d j = Some m \<and> auto_invoice_id m = Some sid"
    then have j: "j \<in> set (map fst (search (\<lambda>m. auto_invoice_id m = Some sid) d))"
      unfolding mirrors_found by blast
    from a mirror_diverges_mirror [of d j m sid src E] s
    have "mirror_diverges E d j =
           (float_compare E (amount_untaxed m) (amount_untaxed src)
              (Precision_rounding (currency_rounding E (currency_id m))) \<noteq> 0)"
      by simp
    with True j gen a
    show "auto_generated m \<and>
                (skip_check_amount_difference ctx \<or>
                 float_compare E (amount_untaxed m) (amount_untaxed src)
                   (Precision_rounding (currency_rounding E (currency_id m))) = 0)"
      by blast
  qed
  from cancel_cascade_succeeds [OF host s ng fc gen2 np, of n]
  obtain d' where run: "button_cancel (Suc (Suc n)) E ctx [sid] d = (Inr (), d')" by blast
  from cancel_cascade_shape [OF run s ng fc gen] run True show ?thesis
    by (simp only: if_True) blast
next
  case False
  then have nskip: "\<not> skip_check_amount_difference ctx"
    and ex: "\<exists>j\<in>set (map fst (search (\<lambda>m. auto_invoice_id m = Some sid) d)). mirror_diverges E d j"
    by blast+
  from split_list_first_prop [OF ex] obtain pre j0 post where
    split: "map fst (search (\<lambda>m. auto_invoice_id m = Some sid) d) = pre @ j0 # post"
    and bad: "mirror_diverges E d j0"
    and agree: "\<forall>j\<in>set pre. \<not> mirror_diverges E d j"
    by blast
  from cancel_cascade_fails [OF host s ng fc gen np nskip split agree bad, of n]
  obtain m d2 where "browse d j0 = Some m"
    "button_cancel (Suc (Suc n)) E ctx [sid] d = (Inl (AmountDiffersFromSource (name src)), d2)"
    "events d2 =
             events d @ concat (map (\<lambda>j. [Event OpDraft j, Event OpWrite j, Event OpCancel j]) pre) @
             [Event OpDraft j0, Event OpWrite j0]"
    "browse d2 j0 =
             Some (m\<lparr>state := Draft,
                     invoice_origin := company_name_of E (company_id src) @
                                       '' - Canceled Invoice: '' @ name src\<rparr>)"
    "browse d2 sid = Some src"
    by blast
  with split agree bad False show ?thesis
    by (simp only: if_False) blast
qed

subsection \<open>The cascade on two examples\<close>

text \<open>A database of two rows: a source of A to B in row 1 and a generated document
  referencing it in row 2.\<close>

lemma singleton_list: "distinct xs \<Longrightarrow> set xs = {a} \<Longrightarrow> xs = [a]"
proof (cases xs)
  case Nil
  assume "set xs = {a}" with Nil show ?thesis by simp
next
  case (Cons x ys)
  assume d: "distinct xs" and s: "set xs = {a}"
  from s Cons have x: "x = a" by auto
  from d Cons x have "a \<notin> set ys" by simp
  moreover from s Cons have "set ys \<subseteq> {a}" by auto
  ultimately have "ys = []" by (cases ys) auto
  with Cons x show ?thesis by simp
qed

lemma source_and_mirror:
  assumes rows: "\<forall>k. browse d k = (if k = Suc 0 then Some S else if k = 2 then Some M else None)"
    and S: "\<not> auto_generated S" "auto_invoice_id S = None" "commercial_partner_id S = Some 20"
    and M: "auto_generated M" "auto_invoice_id M = Some (Suc 0)"
  shows "browse d (Suc 0) = Some S"
    and "find_company_from_invoice_partner E0 S \<noteq> None"
    and "\<forall>j m. browse d j = Some m \<and> auto_invoice_id m = Some (Suc 0) \<longrightarrow> auto_generated m"
    and "\<forall>k x j m. browse d k = Some x \<and> state x = Posted \<and> auto_invoice_id x = Some j \<and>
            browse d j = Some m \<longrightarrow> auto_invoice_id m \<noteq> Some (Suc 0)"
    and "map fst (search (\<lambda>m. auto_invoice_id m = Some (Suc 0)) d) = [2]"
    and "browse d 2 = Some M"
proof -
  show b1: "browse d (Suc 0) = Some S" using rows by simp
  show b2: "browse d 2 = Some M" using rows by simp
  show "find_company_from_invoice_partner E0 S \<noteq> None"
    using find_company_B [OF S(3)] by simp
  have row: "\<And>k x. browse d k = Some x \<Longrightarrow> (k = Suc 0 \<and> x = S) \<or> (k = 2 \<and> x = M)"
    using rows by (simp split: if_splits)
  show "\<forall>j m. browse d j = Some m \<and> auto_invoice_id m = Some (Suc 0) \<longrightarrow> auto_generated m"
    using row S(2) M(1) by fastforce
  show "\<forall>k x j m. browse d k = Some x \<and> state x = Posted \<and> auto_invoice_id x = Some j \<and>
            browse d j = Some m \<longrightarrow> auto_invoice_id m \<noteq> Some (Suc 0)"
  proof (intro allI impI)
    fix k x j m
    assume a: "browse d k = Some x \<and> state x = Posted \<and> auto_invoice_id x = Some j \<and>
                browse d j = Some m"
    with row [of k x] S(2) have "x = M" by auto
    with a M(2) have "j = Suc 0" by simp
    with a b1 have "m = S" by simp
    with S(2) show "auto_invoice_id m \<noteq> Some (Suc 0)" by simp
  qed
  have "set (map fst (search (\<lambda>m. auto_invoice_id m = Some (Suc 0)) d)) = {2}"
  proof (intro equalityI subsetI)
    fix j assume "j \<in> set (map fst (search (\<lambda>m. auto_invoice_id m = Some (Suc 0)) d))"
    then obtain m where "browse d j = Some m" and "auto_invoice_id m = Some (Suc 0)"
      unfolding mirrors_found by blast
    with row [of j m] S(2) show "j \<in> {2}" by auto
  next
    fix j :: nat assume "j \<in> {2}"
    with b2 M(2) show "j \<in> set (map fst (search (\<lambda>m. auto_invoice_id m = Some (Suc 0)) d))"
      unfolding mirrors_found by simp
  qed
  from singleton_list [OF distinct_search this]
  show "map fst (search (\<lambda>m. auto_invoice_id m = Some (Suc 0)) d) = [2]" .
qed

lemma browse_db_SM_cases:
  "\<forall>k. browse db_SM k =
     (if k = Suc 0 then Some (invoice_S\<lparr>state := Posted\<rparr>) else if k = 2 then Some mirror_M
      else None)"
  by (simp add: browse_def db_SM_def table_def)

lemma browse_db_cur_cases:
  "\<forall>k. browse db_cur k =
     (if k = Suc 0
      then Some (invoice_S\<lparr>state := Posted, amount_untaxed := 502 / 5, amount_total := 502 / 5\<rparr>)
      else if k = 2
      then Some (mirror_M\<lparr>state := Draft, amount_untaxed := 100, amount_total := 100\<rparr>)
      else None)"
  by (simp add: browse_def db_cur_def table_def)

lemma mirror_M_fields:
  "auto_generated mirror_M" "auto_invoice_id mirror_M = Some (Suc 0)"
  "amount_untaxed mirror_M = 200" "currency_id mirror_M = Suc 0" "state mirror_M = Posted"
  by (simp_all add: mirror_M_def)

lemma invoice_S_source_fields:
  "\<not> auto_generated invoice_S" "auto_invoice_id invoice_S = None"
  "commercial_partner_id invoice_S = Some 20" "amount_untaxed invoice_S = 200"
  "company_id invoice_S = Suc 0" "name invoice_S = ''INV/001''"
  by (simp_all add: invoice_S_def)

lemma float_compare_E0_equal:
  "float_compare E0 200 200 (Precision_rounding (currency_rounding E0 (Suc 0))) = 0"
  by (simp add: E0_def float_compare_rat_def float_is_zero_def float_round_def
      rounding_factor_def Let_def)

lemma float_compare_E0_differ:
  "float_compare E0 100 (502 / 5) (Precision_rounding (currency_rounding E0 (Suc 0))) \<noteq> 0"
  using float_compare_rat_cents by (simp add: E0_def)

lemma origin_of_cancelled_S: "company_name_of E0 (Suc 0) = ''A''"
  by (simp add: company_name_of_def company_by_id_def E0_def company_A_def)

lemma db_SM_agrees: "\<not> mirror_diverges E0 db_SM 2"
proof -
  have "browse db_SM 2 = Some mirror_M" "browse db_SM (Suc 0) = Some (invoice_S\<lparr>state := Posted\<rparr>)"
    using browse_db_SM_cases by simp_all
  from mirror_diverges_mirror [OF this(1) mirror_M_fields(2) this(2), of E0]
  show ?thesis
    by (simp add: mirror_M_fields invoice_S_source_fields float_compare_E0_equal)
qed

lemma db_cur_diverges: "mirror_diverges E0 db_cur 2"
proof -
  let ?M = "mirror_M\<lparr>state := Draft, amount_untaxed := 100, amount_total := 100\<rparr>"
  let ?S = "invoice_S\<lparr>state := Posted, amount_untaxed := 502 / 5, amount_total := 502 / 5\<rparr>"
  have b: "browse db_cur 2 = Some ?M" "browse db_cur (Suc 0) = Some ?S"
    using browse_db_cur_cases by simp_all
  have ai: "auto_invoice_id ?M = Some (Suc 0)" by (simp add: mirror_M_fields)
  from mirror_diverges_mirror [OF b(1) ai b(2), of E0]
  show ?thesis by (simp add: mirror_M_fields float_compare_E0_differ)
qed


text \<open>
  Claim C7 as stated fails. The source of 100.40 has a draft mirror of 100.00, as a
  build whose totals did not match leaves them. Cancelling the source resets the
  mirror to draft and writes its origin, and there the amount check of \<open>write\<close>
  raises: the mirror is not cancelled, and neither is the source.
\<close>

theorem cancel_stopped_by_amount_check_counterexample:
  "fst (button_cancel (Suc (Suc 0)) E0 user_context [1] db_cur) =
     Inl (AmountDiffersFromSource ''INV/001'') \<and>
   events (snd (button_cancel (Suc (Suc 0)) E0 user_context [1] db_cur)) =
     [Event OpDraft 2, Event OpWrite 2] \<and>
   map_option state (browse (snd (button_cancel (Suc (Suc 0)) E0 user_context [1] db_cur)) 2) =
     Some Draft \<and>
   map_option state (browse (snd (button_cancel (Suc (Suc 0)) E0 user_context [1] db_cur)) 1) =
     Some Posted"
proof -
  define S where
    "S = invoice_S\<lparr>state := Posted, amount_untaxed := 502 / 5, amount_total := 502 / 5\<rparr>"
  define M where "M = mirror_M\<lparr>state := Draft, amount_untaxed := 100, amount_total := 100\<rparr>"
  have rows: "\<forall>k. browse db_cur k = (if k = Suc 0 then Some S else if k = 2 then Some M else None)"
    unfolding S_def M_def by (rule browse_db_cur_cases)
  have Sf: "\<not> auto_generated S" "auto_invoice_id S = None" "commercial_partner_id S = Some 20"
    unfolding S_def by (simp_all add: invoice_S_source_fields)
  have Mf: "auto_generated M" "auto_invoice_id M = Some (Suc 0)"
    unfolding M_def by (simp_all add: mirror_M_fields)
  note ex = source_and_mirror [OF rows Sf Mf]
  have nskip: "\<not> skip_check_amount_difference user_context" by (simp add: user_context_def)
  have split: "map fst (search (\<lambda>m. auto_invoice_id m = Some (Suc 0)) db_cur) = [] @ 2 # []"
    using ex(5) by simp
  have agree: "\<forall>j\<in>set []. \<not> mirror_diverges E0 db_cur j" by simp
  from cancel_cascade_fails
         [OF host_allows_E0 ex(1) Sf(1) ex(2) ex(3) ex(4) nskip split agree db_cur_diverges, of 0]
  obtain m d2 where m: "browse db_cur 2 = Some m"
    and run: "button_cancel (Suc (Suc 0)) E0 user_context [Suc 0] db_cur =
               (Inl (AmountDiffersFromSource (name S)), d2)"
    and ev: "events d2 = events db_cur @
               concat (map (\<lambda>j. [Event OpDraft j, Event OpWrite j, Event OpCancel j]) []) @
               [Event OpDraft 2, Event OpWrite 2]"
    and b2: "browse d2 2 =
               Some (m\<lparr>state := Draft,
                       invoice_origin := company_name_of E0 (company_id S) @
                                         '' - Canceled Invoice: '' @ name S\<rparr>)"
    and b1: "browse d2 (Suc 0) = Some S"
    by blast
  have nS: "name S = ''INV/001''" unfolding S_def by (simp add: invoice_S_source_fields)
  have stS: "state S = Posted" unfolding S_def by simp
  have ev0: "events db_cur = []" by (simp add: db_cur_def)
  have r: "button_cancel (Suc (Suc 0)) E0 user_context [1] db_cur =
             (Inl (AmountDiffersFromSource ''INV/001''), d2)"
    using run nS by simp
  have c1: "fst (button_cancel (Suc (Suc 0)) E0 user_context [1] db_cur) =
              Inl (AmountDiffersFromSource ''INV/001'')"
    by (simp only: r fst_conv)
  have c2: "events (snd (button_cancel (Suc (Suc 0)) E0 user_context [1] db_cur)) =
              [Event OpDraft 2, Event OpWrite 2]"
    unfolding r snd_conv using ev ev0 by simp
  have c3: "map_option state
              (browse (snd (button_cancel (Suc (Suc 0)) E0 user_context [1] db_cur)) 2) = Some Draft"
    unfolding r snd_conv using b2 by simp
  have c4: "map_option state
              (browse (snd (button_cancel (Suc (Suc 0)) E0 user_context [1] db_cur)) 1) = Some Posted"
    unfolding r snd_conv using b1 stS by simp
  from c1 c2 c3 c4 show ?thesis by (intro conjI)
qed

theorem cancel_cascade_or_amount_error_witness:
  "browse db_SM 1 = Some (invoice_S\<lparr>state := Posted\<rparr>) \<and>
   \<not> auto_generated (invoice_S\<lparr>state := Posted\<rparr>) \<and>
   find_company_from_invoice_partner E0 (invoice_S\<lparr>state := Posted\<rparr>) \<noteq> None \<and>
   \<not> mirror_diverges E0 db_SM 2 \<and>
   fst (button_cancel (Suc (Suc 0)) E0 user_context [1] db_SM) = Inr () \<and>
   events (snd (button_cancel (Suc (Suc 0)) E0 user_context [1] db_SM)) =
     [Event OpDraft 2, Event OpWrite 2, Event OpCancel 2, Event OpCancel 1] \<and>
   browse (snd (button_cancel (Suc (Suc 0)) E0 user_context [1] db_SM)) 2 =
     Some (mirror_M\<lparr>state := Cancel, invoice_origin := ''A - Canceled Invoice: INV/001''\<rparr>) \<and>
   map_option state (browse (snd (button_cancel (Suc (Suc 0)) E0 user_context [1] db_SM)) 1) =
     Some Cancel \<and>
   mirror_diverges E0 db_cur 2 \<and>
   fst (button_cancel (Suc (Suc 0)) E0 user_context [1] db_cur) =
     Inl (AmountDiffersFromSource ''INV/001'') \<and>
   events (snd (button_cancel (Suc (Suc 0)) E0 user_context [1] db_cur)) =
     [Event OpDraft 2, Event OpWrite 2] \<and>
   browse (snd (button_cancel (Suc (Suc 0)) E0 user_context [1] db_cur)) 2 =
     Some (mirror_M\<lparr>state := Draft, amount_untaxed := 100, amount_total := 100,
                    invoice_origin := ''A - Canceled Invoice: INV/001''\<rparr>)"
proof -
  define S where "S = invoice_S\<lparr>state := Posted\<rparr>"
  have rows: "\<forall>k. browse db_SM k =
                (if k = Suc 0 then Some S else if k = 2 then Some mirror_M else None)"
    unfolding S_def by (rule browse_db_SM_cases)
  have Sf: "\<not> auto_generated S" "auto_invoice_id S = None" "commercial_partner_id S = Some 20"
    unfolding S_def by (simp_all add: invoice_S_source_fields)
  note ex = source_and_mirror [OF rows Sf mirror_M_fields(1,2)]
  have nskip: "\<not> skip_check_amount_difference user_context" by (simp add: user_context_def)
  have cond: "skip_check_amount_difference user_context \<or>
              (\<forall>j\<in>set (map fst (search (\<lambda>m. auto_invoice_id m = Some (Suc 0)) db_SM)).
                 \<not> mirror_diverges E0 db_SM j)"
    using db_SM_agrees by (simp add: ex(5))
  from cancel_cascade_or_amount_error
         [OF host_allows_E0 ex(1) Sf(1) ex(2) ex(3) ex(4), of user_context 0]
  have "\<exists>d'. button_cancel (Suc (Suc 0)) E0 user_context [Suc 0] db_SM = (Inr (), d') \<and>
                events d' =
                  events db_SM @
                  concat (map (\<lambda>j. [Event OpDraft j, Event OpWrite j, Event OpCancel j])
                              (map fst (search (\<lambda>m. auto_invoice_id m = Some (Suc 0)) db_SM))) @
                  [Event OpCancel (Suc 0)] \<and>
                (\<forall>j m. browse db_SM j = Some m \<and> auto_invoice_id m = Some (Suc 0) \<longrightarrow>
                   browse d' j =
                     Some (m\<lparr>state := Cancel,
                             invoice_origin := company_name_of E0 (company_id S) @
                                               '' - Canceled Invoice: '' @ name S\<rparr>)) \<and>
                browse d' (Suc 0) = Some (S\<lparr>state := Cancel\<rparr>)"
    by (simp only: cond if_True)
  then obtain d' where run: "button_cancel (Suc (Suc 0)) E0 user_context [Suc 0] db_SM = (Inr (), d')"
    and ev: "events d' =
                  events db_SM @
                  concat (map (\<lambda>j. [Event OpDraft j, Event OpWrite j, Event OpCancel j])
                              (map fst (search (\<lambda>m. auto_invoice_id m = Some (Suc 0)) db_SM))) @
                  [Event OpCancel (Suc 0)]"
    and mr: "\<forall>j m. browse db_SM j = Some m \<and> auto_invoice_id m = Some (Suc 0) \<longrightarrow>
                   browse d' j =
                     Some (m\<lparr>state := Cancel,
                             invoice_origin := company_name_of E0 (company_id S) @
                                               '' - Canceled Invoice: '' @ name S\<rparr>)"
    and sr: "browse d' (Suc 0) = Some (S\<lparr>state := Cancel\<rparr>)"
    by blast
  have org: "company_name_of E0 (company_id S) @ '' - Canceled Invoice: '' @ name S =
               ''A - Canceled Invoice: INV/001''"
    unfolding S_def by (simp add: invoice_S_source_fields origin_of_cancelled_S)
  have ev0: "events db_SM = []" by (simp add: db_SM_def)
  have r: "button_cancel (Suc (Suc 0)) E0 user_context [1] db_SM = (Inr (), d')"
    using run by simp
  have a1: "browse db_SM 1 = Some (invoice_S\<lparr>state := Posted\<rparr>)"
    using ex(1) by (simp add: S_def)
  have a2: "\<not> auto_generated (invoice_S\<lparr>state := Posted\<rparr>)" using Sf(1) by (simp add: S_def)
  have a3: "find_company_from_invoice_partner E0 (invoice_S\<lparr>state := Posted\<rparr>) \<noteq> None"
    using ex(2) by (simp add: S_def)
  have c1: "fst (button_cancel (Suc (Suc 0)) E0 user_context [1] db_SM) = Inr ()"
    by (simp only: r fst_conv)
  have c2: "events (snd (button_cancel (Suc (Suc 0)) E0 user_context [1] db_SM)) =
              [Event OpDraft 2, Event OpWrite 2, Event OpCancel 2, Event OpCancel 1]"
    unfolding r snd_conv using ev by (simp add: ev0 ex(5))
  from mr [rule_format, of 2 mirror_M] ex(6) mirror_M_fields(2)
  have "browse d' 2 =
          Some (mirror_M\<lparr>state := Cancel,
                  invoice_origin := company_name_of E0 (company_id S) @
                                    '' - Canceled Invoice: '' @ name S\<rparr>)"
    by blast
  then have c3: "browse (snd (button_cancel (Suc (Suc 0)) E0 user_context [1] db_SM)) 2 =
     Some (mirror_M\<lparr>state := Cancel, invoice_origin := ''A - Canceled Invoice: INV/001''\<rparr>)"
    unfolding r snd_conv by (simp only: org)
  have c4: "map_option state
              (browse (snd (button_cancel (Suc (Suc 0)) E0 user_context [1] db_SM)) 1) = Some Cancel"
    unfolding r snd_conv using sr by simp
  define T where
    "T = invoice_S\<lparr>state := Posted, amount_untaxed := 502 / 5, amount_total := 502 / 5\<rparr>"
  define M where "M = mirror_M\<lparr>state := Draft, amount_untaxed := 100, amount_total := 100\<rparr>"
  have rowsT: "\<forall>k. browse db_cur k = (if k = Suc 0 then Some T else if k = 2 then Some M else None)"
    unfolding T_def M_def by (rule browse_db_cur_cases)
  have Tf: "\<not> auto_generated T" "auto_invoice_id T = None" "commercial_partner_id T = Some 20"
    unfolding T_def by (simp_all add: invoice_S_source_fields)
  have Mf: "auto_generated M" "auto_invoice_id M = Some (Suc 0)"
    unfolding M_def by (simp_all add: mirror_M_fields)
  note ey = source_and_mirror [OF rowsT Tf Mf]
  have ncond: "\<not> (skip_check_amount_difference user_context \<or>
              (\<forall>j\<in>set (map fst (search (\<lambda>m. auto_invoice_id m = Some (Suc 0)) db_cur)).
                 \<not> mirror_diverges E0 db_cur j))"
    using db_cur_diverges nskip by (simp add: ey(5))
  from cancel_cascade_or_amount_error
         [OF host_allows_E0 ey(1) Tf(1) ey(2) ey(3) ey(4), of user_context 0]
  have "\<exists>pre j0 post m d2.
                map fst (search (\<lambda>m. auto_invoice_id m = Some (Suc 0)) db_cur) = pre @ j0 # post \<and>
                (\<forall>j\<in>set pre. \<not> mirror_diverges E0 db_cur j) \<and> mirror_diverges E0 db_cur j0 \<and>
                browse db_cur j0 = Some m \<and>
                button_cancel (Suc (Suc 0)) E0 user_context [Suc 0] db_cur =
                  (Inl (AmountDiffersFromSource (name T)), d2) \<and>
                events d2 =
                  events db_cur @
                  concat (map (\<lambda>j. [Event OpDraft j, Event OpWrite j, Event OpCancel j]) pre) @
                  [Event OpDraft j0, Event OpWrite j0] \<and>
                browse d2 j0 =
                  Some (m\<lparr>state := Draft,
                          invoice_origin := company_name_of E0 (company_id T) @
                                            '' - Canceled Invoice: '' @ name T\<rparr>) \<and>
                browse d2 (Suc 0) = Some T"
    using ncond by (simp only: if_False)
  then obtain pre j0 post m d2 where
    sp: "map fst (search (\<lambda>m. auto_invoice_id m = Some (Suc 0)) db_cur) = pre @ j0 # post"
    and bm: "browse db_cur j0 = Some m"
    and runT: "button_cancel (Suc (Suc 0)) E0 user_context [Suc 0] db_cur =
                  (Inl (AmountDiffersFromSource (name T)), d2)"
    and evT: "events d2 =
                  events db_cur @
                  concat (map (\<lambda>j. [Event OpDraft j, Event OpWrite j, Event OpCancel j]) pre) @
                  [Event OpDraft j0, Event OpWrite j0]"
    and bT: "browse d2 j0 =
                  Some (m\<lparr>state := Draft,
                          invoice_origin := company_name_of E0 (company_id T) @
                                            '' - Canceled Invoice: '' @ name T\<rparr>)"
    by blast
  from sp ey(5) have "[2] = pre @ j0 # post" by simp
  then have pj: "pre = []" "j0 = 2" by (simp_all add: Cons_eq_append_conv)
  from bm pj ey(6) have mM: "m = M" by simp
  have nT: "name T = ''INV/001''" unfolding T_def by (simp add: invoice_S_source_fields)
  have orgT: "company_name_of E0 (company_id T) @ '' - Canceled Invoice: '' @ name T =
               ''A - Canceled Invoice: INV/001''"
    unfolding T_def by (simp add: invoice_S_source_fields origin_of_cancelled_S)
  have ev0T: "events db_cur = []" by (simp add: db_cur_def)
  have rT: "button_cancel (Suc (Suc 0)) E0 user_context [1] db_cur =
              (Inl (AmountDiffersFromSource ''INV/001''), d2)"
    using runT nT by simp
  have c5: "fst (button_cancel (Suc (Suc 0)) E0 user_context [1] db_cur) =
              Inl (AmountDiffersFromSource ''INV/001'')"
    by (simp only: rT fst_conv)
  have c6: "events (snd (button_cancel (Suc (Suc 0)) E0 user_context [1] db_cur)) =
              [Event OpDraft 2, Event OpWrite 2]"
    unfolding rT snd_conv using evT by (simp add: ev0T pj)
  have c7: "browse (snd (button_cancel (Suc (Suc 0)) E0 user_context [1] db_cur)) 2 =
     Some (mirror_M\<lparr>state := Draft, amount_untaxed := 100, amount_total := 100,
                    invoice_origin := ''A - Canceled Invoice: INV/001''\<rparr>)"
    unfolding rT snd_conv using bT
    by (simp add: pj mM M_def T_def invoice_S_source_fields origin_of_cancelled_S)
  from a1 a2 a3 db_SM_agrees c1 c2 c3 c4 db_cur_diverges c5 c6 c7 show ?thesis
    by (intro conjI)
qed

section \<open>Posting again\<close>

text \<open>At most one posted mirror of a pair, said on the rows.\<close>

lemma length_le_one_distinct:
  assumes "distinct (map fst xs)"
  shows "(length xs \<le> 1) = (\<forall>x\<in>set xs. \<forall>y\<in>set xs. fst x = fst y)"
proof (cases xs)
  case Nil
  then show ?thesis by simp
next
  case (Cons x ys)
  show ?thesis
  proof (cases ys)
    case Nil
    with Cons show ?thesis by simp
  next
    case (Cons y zs)
    with \<open>xs = x # ys\<close> assms have "fst x \<noteq> fst y" by auto
    with Cons \<open>xs = x # ys\<close> show ?thesis by auto
  qed
qed

lemma search_le_one:
  "(length (search P d) \<le> 1) =
     (\<forall>k k' m m'. browse d k = Some m \<and> P m \<and> browse d k' = Some m' \<and> P m' \<longrightarrow> k = k')"
proof -
  have d: "distinct (map fst (search P d))" by (rule distinct_search)
  show ?thesis
    unfolding length_le_one_distinct [OF d]
  proof (intro iffI allI impI ballI)
    fix k k' m m'
    assume a: "\<forall>x\<in>set (search P d). \<forall>y\<in>set (search P d). fst x = fst y"
      and b: "browse d k = Some m \<and> P m \<and> browse d k' = Some m' \<and> P m'"
    from b have "(k, m) \<in> set (search P d)" "(k', m') \<in> set (search P d)"
      by (simp_all add: search_iff)
    with a have "fst (k, m) = fst (k', m')" by blast
    then show "k = k'" by simp
  next
    fix x y
    assume a: "\<forall>k k' m m'. browse d k = Some m \<and> P m \<and> browse d k' = Some m' \<and> P m' \<longrightarrow> k = k'"
      and x: "x \<in> set (search P d)" and y: "y \<in> set (search P d)"
    from x have "(fst x, snd x) \<in> set (search P d)" by simp
    then have px: "browse d (fst x) = Some (snd x) \<and> P (snd x)" by (simp only: search_iff)
    from y have "(fst y, snd y) \<in> set (search P d)" by simp
    then have py: "browse d (fst y) = Some (snd y) \<and> P (snd y)" by (simp only: search_iff)
    from a px py show "fst x = fst y" by blast
  qed
qed

text \<open>One turn of the loop either leaves the database as it is or has run the builder
  for a pair without posted mirror.\<close>

lemma mirror_document_cases:
  assumes "mirror_document builder E ctx sid d = (Inr (), d')"
  shows "d' = d \<or>
         (\<exists>src c i. browse d sid = Some src \<and> find_company_from_invoice_partner E src = Some c \<and>
            posted_mirrors sid (company_ident c) d = [] \<and>
            builder E (intercompany_context ctx c) sid c d = (Inr i, d'))"
proof (cases "browse d sid")
  case None
  with assms show ?thesis by (simp add: mirror_document_def read_def bind_def raise_def)
next
  case (Some src)
  show ?thesis
  proof (cases "find_company_from_invoice_partner E src")
    case None
    with Some assms show ?thesis by (simp add: mirror_document_def read_def bind_def ok_def)
  next
    case c: (Some c)
    show ?thesis
    proof (cases "auto_generated src \<or> posted_mirrors sid (company_ident c) d \<noteq> []")
      case True
      with Some c assms have "d' = d"
        by (auto simp: mirror_document_def read_def bind_def ok_def split: if_splits)
      then show ?thesis by simp
    next
      case False
      then have ng: "\<not> auto_generated src" and np: "posted_mirrors sid (company_ident c) d = []"
        by simp_all
      from mirror_document_builds [OF Some c ng np, of builder ctx] assms
      obtain i where "builder E (intercompany_context ctx c) sid c d = (Inr i, d')"
        by (cases "builder E (intercompany_context ctx c) sid c d")
           (auto split: sum.splits)
      with Some c np show ?thesis by blast
    qed
  qed
qed

text \<open>What a run of the builder that returns does to the rows: the new row is a
  document of the pair; another row that references a source is a row that was there
  before, as it was.\<close>

lemma builder_rows:
  assumes run: "inter_company_create_invoice n E ctx sid c d = (Inr i, d')"
  shows "browse d i = None \<and>
         (\<exists>m. browse d' i = Some m \<and> auto_invoice_id m = Some sid \<and>
              company_id m = company_ident c) \<and>
         (\<forall>k m s. k \<noteq> i \<and> browse d' k = Some m \<and> auto_invoice_id m = Some s \<longrightarrow>
            browse d k = Some m)"
proof -
  from run have run': "inter_company_create_invoice_body (action_post n) E ctx sid c d = (Inr i, d')"
    by (simp add: inter_company_create_invoice_def)
  from builder_shape [OF run'] obtain fn d1 where i: "i = next_id d"
    and rc: "reclaim_stale_mirror E ctx sid c d = (Inr fn, d1)"
    and fr: "\<forall>k. k \<noteq> i \<longrightarrow> browse d' k = browse d1 k"
    by blast
  from i have bi: "browse d i = None" by (simp add: browse_def)
  from builder_mirror_row [OF run'] have row: "\<exists>m. browse d' i = Some m \<and>
      auto_invoice_id m = Some sid \<and> company_id m = company_ident c"
    by blast
  have old: "\<forall>k m s. browse d1 k = Some m \<and> auto_invoice_id m = Some s \<longrightarrow> browse d k = Some m"
  proof (intro allI impI)
    fix k m s
    assume a: "browse d1 k = Some m \<and> auto_invoice_id m = Some s"
    from reclaim_shape [OF rc]
    show "browse d k = Some m"
    proof
      assume "d1 = d"
      with a show ?thesis by simp
    next
      assume "\<exists>j. j \<noteq> next_id d \<and> d1 = record_event OpUnlink j (delete_row j d)"
      then obtain j where d1: "d1 = record_event OpUnlink j (delete_row j d)" by blast
      with a have kj: "k \<noteq> j" and "map_option (clear_reference j) (browse d k) = Some m"
        by (auto simp: browse_delete_row split: if_splits)
      then obtain m0 where m0: "browse d k = Some m0" and cm: "clear_reference j m0 = m" by auto
      from cm a have "m0 = m" by (auto simp: clear_reference_def split: if_splits)
      with m0 show ?thesis by simp
    qed
  qed
  have "\<forall>k m s. k \<noteq> i \<and> browse d' k = Some m \<and> auto_invoice_id m = Some s \<longrightarrow>
            browse d k = Some m"
  proof (intro allI impI)
    fix k m s
    assume a: "k \<noteq> i \<and> browse d' k = Some m \<and> auto_invoice_id m = Some s"
    with fr have "browse d1 k = Some m" by auto
    with a old show "browse d k = Some m" by blast
  qed
  with bi row show ?thesis by (intro conjI)
qed

lemma mirror_document_keeps_unique:
  assumes run: "mirror_document (inter_company_create_invoice n) E ctx sid d = (Inr (), d')"
    and le: "length (posted_mirrors s c d) \<le> 1"
  shows "length (posted_mirrors s c d') \<le> 1"
proof -
  define P where
    "P = (\<lambda>m :: move. auto_invoice_id m = Some s \<and> company_id m = c \<and> state m = Posted)"
  have pm: "\<And>x. posted_mirrors s c x = search P x" by (simp add: posted_mirrors_def P_def)
  have Pai: "\<And>m. P m \<Longrightarrow> auto_invoice_id m = Some s" by (simp add: P_def)
  from le have "length (search P d) \<le> 1" by (simp only: pm)
  then have uP: "\<And>k k' m m'. browse d k = Some m \<Longrightarrow> P m \<Longrightarrow> browse d k' = Some m' \<Longrightarrow>
                   P m' \<Longrightarrow> k = k'"
    unfolding search_le_one by blast
  from mirror_document_cases [OF run]
  show ?thesis
  proof
    assume "d' = d"
    with le show ?thesis by simp
  next
    assume "\<exists>src c0 i. browse d sid = Some src \<and>
              find_company_from_invoice_partner E src = Some c0 \<and>
              posted_mirrors sid (company_ident c0) d = [] \<and>
              inter_company_create_invoice n E (intercompany_context ctx c0) sid c0 d = (Inr i, d')"
    then obtain c0 i where np: "posted_mirrors sid (company_ident c0) d = []"
      and b: "inter_company_create_invoice n E (intercompany_context ctx c0) sid c0 d = (Inr i, d')"
      by blast
    from builder_rows [OF b] obtain mi where
      ri: "browse d' i = Some mi" "auto_invoice_id mi = Some sid"
        "company_id mi = company_ident c0"
      and old: "\<forall>k m s. k \<noteq> i \<and> browse d' k = Some m \<and> auto_invoice_id m = Some s \<longrightarrow>
                  browse d k = Some m"
      by blast
    have oldP: "\<And>k m. k \<noteq> i \<Longrightarrow> browse d' k = Some m \<Longrightarrow> P m \<Longrightarrow> browse d k = Some m"
    proof -
      fix k m
      assume "k \<noteq> i" "browse d' k = Some m" "P m"
      with Pai [of m] have "k \<noteq> i \<and> browse d' k = Some m \<and> auto_invoice_id m = Some s" by simp
      with old show "browse d k = Some m" by blast
    qed
    have newP: "\<And>k m. P mi \<Longrightarrow> browse d k = Some m \<Longrightarrow> \<not> P m"
    proof -
      fix k m
      assume "P mi" and bk: "browse d k = Some m"
      with ri have sc: "s = sid" "c = company_ident c0" by (simp_all add: P_def)
      from np bk have "\<not> (auto_invoice_id m = Some sid \<and> company_id m = company_ident c0 \<and>
                         state m = Posted)"
        unfolding posted_mirrors_empty by blast
      with sc show "\<not> P m" by (simp add: P_def)
    qed
    have "length (search P d') \<le> 1"
      unfolding search_le_one
    proof (intro allI impI)
      fix k k' m m'
      assume a: "browse d' k = Some m \<and> P m \<and> browse d' k' = Some m' \<and> P m'"
      then have bk: "browse d' k = Some m" and Pm: "P m"
        and bk': "browse d' k' = Some m'" and Pm': "P m'"
        by simp_all
      show "k = k'"
      proof (cases "k = i")
        case True
        with bk ri(1) have "m = mi" by simp
        with Pm have Pi: "P mi" by simp
        show ?thesis
        proof (rule ccontr)
          assume "k \<noteq> k'"
          with True have "k' \<noteq> i" by simp
          from oldP [OF this bk' Pm'] have "browse d k' = Some m'" .
          from newP [OF Pi this] Pm' show False by simp
        qed
      next
        case False
        from oldP [OF False bk Pm] have dk: "browse d k = Some m" .
        show ?thesis
        proof (cases "k' = i")
          case True
          with bk' ri(1) have "m' = mi" by simp
          with Pm' have Pi: "P mi" by simp
          from newP [OF Pi dk] Pm show ?thesis by simp
        next
          case k': False
          from oldP [OF k' bk' Pm'] have "browse d k' = Some m'" .
          from uP [OF dk Pm this Pm'] show ?thesis .
        qed
      qed
    qed
    then show ?thesis by (simp only: pm)
  qed
qed

lemma loop_keeps_unique:
  assumes "for_each (mirror_document (inter_company_create_invoice n) E ctx) srcs d = (Inr (), d')"
    and "length (posted_mirrors s c d) \<le> 1"
  shows "length (posted_mirrors s c d') \<le> 1"
  using assms
proof (induction srcs arbitrary: d)
  case Nil
  then show ?case by simp
next
  case (Cons x xs)
  obtain r d1 where f: "mirror_document (inter_company_create_invoice n) E ctx x d = (r, d1)"
    by (cases "mirror_document (inter_company_create_invoice n) E ctx x d")
  with Cons.prems(1) have r: "r = Inr ()" by (cases r) simp_all
  from f r Cons.prems(1)
  have rest: "for_each (mirror_document (inter_company_create_invoice n) E ctx) xs d1 = (Inr (), d')"
    by simp
  from mirror_document_keeps_unique [OF f [unfolded r] Cons.prems(2)]
  have "length (posted_mirrors s c d1) \<le> 1" .
  from Cons.IH [OF rest this] show ?case .
qed

text \<open>The ledger's post of documents that are not mirrors changes no mirror.\<close>

lemma host_post_keeps_unique:
  assumes run: "host_action_post E ids d = (Inr (), d1)"
    and nm: "\<forall>i\<in>set ids. \<forall>m. browse d i = Some m \<longrightarrow> auto_invoice_id m = None"
    and le: "length (posted_mirrors s c d) \<le> 1"
  shows "length (posted_mirrors s c d1) \<le> 1"
proof -
  define P where
    "P = (\<lambda>m :: move. auto_invoice_id m = Some s \<and> company_id m = c \<and> state m = Posted)"
  have pm: "\<And>x. posted_mirrors s c x = search P x" by (simp add: posted_mirrors_def P_def)
  have Pai: "\<And>m. P m \<Longrightarrow> auto_invoice_id m = Some s" by (simp add: P_def)
  from le have "length (search P d) \<le> 1" by (simp only: pm)
  then have uP: "\<And>k k' m m'. browse d k = Some m \<Longrightarrow> P m \<Longrightarrow> browse d k' = Some m' \<Longrightarrow>
                   P m' \<Longrightarrow> k = k'"
    unfolding search_le_one by blast
  from host_action_post_shape [OF run]
  have b: "\<forall>k. browse d1 k =
               map_option (\<lambda>m. if k \<in> set ids then m\<lparr>state := Posted\<rparr> else m) (browse d k)"
    by blast
  have same: "\<And>k m. browse d1 k = Some m \<Longrightarrow> P m \<Longrightarrow> browse d k = Some m"
  proof -
    fix k m
    assume a: "browse d1 k = Some m" and "P m"
    then have ai: "auto_invoice_id m = Some s" by (simp add: Pai)
    from b have "browse d1 k =
        map_option (\<lambda>m. if k \<in> set ids then m\<lparr>state := Posted\<rparr> else m) (browse d k)" by blast
    with a obtain m0 where m0: "browse d k = Some m0"
      and m: "m = (if k \<in> set ids then m0\<lparr>state := Posted\<rparr> else m0)"
      by (cases "browse d k") simp_all
    show "browse d k = Some m"
    proof (cases "k \<in> set ids")
      case True
      with nm m0 have "auto_invoice_id m0 = None" by blast
      with m True ai show ?thesis by simp
    next
      case False
      with m m0 show ?thesis by simp
    qed
  qed
  have "length (search P d1) \<le> 1"
    unfolding search_le_one
  proof (intro allI impI)
    fix k k' m m'
    assume a: "browse d1 k = Some m \<and> P m \<and> browse d1 k' = Some m' \<and> P m'"
    then have bk: "browse d1 k = Some m" and Pm: "P m"
      and bk': "browse d1 k' = Some m'" and Pm': "P m'"
      by simp_all
    from uP [OF same [OF bk Pm] Pm same [OF bk' Pm'] Pm'] show "k = k'" .
  qed
  then show ?thesis by (simp only: pm)
qed


text \<open>The guard of the loop: a document whose pair has a posted mirror is passed
  over, whatever the builder would do.\<close>

lemma mirror_document_skips:
  assumes "browse d sid = Some src" and "find_company_from_invoice_partner E src = Some c"
    and "posted_mirrors sid (company_ident c) d \<noteq> []"
  shows "mirror_document builder E ctx sid d = (Inr (), d)"
  using assms by (simp add: mirror_document_def read_def bind_def ok_def)

lemma for_each_noop:
  "\<forall>x\<in>set xs. f x d = (Inr (), d) \<Longrightarrow> for_each f xs d = (Inr (), d)"
  by (induction xs) simp_all

lemma find_company_posted:
  "find_company_from_invoice_partner E (m\<lparr>state := st\<rparr>) = find_company_from_invoice_partner E m"
  by (simp add: find_company_from_invoice_partner_def)

lemma repost_is_ledger_post:
  assumes all: "\<forall>i\<in>set ids. \<exists>src c. browse d i = Some src \<and>
                  find_company_from_invoice_partner E src = Some c \<and>
                  posted_mirrors i (company_ident c) d \<noteq> []"
  shows "action_post (Suc n) E ctx ids d = host_action_post E ids d"
proof -
  obtain r d1 where h: "host_action_post E ids d = (r, d1)"
    by (cases "host_action_post E ids d")
  show ?thesis
  proof (cases r)
    case (Inl e)
    with h show ?thesis by (simp add: action_post_unfold)
  next
    case (Inr u)
    with h have run: "host_action_post E ids d = (Inr (), d1)" by simp
    from host_action_post_shape [OF run]
    have b: "\<forall>k. browse d1 k =
               map_option (\<lambda>m. if k \<in> set ids then m\<lparr>state := Posted\<rparr> else m) (browse d k)"
      by blast
    have skip: "\<forall>i\<in>set ids.
                  mirror_document (inter_company_create_invoice n) E ctx i d1 = (Inr (), d1)"
    proof
      fix i assume i: "i \<in> set ids"
      with all obtain src c where src: "browse d i = Some src"
        and c: "find_company_from_invoice_partner E src = Some c"
        and pm: "posted_mirrors i (company_ident c) d \<noteq> []"
        by blast
      from b src i have s1: "browse d1 i = Some (src\<lparr>state := Posted\<rparr>)" by simp
      from c have c1: "find_company_from_invoice_partner E (src\<lparr>state := Posted\<rparr>) = Some c"
        by (simp only: find_company_posted)
      from pm obtain k m where km: "browse d k = Some m"
        and pk: "auto_invoice_id m = Some i \<and> company_id m = company_ident c \<and> state m = Posted"
        unfolding posted_mirrors_empty by blast
      let ?m = "if k \<in> set ids then m\<lparr>state := Posted\<rparr> else m"
      from b km have "browse d1 k = Some ?m" by simp
      moreover from pk
      have "auto_invoice_id ?m = Some i \<and> company_id ?m = company_ident c \<and> state ?m = Posted"
        by simp
      ultimately have "posted_mirrors i (company_ident c) d1 \<noteq> []"
        unfolding posted_mirrors_empty by blast
      from mirror_document_skips [OF s1 c1 this]
      show "mirror_document (inter_company_create_invoice n) E ctx i d1 = (Inr (), d1)" .
    qed
    from run have ex: "\<forall>i\<in>set ids. browse d1 i \<noteq> None"
      using for_each_host_update_dom [of E OpPost _ ids d "()" d1]
      by (simp add: host_action_post_def)
    let ?srcs = "filter (\<lambda>i. case browse d1 i of None \<Rightarrow> False
                            | Some m \<Rightarrow> move_type m \<in> set supported_types) ids"
    from filtered_existing [OF ex]
    have fl: "filtered (\<lambda>x. move_type x \<in> set supported_types) ids d1 = (Inr ?srcs, d1)" .
    from skip have "\<forall>i\<in>set ?srcs.
                  mirror_document (inter_company_create_invoice n) E ctx i d1 = (Inr (), d1)"
      by simp
    then have "for_each (mirror_document (inter_company_create_invoice n) E ctx) ?srcs d1 =
                 (Inr (), d1)"
      by (rule for_each_noop)
    with run fl have "action_post (Suc n) E ctx ids d = (Inr (), d1)"
      by (simp add: action_post_unfold)
    with run show ?thesis by simp
  qed
qed

lemma post_keeps_unique:
  assumes nm: "\<forall>i\<in>set ids. \<forall>m. browse d i = Some m \<longrightarrow> auto_invoice_id m = None"
    and le: "length (posted_mirrors s c d) \<le> 1"
  shows "length (posted_mirrors s c (snd (transaction (action_post (Suc n) E ctx ids) d))) \<le> 1"
proof -
  obtain r d' where ap: "action_post (Suc n) E ctx ids d = (r, d')"
    by (cases "action_post (Suc n) E ctx ids d")
  show ?thesis
  proof (cases r)
    case (Inl e)
    with ap le show ?thesis by (simp add: transaction_def)
  next
    case (Inr u)
    with ap have run: "action_post (Suc n) E ctx ids d = (Inr (), d')" by simp
    obtain r1 d1 where h: "host_action_post E ids d = (r1, d1)"
      by (cases "host_action_post E ids d")
    with run have r1: "r1 = Inr ()" by (cases r1) (simp_all add: action_post_unfold)
    obtain r2 d2 where f: "filtered (\<lambda>x. move_type x \<in> set supported_types) ids d1 = (r2, d2)"
      by (cases "filtered (\<lambda>x. move_type x \<in> set supported_types) ids d1")
    from filtered_snd [of "\<lambda>x. move_type x \<in> set supported_types" ids d1] f
    have d2: "d2 = d1" by simp
    from run h r1 f obtain srcs where r2: "r2 = Inr srcs"
      by (cases r2) (simp_all add: action_post_unfold)
    from run h r1 f r2 d2
    have lp: "for_each (mirror_document (inter_company_create_invoice n) E ctx) srcs d1 =
                (Inr (), d')"
      by (simp add: action_post_unfold)
    from host_post_keeps_unique [OF h [unfolded r1] nm le]
    have "length (posted_mirrors s c d1) \<le> 1" .
    from loop_keeps_unique [OF lp this] run show ?thesis by (simp add: transaction_def)
  qed
qed


subsection \<open>Posting again on the examples\<close>

lemma rows_db_DM: "rows db_DM = [(1, invoice_S), (2, mirror_M)]"
  by (simp add: rows_def List.map_filter_def browse_def db_DM_def table_def upt_rec)

lemma browse_db_DM: "browse db_DM (Suc 0) = Some invoice_S"
  by (simp add: browse_def db_DM_def table_def)

lemma posted_mirrors_db_DM: "posted_mirrors (Suc 0) 2 db_DM = [(2, mirror_M)]"
  by (simp add: posted_mirrors_def search_def rows_db_DM invoice_S_def mirror_M_def)

lemma posted_mirrors_db_S: "posted_mirrors (Suc 0) 2 db_S = []"
  by (simp add: posted_mirrors_def search_def rows_db_S invoice_S_def)

lemma host_action_post_db_DM:
  "host_action_post E0 [Suc 0] db_DM =
     (Inr (), record_event OpPost (Suc 0) (put (Suc 0) (invoice_S\<lparr>state := Posted\<rparr>) db_DM))"
  using host_allows_E0 by (simp add: host_action_post_def host_update_cases browse_db_DM)


end
